theory Spec2Isabelle
  imports Main
begin

section \<open>Outcomes of a call\<close>

text \<open>
  The exceptions that gd/cert/gd_device.py raises or catches by name.
  \<^item> \<open>TestFailure\<close>: what \<open>asserts.assert_true\<close> and \<open>asserts.fail\<close> raise;
  \<^item> \<open>PyException\<close>: \<open>raise Exception(...)\<close>;
  \<^item> \<open>TimeoutExpired\<close>: \<open>subprocess.TimeoutExpired\<close>;
  \<^item> \<open>FutureTimeoutError\<close>: \<open>concurrent.futures.TimeoutError\<close>;
  \<^item> \<open>AdbError\<close>: \<open>acts.controllers.adb.AdbError\<close>;
  \<^item> \<open>AttributeError\<close>: reading an attribute of \<open>self\<close> that no statement has
    assigned yet;
  \<^item> \<open>OSError\<close>, \<open>UnicodeDecodeError\<close>: what \<open>open\<close>, \<open>write\<close> and the reading of
    the worker's output raise inside the logging loop; the source does not catch them.
  The failure reasons stand for the message texts of the source.
\<close>

datatype failure =
    SignalPortUnavailable string
      \<comment> \<open>"[%s] Failed to make signal port available"\<close>
  | BackingPortsUnavailable string
      \<comment> \<open>"[%s] Failed to make backing process ports available"\<close>
  | CannotStart "string list"
      \<comment> \<open>"Cannot start backing_process at " + " ".join(self.cmd)\<close>
  | StoppedImmediately "string list"
      \<comment> \<open>"backing_process stopped immediately after running " + ...\<close>
  | CannotRunAsRoot string
      \<comment> \<open>"device %s cannot run as root"\<close>
  | CannotRunAsRootAfterVerity string
      \<comment> \<open>"device %s cannot run as root after enabling verity"\<close>
  | CommandReturnedSomething string
      \<comment> \<open>"command returned something when it shouldn't: %s"\<close>
  | UnableToPush string string
      \<comment> \<open>"Unable to push file %s to %s due to %s"\<close>
  | UnableToForward int int
      \<comment> \<open>"Unable to forward host port %d to device port %d, error %s"\<close>
  | UnableToReverse int int
      \<comment> \<open>"Unable to reverse device port %d to host port %d, error %s"\<close>
  | BootTimedOut string
      \<comment> \<open>"Device %s booting process timed out."\<close>
  | ArgumentsEmpty
      \<comment> \<open>"All arguments to GdDeviceBase must not be None nor empty"\<close>
  | CmdComponentEmpty
      \<comment> \<open>"cmd list should not have None nor empty component"\<close>
  | SerialNumberEmpty
      \<comment> \<open>"serial_number must not be None nor empty"\<close>

datatype exn =
    TestFailure failure
  | PyException string
  | TimeoutExpired
  | FutureTimeoutError
  | AdbError
  | ValueError
  | TypeError
  | KeyError string
  | AttributeError string
  | OSError
  | UnicodeDecodeError

text \<open>
  A call returns a value, raises, or never returns. \<open>Hangs\<close> is the outcome of a
  blocking call that has no timeout and whose event never happens.
\<close>

datatype 'a outcome = Returns 'a | Raises exn | Hangs

type_synonym ('s, 'a) prog = "'s \<Rightarrow> 'a outcome \<times> 's"

definition ret :: "'a \<Rightarrow> ('s, 'a) prog" where
  "ret x s = (Returns x, s)"

definition raise :: "exn \<Rightarrow> ('s, 'a) prog" where
  "raise e s = (Raises e, s)"

definition bnd :: "('s, 'a) prog \<Rightarrow> ('a \<Rightarrow> ('s, 'b) prog) \<Rightarrow> ('s, 'b) prog" where
  "bnd m f s =
     (case m s of
        (Returns x, s') \<Rightarrow> f x s'
      | (Raises e, s') \<Rightarrow> (Raises e, s')
      | (Hangs, s') \<Rightarrow> (Hangs, s'))"

text \<open>\<open>try: m except E: h\<close>, where \<open>catches\<close> says which exceptions \<open>E\<close> names.\<close>

definition try_except ::
  "('s, 'a) prog \<Rightarrow> (exn \<Rightarrow> bool) \<Rightarrow> (exn \<Rightarrow> ('s, 'a) prog) \<Rightarrow> ('s, 'a) prog" where
  "try_except m catches h s =
     (case m s of
        (Raises e, s') \<Rightarrow> if catches e then h e s' else (Raises e, s')
      | r \<Rightarrow> r)"

text \<open>\<open>asserts.assert_true(cond, msg)\<close>.\<close>

definition assert_true :: "bool \<Rightarrow> failure \<Rightarrow> ('s, unit) prog" where
  "assert_true c msg = (if c then ret () else raise (TestFailure msg))"

section \<open>The world outside the program\<close>

text \<open>
  Everything the program does not decide itself is a field of the world: the replies
  of the worker process, of the logging thread, of the adb proxy and of the missing
  helpers of the repository. A call on the worker process or on the adb proxy raises
  the exceptions that the source names or handles for it, and no others; the logging
  loop may be ended by any exception, which the join of teardown then meets.

  Time is counted in ticks of a tenth of a second, the finest step the source sleeps
  for (\<open>time.sleep(.1)\<close>).
\<close>

definition seconds :: "nat \<Rightarrow> nat" where
  "seconds n = 10 * n"

text \<open>Signal numbers of the \<open>signal\<close> module on Linux.\<close>

definition SIGINT :: int where "SIGINT = 2"
definition SIGKILL :: int where "SIGKILL = 9"

datatype channel_id = GrpcChannel | GrpcRootServerChannel

datatype log_msg =
    FailedToInterrupt string
      \<comment> \<open>"[%s] Failed to interrupt backing process via SIGINT, sending SIGKILL"\<close>
  | FailedToKill
      \<comment> \<open>"Failed to kill backing process"\<close>
  | StoppedWithCode string int
      \<comment> \<open>"backing process %s stopped with code: %d"\<close>
  | LoggingThreadError string
      \<comment> \<open>"backing process logging thread produced an error when executing: %s"\<close>
  | LoggingThreadLate
      \<comment> \<open>"backing process logging thread failed to finish on time"\<close>
  | ForwardRetry string int int nat
      \<comment> \<open>"[%s] Failed to TCP forward host port %d to device port %d,
          num_retries left is %d"\<close>
  | ReverseRetry string int int nat
      \<comment> \<open>"[%s] Failed to TCP reverse device port %d to host port %d,
          num_retries left is %d"\<close>

text \<open>What \<open>AdbProxy.tcp_forward\<close> returns: a port number or the output of adb.\<close>

datatype port_or_error = PInt int | PStr string

datatype adb_call =
    AdbEnsureRoot
  | AdbGetprop string
  | AdbDisableVerity
  | AdbReboot
  | AdbRemount
  | AdbWaitForDevice nat
  | AdbGetState
  | AdbShell string
  | AdbRemoveTcpForward int
  | AdbReverseRemove int
  | AdbReverse int int
  | AdbTcpForward int int
  | AdbPush string string nat

text \<open>Every call that leaves the program is recorded, in the order of the calls.\<close>

datatype event =
    MakePortsAvailable "int list"
  | SocketBind int
  | SocketListen nat
  | Popen "string list"
  | SocketAccept
  | SocketClose
  | SubmitLoggingLoop
  | InsecureChannel channel_id int
  | ChannelClose channel_id
  | SendSignal int
  | ProcKill
  | ProcWait nat
  | FutureResult nat
  | ExecutorShutdown
  | LogError log_msg
  | LogWarning log_msg
  | Sleep nat
  | Adb adb_call

text \<open>
  What one \<open>Popen.wait(timeout)\<close> on a process that has not been reaped yet meets:
  the process exits after so many ticks with a return code, or it keeps running.
\<close>

datatype wait_reply = ProcExits nat int | ProcKeepsRunning

text \<open>
  What one \<open>Future.result(timeout)\<close> on an unfinished logging loop meets: the loop
  ends after so many ticks, by reaching the end of the worker's output or by an
  exception that one of its calls raises, or it keeps running.
\<close>

datatype join_reply = LoopEnds nat | LoopRaises nat exn | LoopKeepsRunning

text \<open>
  The world holds the trace, the clock and, for each kind of call whose result the
  program does not determine, the replies of the successive calls. A list of replies
  that has run out answers with a fixed reply, given with each call below.
\<close>

record world =
  trace :: "event list"
  now :: nat
  busy_ports :: "int list"
  alive_replies :: "bool list"
  handshake_replies :: "nat option list"
  wait_replies :: "wait_reply list"
  join_replies :: "join_reply list"
  ensure_root_replies :: "bool list"
  getprop_replies :: "string option list"
  get_state_replies :: "bool list"
  shell_replies :: "string list"
  reverse_replies :: "string list"
  forward_replies :: "port_or_error list"
  push_replies :: "string option list"
  gd_root :: string
  full_output_path :: string
  base_output_path :: string
  os_environ :: "(string \<times> string) list"

definition quiet_world :: world where
  "quiet_world =
     \<lparr>trace = [], now = 0, busy_ports = [], alive_replies = [],
      handshake_replies = [], wait_replies = [], join_replies = [],
      ensure_root_replies = [], getprop_replies = [], get_state_replies = [],
      shell_replies = [], reverse_replies = [], forward_replies = [],
      push_replies = [], gd_root = ''/gd'', full_output_path = ''/out/test'',
      base_output_path = ''/out'', os_environ = []\<rparr>"

section \<open>The device object\<close>

text \<open>The objects that \<open>setup\<close> stores in attributes of \<open>self\<close>.\<close>

record popen =
  args :: "string list"
  returncode :: "int option"

record channel =
  target_port :: int
  closed :: bool

record future =
  finished :: bool
  raised :: "exn option"

datatype terminal_color = BLUE | YELLOW

record device =
  verbose_mode :: bool
  grpc_root_server_port :: int
  grpc_port :: int
  signal_port :: int
  name :: string
  type_identifier :: string
  label :: string
  log_path_base :: string
  test_runner_base_path :: string
  backing_process_log_path :: string
  cmd :: "string list"
  environment :: "(string \<times> string) list"
  terminal_color :: terminal_color
  backing_process_profraw_path :: "string option"
  serial_number :: "string option"
  backing_process :: "popen option"
  backing_process_logging_executor :: "unit option"
  backing_process_logging_future :: "future option"
  grpc_root_server_channel :: "channel option"
  grpc_channel :: "channel option"

type_synonym 'a action = "(device \<times> world, 'a) prog"

definition emit :: "event \<Rightarrow> unit action" where
  "emit e = (\<lambda>(d, w). (Returns (), (d, w\<lparr>trace := trace w @ [e]\<rparr>)))"

definition advance :: "nat \<Rightarrow> unit action" where
  "advance n = (\<lambda>(d, w). (Returns (), (d, w\<lparr>now := now w + n\<rparr>)))"

text \<open>\<open>self.f\<close>, for an attribute that \<open>__init__\<close> assigns.\<close>

definition get :: "(device \<Rightarrow> 'a) \<Rightarrow> 'a action" where
  "get f = (\<lambda>(d, w). (Returns (f d), (d, w)))"

text \<open>\<open>self.f\<close>, for an attribute that only \<open>setup\<close> assigns.\<close>

definition attr :: "(device \<Rightarrow> 'a option) \<Rightarrow> string \<Rightarrow> 'a action" where
  "attr f nm =
     (\<lambda>(d, w). case f d of
        None \<Rightarrow> (Raises (AttributeError nm), (d, w))
      | Some x \<Rightarrow> (Returns x, (d, w)))"

text \<open>A reading of the world that changes nothing.\<close>

definition ask :: "(world \<Rightarrow> 'a) \<Rightarrow> 'a action" where
  "ask f = (\<lambda>(d, w). (Returns (f w), (d, w)))"

definition set_self :: "(device \<Rightarrow> device) \<Rightarrow> unit action" where
  "set_self f = (\<lambda>(d, w). (Returns (), (f d, w)))"

text \<open>
  The next reply of one of the world's lists of replies, \<open>dflt\<close> once the list has
  run out; \<open>upd\<close> is the update function of the same field.
\<close>

definition take_reply ::
  "(world \<Rightarrow> 'a list) \<Rightarrow> (('a list \<Rightarrow> 'a list) \<Rightarrow> world \<Rightarrow> world) \<Rightarrow> 'a \<Rightarrow> 'a action" where
  "take_reply sel upd dflt =
     (\<lambda>(d, w). (Returns (case sel w of [] \<Rightarrow> dflt | r # _ \<Rightarrow> r), (d, upd tl w)))"

section \<open>Library calls of teardown\<close>

text \<open>\<open>grpc.Channel.close()\<close> on the two channels.\<close>

definition close_grpc_channel :: "unit action" where
  "close_grpc_channel =
     bnd (attr grpc_channel ''grpc_channel'') (\<lambda>c.
     bnd (emit (ChannelClose GrpcChannel)) (\<lambda>_.
     set_self (\<lambda>d. d\<lparr>grpc_channel := Some (c\<lparr>closed := True\<rparr>)\<rparr>)))"

definition close_grpc_root_server_channel :: "unit action" where
  "close_grpc_root_server_channel =
     bnd (attr grpc_root_server_channel ''grpc_root_server_channel'') (\<lambda>c.
     bnd (emit (ChannelClose GrpcRootServerChannel)) (\<lambda>_.
     set_self (\<lambda>d. d\<lparr>grpc_root_server_channel := Some (c\<lparr>closed := True\<rparr>)\<rparr>)))"

text \<open>\<open>Popen.send_signal(sig)\<close> and \<open>Popen.kill()\<close>: the call is recorded; what the
  process does with the signal shows in the replies to the waits that follow.\<close>

definition send_signal :: "int \<Rightarrow> unit action" where
  "send_signal sig =
     bnd (attr backing_process ''backing_process'') (\<lambda>_. emit (SendSignal sig))"

definition kill :: "unit action" where
  "kill = bnd (attr backing_process ''backing_process'') (\<lambda>_. emit ProcKill)"

text \<open>
  \<open>Popen.wait(timeout)\<close>: a process already reaped returns its return code at once;
  otherwise the call returns the return code if the process exits within the timeout,
  and raises \<open>TimeoutExpired\<close> after the timeout if not. Replies run out: the process
  keeps running.
\<close>

definition popen_wait :: "nat \<Rightarrow> int action" where
  "popen_wait timeout =
     bnd (attr backing_process ''backing_process'') (\<lambda>p.
     bnd (emit (ProcWait timeout)) (\<lambda>_.
     case returncode p of
       Some rc \<Rightarrow> ret rc
     | None \<Rightarrow>
         bnd (take_reply wait_replies wait_replies_update ProcKeepsRunning) (\<lambda>r.
         case r of
           ProcExits t rc \<Rightarrow>
             if t \<le> timeout
             then bnd (advance t) (\<lambda>_.
                  bnd (set_self (\<lambda>d. d\<lparr>backing_process := Some (p\<lparr>returncode := Some rc\<rparr>)\<rparr>))
                    (\<lambda>_.
                  ret rc))
             else bnd (advance timeout) (\<lambda>_. raise TimeoutExpired)
         | ProcKeepsRunning \<Rightarrow> bnd (advance timeout) (\<lambda>_. raise TimeoutExpired))))"

text \<open>
  \<open>Future.result(timeout)\<close> on the future of the logging loop. The loop has no
  \<open>return\<close> statement, so the value of a future that finished normally is \<open>None\<close>;
  a future whose loop was ended by an exception raises that exception again, at every
  call. Replies run out: the loop keeps running.
\<close>

definition future_result :: "nat \<Rightarrow> string option action" where
  "future_result timeout =
     bnd (attr backing_process_logging_future ''backing_process_logging_future'') (\<lambda>f.
     bnd (emit (FutureResult timeout)) (\<lambda>_.
     if finished f then (case raised f of None \<Rightarrow> ret None | Some e \<Rightarrow> raise e)
     else
       bnd (take_reply join_replies join_replies_update LoopKeepsRunning) (\<lambda>r.
       case r of
         LoopEnds t \<Rightarrow>
           if t \<le> timeout
           then bnd (advance t) (\<lambda>_.
                bnd (set_self
                       (\<lambda>d. d\<lparr>backing_process_logging_future :=
                                 Some (f\<lparr>finished := True, raised := None\<rparr>)\<rparr>))
                  (\<lambda>_.
                ret None))
           else bnd (advance timeout) (\<lambda>_. raise FutureTimeoutError)
       | LoopRaises t e \<Rightarrow>
           if t \<le> timeout
           then bnd (advance t) (\<lambda>_.
                bnd (set_self
                       (\<lambda>d. d\<lparr>backing_process_logging_future :=
                                 Some (f\<lparr>finished := True, raised := Some e\<rparr>)\<rparr>))
                  (\<lambda>_.
                raise e))
           else bnd (advance timeout) (\<lambda>_. raise FutureTimeoutError)
       | LoopKeepsRunning \<Rightarrow> bnd (advance timeout) (\<lambda>_. raise FutureTimeoutError))))"

text \<open>\<open>Executor.shutdown(wait=False)\<close>.\<close>

definition executor_shutdown :: "unit action" where
  "executor_shutdown =
     bnd (attr backing_process_logging_executor ''backing_process_logging_executor'')
       (\<lambda>_. emit ExecutorShutdown)"

section \<open>GdDeviceBase.teardown\<close>

definition WAIT_CHANNEL_READY_TIMEOUT_SECONDS :: nat where
  "WAIT_CHANNEL_READY_TIMEOUT_SECONDS = 10"

text \<open>
  The first \<open>try\<close> statement of teardown (lines 287 to 303): it leaves the pair of
  \<open>stop_signal\<close> and \<open>return_code\<close>.
\<close>

definition stop_backing_process :: "(int \<times> int) action" where
  "stop_backing_process =
     bnd (send_signal SIGINT) (\<lambda>_.
     try_except
       (bnd (popen_wait (seconds WAIT_CHANNEL_READY_TIMEOUT_SECONDS)) (\<lambda>return_code.
        ret (SIGINT, return_code)))
       (\<lambda>e. e = TimeoutExpired)
       (\<lambda>_.
          bnd (get label) (\<lambda>l.
          bnd (emit (LogError (FailedToInterrupt l))) (\<lambda>_.
          bnd kill (\<lambda>_.
          try_except
            (bnd (popen_wait (seconds WAIT_CHANNEL_READY_TIMEOUT_SECONDS)) (\<lambda>return_code.
             ret (SIGKILL, return_code)))
            (\<lambda>e. e = TimeoutExpired)
            (\<lambda>_.
               bnd (emit (LogError FailedToKill)) (\<lambda>_.
               ret (SIGKILL, - 65536))))))))"

text \<open>
  The second \<open>try\<close> statement of teardown (lines 307 to 316). Its only handler is
  the one for \<open>concurrent.futures.TimeoutError\<close>: any other exception of
  \<open>result()\<close> leaves the statement, and teardown with it.
\<close>

definition join_logging_loop :: "unit action" where
  "join_logging_loop =
     try_except
       (bnd (future_result (seconds WAIT_CHANNEL_READY_TIMEOUT_SECONDS)) (\<lambda>result.
        case result of
          None \<Rightarrow> ret ()
        | Some r \<Rightarrow> if r = [] then ret () else emit (LogError (LoggingThreadError r))))
       (\<lambda>e. e = FutureTimeoutError)
       (\<lambda>_. emit (LogError LoggingThreadLate))"

definition GdDeviceBase_teardown :: "unit action" where
  "GdDeviceBase_teardown =
     bnd close_grpc_channel (\<lambda>_.
     bnd close_grpc_root_server_channel (\<lambda>_.
     bnd stop_backing_process (\<lambda>(stop_signal, return_code).
     bnd (if return_code \<notin> set [- stop_signal, 0]
          then bnd (get label) (\<lambda>l. emit (LogError (StoppedWithCode l return_code)))
          else ret ()) (\<lambda>_.
     bnd join_logging_loop (\<lambda>_.
     executor_shutdown)))))"

section \<open>GdDeviceBase.setup\<close>

text \<open>
  Modelled from the spec: \<open>cert.os_utils.make_ports_available\<close>, which is not among
  the sources. The spec's PortGate verifies that a set of local ports is free and fails
  if one is not; the ports that cannot be had are the world's \<open>busy_ports\<close>.
\<close>

definition make_ports_available :: "int list \<Rightarrow> bool action" where
  "make_ports_available ports =
     bnd (emit (MakePortsAvailable ports)) (\<lambda>_.
     ask (\<lambda>w. \<forall>p \<in> set ports. p \<notin> set (busy_ports w)))"

text \<open>
  Modelled from the spec: \<open>cert.os_utils.is_subprocess_alive\<close>, the liveness probe,
  which is not among the sources. Its answer is the world's. Replies run out: alive.
\<close>

definition is_subprocess_alive :: "bool action" where
  "is_subprocess_alive = take_reply alive_replies alive_replies_update True"

definition socket_bind :: "int \<Rightarrow> unit action" where
  "socket_bind port = emit (SocketBind port)"

definition socket_listen :: "nat \<Rightarrow> unit action" where
  "socket_listen backlog = emit (SocketListen backlog)"

text \<open>
  \<open>socket.accept()\<close> on a socket that has no timeout set: the call looks, tick after
  tick, whether a connection is pending, and returns at the first tick at which one is.
  \<open>arrival\<close> is the tick at which the worker connects, \<open>None\<close> if it never does.
  The function is partial: it has no value when no connection ever arrives.
\<close>

partial_function (option) accept_wait :: "nat option \<Rightarrow> nat \<Rightarrow> nat option" where
  "accept_wait arrival t =
     (if (case arrival of None \<Rightarrow> False | Some a \<Rightarrow> a \<le> t) then Some t
      else accept_wait arrival (Suc t))"

declare accept_wait.simps [code]

definition hang :: "('s, 'a) prog" where
  "hang s = (Hangs, s)"

text \<open>Replies run out: no connection ever arrives.\<close>

definition socket_accept :: "unit action" where
  "socket_accept =
     bnd (emit SocketAccept) (\<lambda>_.
     bnd (take_reply handshake_replies handshake_replies_update None) (\<lambda>arrival.
     case accept_wait arrival 0 of
       None \<Rightarrow> hang
     | Some t \<Rightarrow> advance t))"

text \<open>
  \<open>with socket.socket(...) as signal_socket: body\<close>: the socket is closed when the body
  is left, by its end or by an exception. A body that never returns never leaves.
\<close>

definition with_socket :: "'a action \<Rightarrow> 'a action" where
  "with_socket body s =
     (case body s of
        (Returns x, s') \<Rightarrow> bnd (emit SocketClose) (\<lambda>_. ret x) s'
      | (Raises e, s') \<Rightarrow> bnd (emit SocketClose) (\<lambda>_. raise e) s'
      | (Hangs, s') \<Rightarrow> (Hangs, s'))"

text \<open>\<open>subprocess.Popen(self.cmd, ...)\<close>, stored in \<open>self.backing_process\<close>.\<close>

definition popen_backing_process :: "unit action" where
  "popen_backing_process =
     bnd (get cmd) (\<lambda>c.
     bnd (emit (Popen c)) (\<lambda>_.
     set_self (\<lambda>d. d\<lparr>backing_process := Some \<lparr>args = c, returncode = None\<rparr>\<rparr>)))"

text \<open>The executor of one worker and the logging loop submitted to it.\<close>

definition submit_logging_loop :: "unit action" where
  "submit_logging_loop =
     bnd (set_self (\<lambda>d. d\<lparr>backing_process_logging_executor := Some ()\<rparr>)) (\<lambda>_.
     bnd (emit SubmitLoggingLoop) (\<lambda>_.
     set_self (\<lambda>d. d\<lparr>backing_process_logging_future := Some \<lparr>finished = False, raised = None\<rparr>\<rparr>)))"

text \<open>\<open>grpc.insecure_channel("localhost:%d" % port)\<close> for the two channels.\<close>

definition open_grpc_root_server_channel :: "unit action" where
  "open_grpc_root_server_channel =
     bnd (get grpc_root_server_port) (\<lambda>port.
     bnd (emit (InsecureChannel GrpcRootServerChannel port)) (\<lambda>_.
     set_self (\<lambda>d. d\<lparr>grpc_root_server_channel :=
                        Some \<lparr>target_port = port, closed = False\<rparr>\<rparr>)))"

definition open_grpc_channel :: "unit action" where
  "open_grpc_channel =
     bnd (get grpc_port) (\<lambda>port.
     bnd (emit (InsecureChannel GrpcChannel port)) (\<lambda>_.
     set_self (\<lambda>d. d\<lparr>grpc_channel := Some \<lparr>target_port = port, closed = False\<rparr>\<rparr>)))"

text \<open>
  The body of the \<open>with\<close> statement of setup (lines 208 to 230). A \<open>Popen\<close> object is
  true, so the first assertion after the spawn holds.
\<close>

definition start_backing_process :: "unit action" where
  "start_backing_process =
     bnd (get signal_port) (\<lambda>port.
     bnd (socket_bind port) (\<lambda>_.
     bnd (socket_listen 1) (\<lambda>_.
     bnd popen_backing_process (\<lambda>_.
     bnd (get cmd) (\<lambda>c.
     bnd (assert_true True (CannotStart c)) (\<lambda>_.
     bnd is_subprocess_alive (\<lambda>alive.
     bnd (assert_true alive (StoppedImmediately c)) (\<lambda>_.
     socket_accept))))))))"

text \<open>
  The stubs made from the two channels at the end of setup only wrap the channels and
  make no call; they are left out.
\<close>

definition GdDeviceBase_setup :: "unit action" where
  "GdDeviceBase_setup =
     bnd (get signal_port) (\<lambda>port.
     bnd (get label) (\<lambda>l.
     bnd (make_ports_available [port]) (\<lambda>ok.
     bnd (assert_true ok (SignalPortUnavailable l)) (\<lambda>_.
     bnd (with_socket start_backing_process) (\<lambda>_.
     bnd submit_logging_loop (\<lambda>_.
     bnd open_grpc_root_server_channel (\<lambda>_.
     open_grpc_channel)))))))"

section \<open>GdHostOnlyDevice.setup\<close>

definition GdHostOnlyDevice_setup :: "unit action" where
  "GdHostOnlyDevice_setup =
     bnd (get grpc_port) (\<lambda>gp.
     bnd (get grpc_root_server_port) (\<lambda>rp.
     bnd (get label) (\<lambda>l.
     bnd (make_ports_available [gp, rp]) (\<lambda>ok.
     bnd (assert_true ok (BackingPortsUnavailable l)) (\<lambda>_.
     GdDeviceBase_setup)))))"

section \<open>Calls on the adb proxy\<close>

text \<open>
  Each call on \<open>self.adb\<close> is recorded. A call whose result the source reads takes the
  world's next reply for its kind of call; a reply \<open>None\<close> or \<open>False\<close> to
  \<open>getprop\<close>, \<open>push\<close> or \<open>get_state\<close> stands for the call raising
  \<open>AdbError\<close>.
\<close>

text \<open>Replies run out: the device runs as root.\<close>

definition adb_ensure_root :: "bool action" where
  "adb_ensure_root =
     bnd (emit (Adb AdbEnsureRoot)) (\<lambda>_.
     take_reply ensure_root_replies ensure_root_replies_update True)"

text \<open>Replies run out: the property is empty.\<close>

definition adb_getprop :: "string \<Rightarrow> string action" where
  "adb_getprop prop =
     bnd (emit (Adb (AdbGetprop prop))) (\<lambda>_.
     bnd (take_reply getprop_replies getprop_replies_update (Some [])) (\<lambda>r.
     case r of None \<Rightarrow> raise AdbError | Some v \<Rightarrow> ret v))"

text \<open>Replies run out: the device is not found.\<close>

definition adb_get_state :: "unit action" where
  "adb_get_state =
     bnd (emit (Adb AdbGetState)) (\<lambda>_.
     bnd (take_reply get_state_replies get_state_replies_update False) (\<lambda>found.
     if found then ret () else raise AdbError))"

text \<open>Replies run out: the command prints nothing.\<close>

definition adb_shell :: "string \<Rightarrow> string action" where
  "adb_shell command =
     bnd (emit (Adb (AdbShell command))) (\<lambda>_.
     take_reply shell_replies shell_replies_update [])"

text \<open>\<open>self.adb.reverse("tcp:%d tcp:%d" % (device_port, host_port))\<close>. Replies run
  out: adb prints nothing.\<close>

definition adb_reverse :: "int \<Rightarrow> int \<Rightarrow> string action" where
  "adb_reverse device_port host_port =
     bnd (emit (Adb (AdbReverse device_port host_port))) (\<lambda>_.
     take_reply reverse_replies reverse_replies_update [])"

text \<open>Replies run out: the answer is the port 0.\<close>

definition adb_tcp_forward :: "int \<Rightarrow> int \<Rightarrow> port_or_error action" where
  "adb_tcp_forward host_port device_port =
     bnd (emit (Adb (AdbTcpForward host_port device_port))) (\<lambda>_.
     take_reply forward_replies forward_replies_update (PInt 0))"

text \<open>Replies run out: adb prints nothing.\<close>

definition adb_push :: "string \<Rightarrow> string \<Rightarrow> nat \<Rightarrow> string action" where
  "adb_push src dst timeout =
     bnd (emit (Adb (AdbPush src dst timeout))) (\<lambda>_.
     bnd (take_reply push_replies push_replies_update (Some [])) (\<lambda>r.
     case r of None \<Rightarrow> raise AdbError | Some out \<Rightarrow> ret out))"

text \<open>\<open>time.time()\<close> and \<open>time.sleep\<close>, in ticks.\<close>

definition time_time :: "nat action" where
  "time_time = ask now"

definition sleep :: "nat \<Rightarrow> unit action" where
  "sleep n = bnd (emit (Sleep n)) (\<lambda>_. advance n)"

definition minutes :: "int \<Rightarrow> int" where
  "minutes n = 600 * n"

section \<open>GdAndroidDevice: reboot and boot completion\<close>

definition WAIT_FOR_DEVICE_TIMEOUT_SECONDS :: nat where
  "WAIT_FOR_DEVICE_TIMEOUT_SECONDS = 180"

text \<open>
  The body of the \<open>try\<close> in the loop of \<open>wait_for_boot_completion\<close>: whether the
  property reads \<open>'1'\<close>; an \<open>AdbError\<close> is ignored.
\<close>

definition boot_completed :: "bool action" where
  "boot_completed =
     try_except
       (bnd (adb_getprop ''sys.boot_completed'') (\<lambda>completed. ret (completed = ''1'')))
       (\<lambda>e. e = AdbError)
       (\<lambda>_. ret False)"

text \<open>
  The \<open>while\<close> loop of \<open>wait_for_boot_completion\<close>, up to the tick \<open>deadline\<close>
  (\<open>timeout_start + timeout\<close>). \<open>True\<close>: left by \<open>return\<close>; \<open>False\<close>: the condition
  of the loop failed.
\<close>

function boot_completion_loop :: "int \<Rightarrow> device \<times> world \<Rightarrow> bool outcome \<times> device \<times> world" where
  "boot_completion_loop deadline (d, w) =
     (if int (now w) < deadline then
        (case boot_completed (d, w) of
           (Returns fin, s1) \<Rightarrow>
             if fin then (Returns True, s1)
             else (case sleep (seconds 5) s1 of
                     (Returns _, (d2, w2)) \<Rightarrow> boot_completion_loop deadline (d2, w2)
                   | (Raises e, s2) \<Rightarrow> (Raises e, s2)
                   | (Hangs, s2) \<Rightarrow> (Hangs, s2))
         | (Raises e, s1) \<Rightarrow> (Raises e, s1)
         | (Hangs, s1) \<Rightarrow> (Hangs, s1))
      else (Returns False, (d, w)))"
  by pat_completeness auto
termination
  apply (relation "measure (\<lambda>(deadline, (d, w)). nat (deadline - int (now w)))")
   apply simp
  apply (auto simp: boot_completed_def adb_getprop_def try_except_def bnd_def emit_def
        take_reply_def ret_def raise_def sleep_def advance_def seconds_def
      split: option.splits list.splits if_splits)
  done

definition wait_for_boot_completion :: "int \<Rightarrow> unit action" where
  "wait_for_boot_completion timeout =
     bnd time_time (\<lambda>timeout_start.
     bnd (emit (Adb (AdbWaitForDevice WAIT_FOR_DEVICE_TIMEOUT_SECONDS))) (\<lambda>_.
     bnd (boot_completion_loop (int timeout_start + timeout)) (\<lambda>returned.
     if returned then ret ()
     else bnd (attr serial_number ''serial_number'') (\<lambda>sn.
          raise (TestFailure (BootTimedOut sn))))))"

text \<open>
  The \<open>while\<close> loop of \<open>reboot\<close>: it ends when \<open>get_state\<close> raises \<open>AdbError\<close>
  (the device has gone) or at the deadline.
\<close>

function reboot_wait_loop :: "int \<Rightarrow> device \<times> world \<Rightarrow> unit outcome \<times> device \<times> world" where
  "reboot_wait_loop deadline (d, w) =
     (if int (now w) < deadline then
        (case adb_get_state (d, w) of
           (Returns _, s1) \<Rightarrow>
             (case sleep 1 s1 of
                (Returns _, (d2, w2)) \<Rightarrow> reboot_wait_loop deadline (d2, w2)
              | (Raises e, s2) \<Rightarrow> (Raises e, s2)
              | (Hangs, s2) \<Rightarrow> (Hangs, s2))
         | (Raises e, s1) \<Rightarrow> if e = AdbError then (Returns (), s1) else (Raises e, s1)
         | (Hangs, s1) \<Rightarrow> (Hangs, s1))
      else (Returns (), (d, w)))"
  by pat_completeness auto
termination
  apply (relation "measure (\<lambda>(deadline, (d, w)). nat (deadline - int (now w)))")
   apply simp
  apply (auto simp: adb_get_state_def bnd_def emit_def
        take_reply_def ret_def raise_def sleep_def advance_def
      split: option.splits list.splits if_splits)
  done

text \<open>
  \<open>reboot(timeout_minutes)\<close>, the timeout in ticks. What is left of the timeout after
  the first loop is the timeout of the wait for the boot completion.
\<close>

definition reboot :: "int \<Rightarrow> unit action" where
  "reboot timeout =
     bnd (emit (Adb AdbReboot)) (\<lambda>_.
     bnd time_time (\<lambda>timeout_start.
     bnd (reboot_wait_loop (int timeout_start + timeout)) (\<lambda>_.
     bnd time_time (\<lambda>t.
     wait_for_boot_completion (timeout - (int t - int timeout_start))))))"

section \<open>Strings as Python reads them\<close>

definition is_space :: "char \<Rightarrow> bool" where
  "is_space c = (c \<in> set [CHR '' '', CHR 0x09, CHR 0x0A, CHR 0x0B, CHR 0x0C, CHR 0x0D])"

text \<open>\<open>str.strip()\<close>, for ASCII white space.\<close>

definition strip :: "string \<Rightarrow> string" where
  "strip s = rev (dropWhile is_space (rev (dropWhile is_space s)))"

definition is_digit :: "char \<Rightarrow> bool" where
  "is_digit c = (c \<in> set ''0123456789'')"

definition digit_val :: "char \<Rightarrow> nat" where
  "digit_val c = of_char c - 48"

text \<open>Decimal digits, single underscores allowed between two digits.\<close>

fun parse_digits :: "string \<Rightarrow> nat \<Rightarrow> nat option" where
  "parse_digits [] acc = None"
| "parse_digits [c] acc = (if is_digit c then Some (10 * acc + digit_val c) else None)"
| "parse_digits (c # c' # cs) acc =
     (if \<not> is_digit c then None
      else if c' = CHR ''_'' then parse_digits cs (10 * acc + digit_val c)
      else parse_digits (c' # cs) (10 * acc + digit_val c))"

text \<open>
  \<open>int(s)\<close> for a string, in base 10 and for ASCII: white space around, an optional
  sign, digits. \<open>None\<close> stands for \<open>ValueError\<close>.
\<close>

definition py_int :: "string \<Rightarrow> int option" where
  "py_int s =
     (case strip s of
        [] \<Rightarrow> None
      | c # cs \<Rightarrow>
          if c = CHR ''-'' then map_option (\<lambda>n. - int n) (parse_digits cs 0)
          else if c = CHR ''+'' then map_option int (parse_digits cs 0)
          else map_option int (parse_digits (c # cs) 0))"

fun starts_with :: "string \<Rightarrow> string \<Rightarrow> bool" where
  "starts_with [] s = True"
| "starts_with (p # ps) [] = False"
| "starts_with (p # ps) (c # cs) = (p = c \<and> starts_with ps cs)"

text \<open>\<open>sub in s\<close>.\<close>

fun contains :: "string \<Rightarrow> string \<Rightarrow> bool" where
  "contains sub [] = (sub = [])"
| "contains sub (c # cs) = (starts_with sub (c # cs) \<or> contains sub cs)"

section \<open>GdAndroidDevice: bringing the device up\<close>

definition ensure_verity_disabled :: "unit action" where
  "ensure_verity_disabled =
     bnd (attr serial_number ''serial_number'') (\<lambda>sn.
     bnd adb_ensure_root (\<lambda>root.
     bnd (assert_true root (CannotRunAsRoot sn)) (\<lambda>_.
     bnd (adb_getprop ''partition.system.verified'') (\<lambda>system_verity.
     bnd (adb_getprop ''partition.vendor.verified'') (\<lambda>vendor_verity.
     bnd (if system_verity \<noteq> [] \<or> vendor_verity \<noteq> []
          then bnd (emit (Adb AdbDisableVerity)) (\<lambda>_. reboot (minutes 15))
          else ret ()) (\<lambda>_.
     bnd (emit (Adb AdbRemount)) (\<lambda>_.
     emit (Adb (AdbWaitForDevice WAIT_FOR_DEVICE_TIMEOUT_SECONDS)))))))))"

text \<open>\<open>ensure_no_output(result)\<close>.\<close>

definition ensure_no_output :: "string \<Rightarrow> unit action" where
  "ensure_no_output result = assert_true (length result = 0) (CommandReturnedSomething result)"

text \<open>\<open>except Exception\<close> catches every exception of the model.\<close>

definition push_or_die :: "string \<Rightarrow> string \<Rightarrow> nat \<Rightarrow> unit action" where
  "push_or_die src_file_path dst_file_path push_timeout =
     try_except
       (bnd adb_ensure_root (\<lambda>_.
        bnd ensure_verity_disabled (\<lambda>_.
        bnd (adb_push src_file_path dst_file_path push_timeout) (\<lambda>out.
        if contains ''error'' out
        then raise (TestFailure (UnableToPush src_file_path dst_file_path))
        else ret ()))))
       (\<lambda>e. True)
       (\<lambda>e. raise (TestFailure (UnableToPush src_file_path dst_file_path)))"

text \<open>\<open>not error_or_port\<close>.\<close>

fun falsy_port :: "port_or_error \<Rightarrow> bool" where
  "falsy_port (PInt n) = (n = 0)"
| "falsy_port (PStr e) = (e = [])"

text \<open>
  \<open>tcp_forward_or_die(host_port, device_port, num_retry)\<close>. The number of retries is
  a natural number; the source only ever passes its default, 1.
\<close>

fun tcp_forward_or_die :: "int \<Rightarrow> int \<Rightarrow> nat \<Rightarrow> int action" where
  "tcp_forward_or_die host_port device_port num_retry =
     bnd (adb_tcp_forward host_port device_port) (\<lambda>error_or_port.
     if falsy_port error_or_port then ret host_port
     else case error_or_port of
       PStr err \<Rightarrow>
         (case num_retry of
            Suc n \<Rightarrow>
              bnd (get label) (\<lambda>l.
              bnd (emit (LogWarning (ForwardRetry l host_port device_port n))) (\<lambda>_.
              bnd (reboot (minutes 15)) (\<lambda>_.
              tcp_forward_or_die host_port device_port n)))
          | 0 \<Rightarrow> raise (TestFailure (UnableToForward host_port device_port)))
     | PInt port \<Rightarrow> ret port)"

fun tcp_reverse_or_die :: "int \<Rightarrow> int \<Rightarrow> nat \<Rightarrow> int action" where
  "tcp_reverse_or_die device_port host_port num_retry =
     bnd (adb_reverse device_port host_port) (\<lambda>error_or_port.
     if error_or_port = [] then ret device_port
     else case py_int error_or_port of
       Some port \<Rightarrow> ret port
     | None \<Rightarrow>
         (case num_retry of
            Suc n \<Rightarrow>
              bnd (get label) (\<lambda>l.
              bnd (emit (LogWarning (ReverseRetry l device_port host_port n))) (\<lambda>_.
              bnd (reboot (minutes 15)) (\<lambda>_.
              tcp_reverse_or_die device_port host_port n)))
          | 0 \<Rightarrow> raise (TestFailure (UnableToReverse device_port host_port))))"

text \<open>\<open>os.path.join\<close> of two paths.\<close>

definition path_join :: "string \<Rightarrow> string \<Rightarrow> string" where
  "path_join a b =
     (if starts_with ''/'' b then b
      else if a = [] \<or> last a = CHR ''/'' then a @ b
      else a @ ''/'' @ b)"

definition gd_root_path :: "string \<Rightarrow> string action" where
  "gd_root_path file = ask (\<lambda>w. path_join (path_join (gd_root w) ''target'') file)"

text \<open>
  What setup of the device-hosted variant does before it calls the setup of the base
  class (lines 469 to 496).
\<close>

definition android_bringup :: "unit action" where
  "android_bringup =
     bnd ensure_verity_disabled (\<lambda>_.
     bnd (attr serial_number ''serial_number'') (\<lambda>sn.
     bnd adb_ensure_root (\<lambda>root.
     bnd (assert_true root (CannotRunAsRootAfterVerity sn)) (\<lambda>_.
     bnd (adb_shell ''date'') (\<lambda>_.
     bnd (get grpc_port) (\<lambda>gp.
     bnd (get grpc_root_server_port) (\<lambda>rp.
     bnd (get signal_port) (\<lambda>sp.
     bnd (emit (Adb (AdbRemoveTcpForward gp))) (\<lambda>_.
     bnd (emit (Adb (AdbRemoveTcpForward rp))) (\<lambda>_.
     bnd (emit (Adb (AdbReverseRemove sp))) (\<lambda>_.
     bnd (tcp_forward_or_die gp gp 1) (\<lambda>_.
     bnd (tcp_forward_or_die rp rp 1) (\<lambda>_.
     bnd (tcp_reverse_or_die sp sp 1) (\<lambda>_.
     bnd (gd_root_path ''bluetooth_stack_with_facade'') (\<lambda>f1.
     bnd (push_or_die f1 ''system/bin'' 300) (\<lambda>_.
     bnd (gd_root_path ''libbluetooth_gd.so'') (\<lambda>f2.
     bnd (push_or_die f2 ''system/lib64'' 300) (\<lambda>_.
     bnd (gd_root_path ''libgrpc++_unsecure.so'') (\<lambda>f3.
     bnd (push_or_die f3 ''system/lib64'' 300) (\<lambda>_.
     bnd (adb_shell ''logcat -c'') (\<lambda>out.
     bnd (ensure_no_output out) (\<lambda>_.
     bnd (adb_shell ''rm /data/misc/bluetooth/logs/btsnoop_hci.log'') (\<lambda>_.
     bnd (adb_shell ''svc bluetooth disable'') (\<lambda>out.
     ensure_no_output out))))))))))))))))))))))))"

definition GdAndroidDevice_setup :: "unit action" where
  "GdAndroidDevice_setup = bnd android_bringup (\<lambda>_. GdDeviceBase_setup)"

text \<open>
  The first statements of that setup, up to the port mappings (lines 469 to 477): the
  part of \<open>android_bringup\<close> that comes before its first call of
  \<open>tcp_forward_or_die\<close>.
\<close>

definition android_prepare :: "unit action" where
  "android_prepare =
     bnd ensure_verity_disabled (\<lambda>_.
     bnd (attr serial_number ''serial_number'') (\<lambda>sn.
     bnd adb_ensure_root (\<lambda>root.
     bnd (assert_true root (CannotRunAsRootAfterVerity sn)) (\<lambda>_.
     bnd (adb_shell ''date'') (\<lambda>_.
     bnd (get grpc_port) (\<lambda>gp.
     bnd (get grpc_root_server_port) (\<lambda>rp.
     bnd (get signal_port) (\<lambda>sp.
     bnd (emit (Adb (AdbRemoveTcpForward gp))) (\<lambda>_.
     bnd (emit (Adb (AdbRemoveTcpForward rp))) (\<lambda>_.
     emit (Adb (AdbReverseRemove sp))))))))))))"

section \<open>The logging loop\<close>

text \<open>
  The log file as \<open>open(path, 'w')\<close> gives it: a text file that is not a terminal is
  block buffered. \<open>on_disk\<close> is what the file holds; \<open>pending\<close> is what has been
  written to the file object and sits in its buffer. Opening with mode \<open>'w'\<close> empties
  the file. A write goes to the buffer, and the buffer is written out when it holds
  more than \<open>DEFAULT_BUFFER_SIZE\<close> characters; closing the file writes the buffer out.
\<close>

record log_file =
  on_disk :: string
  pending :: string

definition DEFAULT_BUFFER_SIZE :: nat where
  "DEFAULT_BUFFER_SIZE = 8192"

definition open_w :: log_file where
  "open_w = \<lparr>on_disk = [], pending = []\<rparr>"

definition file_write :: "string \<Rightarrow> log_file \<Rightarrow> log_file" where
  "file_write s f =
     (let p = pending f @ s
      in if length p > DEFAULT_BUFFER_SIZE
         then f\<lparr>on_disk := on_disk f @ p, pending := []\<rparr>
         else f\<lparr>pending := p\<rparr>)"

definition file_close :: "log_file \<Rightarrow> log_file" where
  "file_close f = f\<lparr>on_disk := on_disk f @ pending f, pending := []\<rparr>"

text \<open>
  A line printed to the terminal: \<open>"[%s%s%s] %s" % (color, label, END, line.strip())\<close>,
  kept as the colour, the label and the stripped line.
\<close>

type_synonym console = "(terminal_color \<times> string \<times> string) list"

text \<open>The body of the \<open>for\<close> loop, for one line of the worker's output.\<close>

definition logging_step :: "device \<Rightarrow> string \<Rightarrow> log_file \<times> console \<Rightarrow> log_file \<times> console" where
  "logging_step self line st =
     (case st of (backing_process_log, out) \<Rightarrow>
        (file_write line backing_process_log,
         if verbose_mode self then out @ [(terminal_color self, label self, strip line)]
         else out))"

text \<open>The state of the loop after it has read the given lines.\<close>

fun logging_lines :: "device \<Rightarrow> string list \<Rightarrow> log_file \<times> console \<Rightarrow> log_file \<times> console" where
  "logging_lines self [] st = st"
| "logging_lines self (line # lines) st = logging_lines self lines (logging_step self line st)"

text \<open>
  \<open>__backing_process_logging_loop\<close> on a worker that writes \<open>lines\<close> and then closes
  its output: the file is opened, the lines are read and written, the file is closed.
\<close>

definition backing_process_logging_loop :: "device \<Rightarrow> string list \<Rightarrow> log_file \<times> console" where
  "backing_process_logging_loop self lines =
     (case logging_lines self lines (open_w, []) of
        (backing_process_log, out) \<Rightarrow> (file_close backing_process_log, out))"

section \<open>Configurations and constructors\<close>

text \<open>The values a configuration is made of.\<close>

datatype pyval =
    PyNone
  | PyBool bool
  | PyInt int
  | PyStr string
  | PyList "pyval list"
  | PyDict "(string \<times> pyval) list"

text \<open>\<open>bool(v)\<close>, which is what \<open>not v\<close> and \<open>if v\<close> test.\<close>

fun truthy :: "pyval \<Rightarrow> bool" where
  "truthy PyNone = False"
| "truthy (PyBool b) = b"
| "truthy (PyInt n) = (n \<noteq> 0)"
| "truthy (PyStr s) = (s \<noteq> [])"
| "truthy (PyList xs) = (xs \<noteq> [])"
| "truthy (PyDict kvs) = (kvs \<noteq> [])"

text \<open>\<open>isinstance(v, list)\<close>.\<close>

fun is_list :: "pyval \<Rightarrow> bool" where
  "is_list (PyList xs) = True"
| "is_list v = False"

text \<open>What \<open>for x in v\<close> runs through.\<close>

fun py_iter :: "pyval \<Rightarrow> (world, pyval list) prog" where
  "py_iter (PyList xs) = ret xs"
| "py_iter (PyStr s) = ret (map (\<lambda>c. PyStr [c]) s)"
| "py_iter (PyDict kvs) = ret (map (\<lambda>kv. PyStr (fst kv)) kvs)"
| "py_iter v = raise TypeError"

text \<open>\<open>config[key]\<close> and \<open>config.get(key, default)\<close>.\<close>

fun subscript :: "pyval \<Rightarrow> string \<Rightarrow> (world, pyval) prog" where
  "subscript (PyDict kvs) key =
     (case map_of kvs key of None \<Rightarrow> raise (KeyError key) | Some v \<Rightarrow> ret v)"
| "subscript v key = raise TypeError"

fun dict_get :: "pyval \<Rightarrow> string \<Rightarrow> pyval \<Rightarrow> (world, pyval) prog" where
  "dict_get (PyDict kvs) key dflt =
     ret (case map_of kvs key of None \<Rightarrow> dflt | Some v \<Rightarrow> v)"
| "dict_get v key dflt = raise (AttributeError ''get'')"

text \<open>An argument that has to be a string where it is used.\<close>

fun need_str :: "pyval \<Rightarrow> (world, string) prog" where
  "need_str (PyStr s) = ret s"
| "need_str v = raise TypeError"

text \<open>\<open>int(v)\<close>.\<close>

fun py_int_of :: "pyval \<Rightarrow> (world, int) prog" where
  "py_int_of (PyStr s) = (case py_int s of None \<Rightarrow> raise ValueError | Some n \<Rightarrow> ret n)"
| "py_int_of (PyInt n) = ret n"
| "py_int_of (PyBool b) = ret (if b then 1 else 0)"
| "py_int_of v = raise TypeError"

text \<open>\<open>s.replace(old, new)\<close> for a pattern \<open>old\<close> that is not empty.\<close>

function str_replace :: "string \<Rightarrow> string \<Rightarrow> string \<Rightarrow> string" where
  "str_replace old new [] = []"
| "str_replace old new (c # cs) =
     (if old \<noteq> [] \<and> starts_with old (c # cs)
      then new @ str_replace old new (drop (length old) (c # cs))
      else c # str_replace old new cs)"
  by pat_completeness auto
termination
  by (relation "measure (\<lambda>(old, new, s). length s)") (auto simp: neq_Nil_conv)

text \<open>\<open>sep.join(xs)\<close>.\<close>

fun join_with :: "string \<Rightarrow> string list \<Rightarrow> string" where
  "join_with sep [] = []"
| "join_with sep [x] = x"
| "join_with sep (x # y # ys) = x @ sep @ join_with sep (y # ys)"

definition ACTS_CONTROLLER_CONFIG_NAME :: string where
  "ACTS_CONTROLLER_CONFIG_NAME = ''GdDevice''"

text \<open>\<open>cert.os_utils.get_gd_root()\<close> is not among the sources; its value is the
  world's.\<close>

definition get_gd_root :: "(world, string) prog" where
  "get_gd_root w = (Returns (gd_root w), w)"

definition none_to_empty :: "pyval \<Rightarrow> pyval" where
  "none_to_empty v = (if v = PyNone then PyStr [] else v)"

definition replace_vars :: "pyval \<Rightarrow> pyval \<Rightarrow> (world, string) prog" where
  "replace_vars string config =
     bnd (dict_get config ''serial_number'' PyNone) (\<lambda>sn.
     bnd (dict_get config ''rootcanal_port'' PyNone) (\<lambda>rc.
     if none_to_empty sn = PyStr ''DUT'' \<or> none_to_empty sn = PyStr ''CERT''
     then raise (PyException ''Did you forget to configure the serial number?'')
     else
       bnd (case string of PyStr s \<Rightarrow> ret s | _ \<Rightarrow> raise (AttributeError ''replace'')) (\<lambda>s0.
       bnd get_gd_root (\<lambda>root.
       bnd (dict_get config ''grpc_port'' PyNone) (\<lambda>v1.
       bnd (need_str v1) (\<lambda>grpc_port.
       bnd (dict_get config ''grpc_root_server_port'' PyNone) (\<lambda>v2.
       bnd (need_str v2) (\<lambda>grpc_root_server_port.
       bnd (need_str (none_to_empty rc)) (\<lambda>rootcanal_port.
       bnd (dict_get config ''signal_port'' PyNone) (\<lambda>v3.
       bnd (need_str v3) (\<lambda>signal_port.
       bnd (need_str (none_to_empty sn)) (\<lambda>serial_number.
       ret (str_replace ''$(serial_number)'' serial_number
             (str_replace ''$(signal_port)'' signal_port
               (str_replace ''$(rootcanal_port)'' rootcanal_port
                 (str_replace ''$(grpc_root_server_port)'' grpc_root_server_port
                   (str_replace ''$(grpc_port)'' grpc_port
                     (str_replace ''$GD_ROOT'' root s0))))))))))))))))))"

text \<open>
  \<open>GdDeviceBase.__init__\<close>. The label, the type identifier and the name are strings
  in every configuration of the harness; the model reports another type as
  \<open>TypeError\<close>.
\<close>

definition GdDeviceBase_init ::
  "pyval \<Rightarrow> pyval \<Rightarrow> pyval \<Rightarrow> string list \<Rightarrow> pyval \<Rightarrow> pyval \<Rightarrow> pyval \<Rightarrow> bool \<Rightarrow>
   (world, device) prog" where
  "GdDeviceBase_init grpc_port' grpc_root_server_port' signal_port' cmd' label'
     type_identifier' name' verbose_mode' =
     bnd (assert_true
            (list_all truthy [grpc_port', grpc_root_server_port', signal_port',
               PyList (map PyStr cmd'), label', type_identifier', name']) ArgumentsEmpty) (\<lambda>_.
     bnd (assert_true (list_all (\<lambda>c. c \<noteq> []) cmd') CmdComponentEmpty) (\<lambda>_.
     bnd (py_int_of grpc_root_server_port') (\<lambda>rp.
     bnd (py_int_of grpc_port') (\<lambda>gp.
     bnd (py_int_of signal_port') (\<lambda>sp.
     bnd (need_str name') (\<lambda>nm.
     bnd (need_str type_identifier') (\<lambda>ti.
     bnd (need_str label') (\<lambda>lb.
     (\<lambda>w.
        (Returns
           \<lparr>verbose_mode = verbose_mode', grpc_root_server_port = rp, grpc_port = gp,
            signal_port = sp, name = nm, type_identifier = ti, label = lb,
            log_path_base = full_output_path w,
            test_runner_base_path = base_output_path w,
            backing_process_log_path =
              path_join (full_output_path w) (ti @ ''_'' @ lb @ ''_backing_logs.txt''),
            cmd = (if \<not> contains ''--btsnoop='' (join_with '' '' cmd')
                   then cmd' @ [''--btsnoop='' @
                          path_join (full_output_path w) (lb @ ''_btsnoop_hci.log'')]
                   else cmd'),
            environment = os_environ w,
            terminal_color = (if contains ''cert'' lb then BLUE else YELLOW),
            backing_process_profraw_path = None, serial_number = None,
            backing_process = None, backing_process_logging_executor = None,
            backing_process_logging_future = None, grpc_root_server_channel = None,
            grpc_channel = None\<rparr>, w))))))))))"

definition GdHostOnlyDevice_init ::
  "pyval \<Rightarrow> pyval \<Rightarrow> pyval \<Rightarrow> string list \<Rightarrow> pyval \<Rightarrow> pyval \<Rightarrow> pyval \<Rightarrow> bool \<Rightarrow>
   (world, device) prog" where
  "GdHostOnlyDevice_init grpc_port' grpc_root_server_port' signal_port' cmd' label'
     type_identifier' name' verbose_mode' =
     bnd (GdDeviceBase_init grpc_port' grpc_root_server_port' signal_port' cmd' label'
            (PyStr ACTS_CONTROLLER_CONFIG_NAME) name' verbose_mode') (\<lambda>self.
     let profraw = path_join (log_path_base self)
                     (type_identifier self @ ''_'' @ label self @ ''_backing_coverage.profraw'')
     in ret (self\<lparr>backing_process_profraw_path := Some profraw,
                   environment := (''LLVM_PROFILE_FILE'', profraw) #
                     filter (\<lambda>kv. fst kv \<noteq> ''LLVM_PROFILE_FILE'') (environment self)\<rparr>))"

definition GdAndroidDevice_init ::
  "pyval \<Rightarrow> pyval \<Rightarrow> pyval \<Rightarrow> string list \<Rightarrow> pyval \<Rightarrow> pyval \<Rightarrow> pyval \<Rightarrow> pyval \<Rightarrow> bool \<Rightarrow>
   (world, device) prog" where
  "GdAndroidDevice_init grpc_port' grpc_root_server_port' signal_port' cmd' label'
     type_identifier' name' serial verbose_mode' =
     bnd (GdDeviceBase_init grpc_port' grpc_root_server_port' signal_port' cmd' label'
            type_identifier' name' verbose_mode') (\<lambda>self.
     bnd (assert_true (truthy serial) SerialNumberEmpty) (\<lambda>_.
     bnd (need_str serial) (\<lambda>sn.
     ret (self\<lparr>serial_number := Some sn\<rparr>))))"

text \<open>A call of a method of a device, seen from the caller that holds the device.\<close>

definition call_on :: "unit action \<Rightarrow> device \<Rightarrow> (world, device) prog" where
  "call_on m self w =
     (case m (self, w) of
        (Returns _, (self', w')) \<Rightarrow> (Returns self', w')
      | (Raises e, (self', w')) \<Rightarrow> (Raises e, w')
      | (Hangs, (self', w')) \<Rightarrow> (Hangs, w'))"

section \<open>create and get_instances_with_configs\<close>

fun resolve_cmd :: "pyval list \<Rightarrow> pyval \<Rightarrow> (world, string list) prog" where
  "resolve_cmd [] config = ret []"
| "resolve_cmd (arg # rest) config =
     bnd (replace_vars arg config) (\<lambda>r.
     bnd (resolve_cmd rest config) (\<lambda>rs.
     ret (r # rs)))"

text \<open>The body of the loop of \<open>get_instances_with_configs\<close>, for one configuration.\<close>

definition instance_of_config :: "pyval \<Rightarrow> (world, device) prog" where
  "instance_of_config config =
     bnd (subscript config ''cmd'') (\<lambda>cmd_value.
     bnd (py_iter cmd_value) (\<lambda>cmd_args.
     bnd (resolve_cmd cmd_args config) (\<lambda>resolved_cmd.
     bnd (dict_get config ''verbose_mode'' (PyBool False)) (\<lambda>vm.
     bnd (dict_get config ''serial_number'' PyNone) (\<lambda>has_serial.
     bnd (subscript config ''grpc_port'') (\<lambda>gp.
     bnd (subscript config ''grpc_root_server_port'') (\<lambda>rp.
     bnd (subscript config ''signal_port'') (\<lambda>sp.
     bnd (subscript config ''label'') (\<lambda>lb.
     bnd (subscript config ''name'') (\<lambda>nm.
     if truthy has_serial
     then bnd (subscript config ''serial_number'') (\<lambda>sn.
          bnd (GdAndroidDevice_init gp rp sp resolved_cmd lb
                 (PyStr ACTS_CONTROLLER_CONFIG_NAME) nm sn (truthy vm)) (\<lambda>device.
          call_on GdAndroidDevice_setup device))
     else bnd (GdHostOnlyDevice_init gp rp sp resolved_cmd lb
                 (PyStr ACTS_CONTROLLER_CONFIG_NAME) nm (truthy vm)) (\<lambda>device.
          call_on GdHostOnlyDevice_setup device)))))))))))"

fun instances_loop :: "pyval list \<Rightarrow> device list \<Rightarrow> (world, device list) prog" where
  "instances_loop [] devices = ret devices"
| "instances_loop (config # configs) devices =
     bnd (instance_of_config config) (\<lambda>device.
     instances_loop configs (devices @ [device]))"

definition get_instances_with_configs :: "pyval \<Rightarrow> (world, device list) prog" where
  "get_instances_with_configs configs =
     bnd (py_iter configs) (\<lambda>cs. instances_loop cs [])"

definition create :: "pyval \<Rightarrow> (world, device list) prog" where
  "create configs =
     (if \<not> truthy configs then raise (PyException ''Configuration is empty'')
      else if \<not> is_list configs then raise (PyException ''Configuration should be a list'')
      else get_instances_with_configs configs)"

section \<open>What the teardown steps are to do\<close>

text \<open>
  The outcome of one bounded wait for the worker's exit, read off the process object
  and the world's next reply: the return code, or \<open>None\<close> when the wait runs into its
  timeout.
\<close>

definition wait_would_return :: "popen \<Rightarrow> wait_reply list \<Rightarrow> nat \<Rightarrow> int option" where
  "wait_would_return p rs timeout =
     (case returncode p of
        Some rc \<Rightarrow> Some rc
      | None \<Rightarrow>
          (case rs of
             ProcExits t rc # _ \<Rightarrow> if t \<le> timeout then Some rc else None
           | _ \<Rightarrow> None))"

text \<open>
  Whether the logging loop has ended by the end of one bounded join, normally or by
  an exception, read off the future and the world's next reply; and the exception
  that ended it, which the join raises again.
\<close>

definition join_would_end :: "future \<Rightarrow> join_reply list \<Rightarrow> nat \<Rightarrow> bool" where
  "join_would_end f js timeout =
     (finished f \<or>
      (case js of
         LoopEnds t # _ \<Rightarrow> t \<le> timeout
       | LoopRaises t e # _ \<Rightarrow> t \<le> timeout
       | _ \<Rightarrow> False))"

definition join_would_raise :: "future \<Rightarrow> join_reply list \<Rightarrow> nat \<Rightarrow> exn option" where
  "join_would_raise f js timeout =
     (if finished f then raised f
      else (case js of
              LoopRaises t e # _ \<Rightarrow> if t \<le> timeout then Some e else None
            | _ \<Rightarrow> None))"

text \<open>
  The escalation in the spec's words: send the interrupt signal and wait up to 10 s; if
  the process has not exited, send the kill signal and wait up to 10 s again; if it
  still has not exited, record that the kill failed.
\<close>

definition escalation_spec :: "string \<Rightarrow> popen \<Rightarrow> wait_reply list \<Rightarrow> event list" where
  "escalation_spec l p rs =
     [SendSignal SIGINT, ProcWait (seconds 10)] @
     (case wait_would_return p rs (seconds 10) of
        Some _ \<Rightarrow> []
      | None \<Rightarrow>
          [LogError (FailedToInterrupt l), ProcKill, ProcWait (seconds 10)] @
          (case wait_would_return p (tl rs) (seconds 10) of
             Some _ \<Rightarrow> []
           | None \<Rightarrow> [LogError FailedToKill]))"

text \<open>The signal sent last and the exit status observed, or the sentinel.\<close>

definition stop_result_spec :: "popen \<Rightarrow> wait_reply list \<Rightarrow> int \<times> int" where
  "stop_result_spec p rs =
     (case wait_would_return p rs (seconds 10) of
        Some rc \<Rightarrow> (SIGINT, rc)
      | None \<Rightarrow>
          (case wait_would_return p (tl rs) (seconds 10) of
             Some rc \<Rightarrow> (SIGKILL, rc)
           | None \<Rightarrow> (SIGKILL, - 65536)))"

text \<open>
  The two accepted exit statuses: terminated by the signal sent last, or exit code 0.
  Anything else is logged as an error.
\<close>

definition anomalous_spec :: "string \<Rightarrow> int \<times> int \<Rightarrow> event list" where
  "anomalous_spec l sr =
     (if snd sr = - fst sr \<or> snd sr = 0 then []
      else [LogError (StoppedWithCode l (snd sr))])"

text \<open>
  What the join records, and how it ends: the timeout of the futures module is
  caught and logged, whether the join ran into it or the loop itself had raised it;
  any other exception that ended the loop is raised out of the join.
\<close>

definition join_spec :: "future \<Rightarrow> join_reply list \<Rightarrow> event list" where
  "join_spec f js =
     FutureResult (seconds 10) #
     (if join_would_end f js (seconds 10) \<and>
         join_would_raise f js (seconds 10) \<noteq> Some FutureTimeoutError
      then [] else [LogError LoggingThreadLate])"

definition join_outcome :: "future \<Rightarrow> join_reply list \<Rightarrow> unit outcome" where
  "join_outcome f js =
     (case join_would_raise f js (seconds 10) of
        None \<Rightarrow> Returns ()
      | Some e \<Rightarrow> if e = FutureTimeoutError then Returns () else Raises e)"

text \<open>The attributes that setup assigns are all there.\<close>

definition is_set_up :: "device \<Rightarrow> bool" where
  "is_set_up d =
     (grpc_channel d \<noteq> None \<and> grpc_root_server_channel d \<noteq> None \<and>
      backing_process d \<noteq> None \<and> backing_process_logging_future d \<noteq> None \<and>
      backing_process_logging_executor d \<noteq> None)"

fun is_stop_signal :: "event \<Rightarrow> bool" where
  "is_stop_signal (SendSignal _) = True"
| "is_stop_signal ProcKill = True"
| "is_stop_signal _ = False"

fun is_anomalous_exit :: "event \<Rightarrow> bool" where
  "is_anomalous_exit (LogError (StoppedWithCode _ _)) = True"
| "is_anomalous_exit _ = False"

text \<open>The events recorded between two worlds.\<close>

definition emitted :: "world \<Rightarrow> world \<Rightarrow> event list" where
  "emitted w w' = drop (length (trace w)) (trace w')"

text \<open>A action that records only events of one kind, whatever its outcome.\<close>

definition emits_only :: "(event \<Rightarrow> bool) \<Rightarrow> 'a action \<Rightarrow> bool" where
  "emits_only P m =
     (\<forall>d w r d' w'. m (d, w) = (r, (d', w')) \<longrightarrow>
        (\<exists>es. trace w' = trace w @ es \<and> list_all P es))"

section \<open>A device to run the program on\<close>

text \<open>A host-only device as its constructor leaves it, and as setup leaves it.\<close>

definition fresh_device :: device where
  "fresh_device =
     \<lparr>verbose_mode = False, grpc_root_server_port = 8898, grpc_port = 8899,
      signal_port = 8894, name = ''dut'', type_identifier = ''GdDevice'',
      label = ''dut'', log_path_base = ''/out/test'', test_runner_base_path = ''/out'',
      backing_process_log_path = ''/out/test/GdDevice_dut_backing_logs.txt'',
      cmd = [''/gd/stack'', ''--grpc-port=8899'', ''--root-server-port=8898'',
             ''--signal-port=8894'', ''--btsnoop=/out/test/dut_btsnoop_hci.log''],
      environment = [(''LLVM_PROFILE_FILE'',
                      ''/out/test/GdDevice_dut_backing_coverage.profraw'')],
      terminal_color = YELLOW,
      backing_process_profraw_path =
        Some ''/out/test/GdDevice_dut_backing_coverage.profraw'',
      serial_number = None, backing_process = None,
      backing_process_logging_executor = None, backing_process_logging_future = None,
      grpc_root_server_channel = None, grpc_channel = None\<rparr>"

definition running_device :: device where
  "running_device =
     fresh_device
       \<lparr>backing_process := Some \<lparr>args = cmd fresh_device, returncode = None\<rparr>,
        backing_process_logging_executor := Some (),
        backing_process_logging_future := Some \<lparr>finished = False, raised = None\<rparr>,
        grpc_root_server_channel := Some \<lparr>target_port = 8898, closed = False\<rparr>,
        grpc_channel := Some \<lparr>target_port = 8899, closed = False\<rparr>\<rparr>"

section \<open>Reading a trace\<close>

fun is_popen :: "event \<Rightarrow> bool" where
  "is_popen (Popen _) = True"
| "is_popen _ = False"

fun is_gate :: "event \<Rightarrow> bool" where
  "is_gate (MakePortsAvailable _) = True"
| "is_gate _ = False"

text \<open>The calls the device-hosted variant makes before the setup of the base class.\<close>

fun is_bringup_event :: "event \<Rightarrow> bool" where
  "is_bringup_event (Adb _) = True"
| "is_bringup_event (LogWarning _) = True"
| "is_bringup_event (Sleep _) = True"
| "is_bringup_event _ = False"

text \<open>The calls by which the reboot sub-protocol watches the device.\<close>

fun is_probe_event :: "event \<Rightarrow> bool" where
  "is_probe_event (Adb AdbGetState) = True"
| "is_probe_event (Adb (AdbGetprop _)) = True"
| "is_probe_event (Adb (AdbWaitForDevice _)) = True"
| "is_probe_event (Sleep _) = True"
| "is_probe_event _ = False"

fun is_forward_attempt :: "event \<Rightarrow> bool" where
  "is_forward_attempt (Adb (AdbTcpForward _ _)) = True"
| "is_forward_attempt _ = False"

fun is_reverse_attempt :: "event \<Rightarrow> bool" where
  "is_reverse_attempt (Adb (AdbReverse _ _)) = True"
| "is_reverse_attempt _ = False"

fun is_reboot :: "event \<Rightarrow> bool" where
  "is_reboot (Adb AdbReboot) = True"
| "is_reboot _ = False"

text \<open>
  The calls of the mapping operations that the retry policy speaks of: the attempts,
  the warnings of a retry and the reboots.
\<close>

fun is_mapping_event :: "event \<Rightarrow> bool" where
  "is_mapping_event (Adb (AdbTcpForward _ _)) = True"
| "is_mapping_event (Adb (AdbReverse _ _)) = True"
| "is_mapping_event (Adb AdbReboot) = True"
| "is_mapping_event (LogWarning _) = True"
| "is_mapping_event _ = False"

text \<open>A reply to a forward attempt that is a non-numeric error value.\<close>

fun is_forward_error :: "port_or_error \<Rightarrow> bool" where
  "is_forward_error (PStr e) = (e \<noteq> [])"
| "is_forward_error (PInt _) = False"

definition is_reverse_error :: "string \<Rightarrow> bool" where
  "is_reverse_error e = (e \<noteq> [] \<and> py_int e = None)"

text \<open>
  What the host's side of the world looks like to the setup of the base class, and what
  the replies to the mapping attempts are.
\<close>

definition port_view :: "world \<Rightarrow> int list \<times> bool list \<times> nat option list" where
  "port_view w = (busy_ports w, alive_replies w, handshake_replies w)"

definition mapping_view ::
  "world \<Rightarrow> port_or_error list \<times> string list \<times> int list \<times> bool list \<times> nat option list" where
  "mapping_view w = (forward_replies w, reverse_replies w, port_view w)"

text \<open>
  An action that returns or raises, leaves the device object as it is, and leaves a
  given view of the world as it is.
\<close>

definition keeps :: "(world \<Rightarrow> 'v) \<Rightarrow> 'a action \<Rightarrow> bool" where
  "keeps g m =
     (\<forall>d w r d' w'. m (d, w) = (r, (d', w')) \<longrightarrow> r \<noteq> Hangs \<and> d' = d \<and> g w' = g w)"

text \<open>What the world answers next to the liveness probe and to the accept.\<close>

definition next_arrival :: "world \<Rightarrow> nat option" where
  "next_arrival w = (case handshake_replies w of [] \<Rightarrow> None | a # _ \<Rightarrow> a)"

definition next_alive :: "world \<Rightarrow> bool" where
  "next_alive w = (case alive_replies w of [] \<Rightarrow> True | a # _ \<Rightarrow> a)"

section \<open>What the retries are to do\<close>

text \<open>
  The retry policy in the spec's words, for a mapping operation called with a budget of
  \<open>n\<close> retries, read off the replies to its attempts, its outcome, and the numbers of
  attempts and of reboots it has made. Every attempt whose reply is an error is
  followed by a reboot and one more attempt as long as the budget lasts. So the
  operation ends in one of three ways: it returns a port, after a run of failed
  attempts within the budget, each followed by a reboot, and one attempt that did not
  fail; or it fails with \<open>exhausted\<close>, after \<open>n + 1\<close> failed attempts and \<open>n\<close> reboots;
  or a reboot fails, after as many reboots as failed attempts.
\<close>

definition retry_law ::
  "('r \<Rightarrow> bool) \<Rightarrow> exn \<Rightarrow> nat \<Rightarrow> 'r list \<Rightarrow> int outcome \<Rightarrow> nat \<Rightarrow> nat \<Rightarrow> bool" where
  "retry_law is_err exhausted n replies r attempts reboots =
     ((\<exists>port. r = Returns port) \<and> attempts = reboots + 1 \<and> reboots \<le> n \<and>
        reboots \<le> length replies \<and> list_all is_err (take reboots replies) \<and>
        (reboots < length replies \<longrightarrow> \<not> is_err (replies ! reboots))
      \<or> r = Raises exhausted \<and> attempts = n + 1 \<and> reboots = n \<and>
        n + 1 \<le> length replies \<and> list_all is_err (take (n + 1) replies)
      \<or> ((\<exists>sn. r = Raises (TestFailure (BootTimedOut sn))) \<or>
          r = Raises (AttributeError ''serial_number'')) \<and>
        attempts = reboots \<and> 1 \<le> reboots \<and> reboots \<le> n \<and>
        reboots \<le> length replies \<and> list_all is_err (take reboots replies))"

text \<open>
  The same policy as the calls it makes, for a budget of \<open>n\<close> retries and the replies
  to the attempts: an attempt; if its reply is an error and the budget lasts, the
  warning with what is left of the budget, the reboot and the calls of the operation
  with the budget \<open>n - 1\<close>. With the calls come the replies left over when the
  operation returns, or \<open>None\<close> when it has exhausted its budget on a failing attempt.
  Every reboot is taken to succeed.
\<close>

fun mapping_spec ::
  "('r \<Rightarrow> bool) \<Rightarrow> event \<Rightarrow> (nat \<Rightarrow> event) \<Rightarrow> nat \<Rightarrow> 'r list \<Rightarrow> event list \<times> 'r list option" where
  "mapping_spec is_err attempt warning n [] = ([attempt], Some [])"
| "mapping_spec is_err attempt warning n (a # rest) =
     (if \<not> is_err a then ([attempt], Some rest)
      else case n of
        0 \<Rightarrow> ([attempt], None)
      | Suc k \<Rightarrow>
          (case mapping_spec is_err attempt warning k rest of
             (es, left) \<Rightarrow> (attempt # warning k # Adb AdbReboot # es, left)))"

text \<open>How a reboot fails: the boot does not complete in time.\<close>

fun boot_failure :: "exn \<Rightarrow> bool" where
  "boot_failure (TestFailure (BootTimedOut _)) = True"
| "boot_failure (AttributeError a) = (a = ''serial_number'')"
| "boot_failure _ = False"

definition reboot_failed :: "'a outcome \<Rightarrow> bool" where
  "reboot_failed r = (case r of Raises e \<Rightarrow> boot_failure e | _ \<Rightarrow> False)"

text \<open>
  The three mapping operations of the bringup under that policy with the default
  budget 1, in the order of the calls: the forward of the RPC port, the forward of the
  root-server port and the reverse of the signal port. With the calls comes the failure
  of the operation that exhausts its budget, if one does; the operations after it are
  not called.
\<close>

definition bringup_mappings_spec ::
  "device \<Rightarrow> port_or_error list \<Rightarrow> string list \<Rightarrow> event list \<times> failure option" where
  "bringup_mappings_spec d fs rs =
     (let gp = grpc_port d; rp = grpc_root_server_port d; sp = signal_port d; l = label d in
      case mapping_spec is_forward_error (Adb (AdbTcpForward gp gp))
             (\<lambda>k. LogWarning (ForwardRetry l gp gp k)) 1 fs of
        (es1, None) \<Rightarrow> (es1, Some (UnableToForward gp gp))
      | (es1, Some fs1) \<Rightarrow>
          (case mapping_spec is_forward_error (Adb (AdbTcpForward rp rp))
                  (\<lambda>k. LogWarning (ForwardRetry l rp rp k)) 1 fs1 of
             (es2, None) \<Rightarrow> (es1 @ es2, Some (UnableToForward rp rp))
           | (es2, Some _) \<Rightarrow>
               (case mapping_spec is_reverse_error (Adb (AdbReverse sp sp))
                       (\<lambda>k. LogWarning (ReverseRetry l sp sp k)) 1 rs of
                  (es3, None) \<Rightarrow> (es1 @ es2 @ es3, Some (UnableToReverse sp sp))
                | (es3, Some _) \<Rightarrow> (es1 @ es2 @ es3, None))))"

text \<open>The gates recorded before the worker is spawned.\<close>

definition gated_before_spawn :: "event list \<Rightarrow> event list" where
  "gated_before_spawn es = filter is_gate (takeWhile (\<lambda>e. \<not> is_popen e) es)"

text \<open>The replies to the reverse attempts, with the host's side of the world.\<close>

definition reverse_view :: "world \<Rightarrow> string list \<times> int list \<times> bool list \<times> nat option list" where
  "reverse_view w = (reverse_replies w, port_view w)"

text \<open>A device-hosted device as its constructor leaves it.\<close>

definition android_device :: device where
  "android_device =
     fresh_device
       \<lparr>name := ''cert'', label := ''cert'',
        backing_process_log_path := ''/out/test/GdDevice_cert_backing_logs.txt'',
        cmd := [''adb'', ''-s'', ''ABC123'', ''shell'', ''--signal-port=8894'',
                ''--btsnoop=/out/test/cert_btsnoop_hci.log''],
        environment := [], terminal_color := BLUE, backing_process_profraw_path := None,
        serial_number := Some ''ABC123''\<rparr>"

text \<open>
  Two worlds for it. In both the device needs no reboot for verity and boots again
  after a reboot; in the first the forward of the root-server port fails twice, in the
  second the reverse of the signal port fails twice.
\<close>

definition forward_world :: world where
  "forward_world =
     quiet_world\<lparr>forward_replies :=
                   [PInt 8899, PStr ''error: closed'', PStr ''error: closed''],
                 getprop_replies := [Some [], Some [], Some ''1'']\<rparr>"

definition reverse_world :: world where
  "reverse_world =
     quiet_world\<lparr>reverse_replies := [''error: closed'', ''error: closed''],
                 getprop_replies := [Some [], Some [], Some ''1'']\<rparr>"

section \<open>Running the program by rewriting\<close>

lemma bnd_ret [simp]: "bnd (ret x) f s = f x s"
  by (simp add: bnd_def ret_def)

lemma bnd_raise [simp]: "bnd (raise e) f s = (Raises e, s)"
  by (simp add: bnd_def raise_def)

lemma bnd_hang [simp]: "bnd hang f s = (Hangs, s)"
  by (simp add: bnd_def hang_def)

lemma bnd_emit [simp]: "bnd (emit e) f (d, w) = f () (d, w\<lparr>trace := trace w @ [e]\<rparr>)"
  by (simp add: bnd_def emit_def)

lemma bnd_advance [simp]: "bnd (advance n) f (d, w) = f () (d, w\<lparr>now := now w + n\<rparr>)"
  by (simp add: bnd_def advance_def)

lemma bnd_get [simp]: "bnd (get g) f (d, w) = f (g d) (d, w)"
  by (simp add: bnd_def get_def)

lemma bnd_attr [simp]:
  "bnd (attr g nm) f (d, w) =
     (case g d of None \<Rightarrow> (Raises (AttributeError nm), (d, w)) | Some x \<Rightarrow> f x (d, w))"
  by (simp add: bnd_def attr_def split: option.splits)

lemma bnd_ask [simp]: "bnd (ask g) f (d, w) = f (g w) (d, w)"
  by (simp add: bnd_def ask_def)

lemma ask_apply [simp]: "ask g (d, w) = (Returns (g w), (d, w))"
  by (simp add: ask_def)

lemma bnd_set_self [simp]: "bnd (set_self g) f (d, w) = f () (g d, w)"
  by (simp add: bnd_def set_self_def)

lemma bnd_take_reply [simp]:
  "bnd (take_reply sel upd dflt) f (d, w) =
     f (case sel w of [] \<Rightarrow> dflt | r # _ \<Rightarrow> r) (d, upd tl w)"
  by (simp add: bnd_def take_reply_def)

lemma ret_apply [simp]: "ret x s = (Returns x, s)"
  by (simp add: ret_def)

lemma raise_apply [simp]: "raise e s = (Raises e, s)"
  by (simp add: raise_def)

lemma hang_apply [simp]: "hang s = (Hangs, s)"
  by (simp add: hang_def)

lemma emit_apply [simp]: "emit e (d, w) = (Returns (), (d, w\<lparr>trace := trace w @ [e]\<rparr>))"
  by (simp add: emit_def)

lemma advance_apply [simp]: "advance n (d, w) = (Returns (), (d, w\<lparr>now := now w + n\<rparr>))"
  by (simp add: advance_def)

lemma set_self_apply [simp]: "set_self g (d, w) = (Returns (), (g d, w))"
  by (simp add: set_self_def)

lemma bnd_assoc: "bnd (bnd m f) g = bnd m (\<lambda>x. bnd (f x) g)"
  by (auto simp: bnd_def fun_eq_iff split: prod.splits outcome.splits)

lemma bnd_if: "bnd (if c then a else b) f s = (if c then bnd a f s else bnd b f s)"
  by simp

lemma bnd_Returns: "m s = (Returns x, s') \<Longrightarrow> bnd m f s = f x s'"
  by (simp add: bnd_def)

lemma bnd_Raises: "m s = (Raises e, s') \<Longrightarrow> bnd m f s = (Raises e, s')"
  by (simp add: bnd_def)

lemma bnd_Hangs: "m s = (Hangs, s') \<Longrightarrow> bnd m f s = (Hangs, s')"
  by (simp add: bnd_def)

lemmas prog_defs =
  ret_def raise_def bnd_def try_except_def emit_def advance_def get_def attr_def
  set_self_def take_reply_def ask_def

section \<open>Teardown, step by step\<close>

lemma stop_backing_process_run:
  assumes "backing_process d = Some p" "stop_backing_process (d, w) = (r, (d', w'))"
  shows "r = Returns (stop_result_spec p (wait_replies w))"
    and "trace w' = trace w @ escalation_spec (label d) p (wait_replies w)"
    and "now w' \<le> now w + 2 * seconds 10"
    and "d' = d\<lparr>backing_process := backing_process d'\<rparr>"
    and "backing_process d' \<noteq> None"
    and "w' = w\<lparr>trace := trace w', now := now w', wait_replies := wait_replies w'\<rparr>"
  using assms
  by (auto simp: stop_backing_process_def WAIT_CHANNEL_READY_TIMEOUT_SECONDS_def
        send_signal_def kill_def popen_wait_def prog_defs stop_result_spec_def
        escalation_spec_def wait_would_return_def
      split: option.splits list.splits wait_reply.splits if_splits)

lemma join_logging_loop_run:
  assumes "backing_process_logging_future d = Some f"
    and "join_logging_loop (d, w) = (r, (d', w'))"
  shows "r = join_outcome f (join_replies w)"
    and "trace w' = trace w @ join_spec f (join_replies w)"
    and "now w' \<le> now w + seconds 10"
    and "d' = d\<lparr>backing_process_logging_future := backing_process_logging_future d'\<rparr>"
    and "\<exists>f'. backing_process_logging_future d' = Some f' \<and>
           (r = Returns () \<longrightarrow> finished f' \<longrightarrow>
              raised f' = None \<or> raised f' = Some FutureTimeoutError)"
  using assms
  by (auto simp: join_logging_loop_def WAIT_CHANNEL_READY_TIMEOUT_SECONDS_def
        future_result_def prog_defs join_spec_def join_would_end_def join_would_raise_def
        join_outcome_def
      split: option.splits list.splits join_reply.splits if_splits)

lemma join_outcome_cases:
  "join_outcome f js = Returns () \<or>
   (\<exists>e. join_outcome f js = Raises e \<and> join_would_raise f js (seconds 10) = Some e)"
  by (simp add: join_outcome_def split: option.splits)

lemma teardown_run:
  assumes "grpc_channel d = Some c" "grpc_root_server_channel d = Some rc"
    and "backing_process d = Some p" "backing_process_logging_future d = Some f"
    and "backing_process_logging_executor d = Some ex"
    and "GdDeviceBase_teardown (d, w) = (r, (d', w'))"
  shows "r = join_outcome f (join_replies w)"
    and "trace w' = trace w @ [ChannelClose GrpcChannel, ChannelClose GrpcRootServerChannel] @
           escalation_spec (label d) p (wait_replies w) @
           anomalous_spec (label d) (stop_result_spec p (wait_replies w)) @
           join_spec f (join_replies w) @
           (if r = Returns () then [ExecutorShutdown] else [])"
    and "now w' \<le> now w + 3 * seconds 10"
    and "grpc_channel d' = Some (c\<lparr>closed := True\<rparr>)"
    and "grpc_root_server_channel d' = Some (rc\<lparr>closed := True\<rparr>)"
    and "backing_process d' \<noteq> None"
    and "\<exists>f'. backing_process_logging_future d' = Some f' \<and>
           (r = Returns () \<longrightarrow> finished f' \<longrightarrow>
              raised f' = None \<or> raised f' = Some FutureTimeoutError)"
    and "backing_process_logging_executor d' = Some ex"
    and "label d' = label d"
proof -
  let ?d1 = "d\<lparr>grpc_channel := Some (c\<lparr>closed := True\<rparr>),
                grpc_root_server_channel := Some (rc\<lparr>closed := True\<rparr>)\<rparr>"
  let ?w1 = "w\<lparr>trace := trace w @
                 [ChannelClose GrpcChannel, ChannelClose GrpcRootServerChannel]\<rparr>"
  obtain r2 d2 w2 where s2: "stop_backing_process (?d1, ?w1) = (r2, (d2, w2))"
    by (metis prod_cases3)
  have bp1: "backing_process ?d1 = Some p" using assms(3) by simp
  note S = stop_backing_process_run [OF bp1 s2]
  let ?sr = "stop_result_spec p (wait_replies w)"
  let ?w3 = "w2\<lparr>trace := trace w2 @ anomalous_spec (label d) ?sr\<rparr>"
  obtain r4 d4 w4 where s4: "join_logging_loop (d2, ?w3) = (r4, (d4, w4))"
    by (metis prod_cases3)
  have d2: "backing_process_logging_future d2 = Some f" "label d2 = label d"
      "backing_process_logging_executor d2 = Some ex"
      "grpc_channel d2 = Some (c\<lparr>closed := True\<rparr>)"
      "grpc_root_server_channel d2 = Some (rc\<lparr>closed := True\<rparr>)"
    using arg_cong [OF S(4), of backing_process_logging_future]
      arg_cong [OF S(4), of label]
      arg_cong [OF S(4), of backing_process_logging_executor]
      arg_cong [OF S(4), of grpc_channel]
      arg_cong [OF S(4), of grpc_root_server_channel] assms(4,5)
    by simp_all
  have w2: "join_replies w2 = join_replies w"
    using arg_cong [OF S(6), of join_replies] by simp
  note J = join_logging_loop_run [OF d2(1) s4]
  have r4: "r4 = join_outcome f (join_replies w)" using J(1) w2 by simp
  have d4: "backing_process_logging_executor d4 = Some ex"
      "grpc_channel d4 = Some (c\<lparr>closed := True\<rparr>)"
      "grpc_root_server_channel d4 = Some (rc\<lparr>closed := True\<rparr>)"
      "backing_process d4 = backing_process d2" "label d4 = label d"
    using arg_cong [OF J(4), of backing_process_logging_executor]
      arg_cong [OF J(4), of grpc_channel]
      arg_cong [OF J(4), of grpc_root_server_channel]
      arg_cong [OF J(4), of backing_process] arg_cong [OF J(4), of label] d2
    by simp_all
  have w3: "(d2, ?w3) =
      (if snd ?sr \<noteq> - fst ?sr \<and> snd ?sr \<noteq> 0
       then (d2, w2\<lparr>trace := trace w2 @ [LogError (StoppedWithCode (label d) (snd ?sr))]\<rparr>)
       else (d2, w2))"
    by (simp add: anomalous_spec_def)
  have step: "GdDeviceBase_teardown (d, w) =
      bnd join_logging_loop (\<lambda>_. executor_shutdown) (d2, ?w3)"
    using assms(1,2) s2 S(1) d2(2)
    apply (simp add: GdDeviceBase_teardown_def close_grpc_channel_def
        close_grpc_root_server_channel_def bnd_assoc
        bnd_Returns [of stop_backing_process] case_prod_beta bnd_if)
    apply (auto simp: w3 split: if_splits)
    done
  have eq: "GdDeviceBase_teardown (d, w) =
      (if r4 = Returns ()
       then (Returns (), (d4, w4\<lparr>trace := trace w4 @ [ExecutorShutdown]\<rparr>))
       else (r4, (d4, w4)))"
  proof (cases "r4 = Returns ()")
    case True
    then show ?thesis
      using step s4 d4(1)
      by (simp add: bnd_Returns [of join_logging_loop] executor_shutdown_def)
  next
    case False
    then obtain e where "r4 = Raises e"
      using r4 join_outcome_cases [of f "join_replies w"] by auto
    then show ?thesis
      using step s4 by (simp add: bnd_Raises [of join_logging_loop])
  qed
  have r: "r = r4" using eq assms(6) by (auto split: if_splits)
  show "r = join_outcome f (join_replies w)" using r r4 by simp
  show "trace w' = trace w @ [ChannelClose GrpcChannel, ChannelClose GrpcRootServerChannel] @
           escalation_spec (label d) p (wait_replies w) @
           anomalous_spec (label d) (stop_result_spec p (wait_replies w)) @
           join_spec f (join_replies w) @
           (if r = Returns () then [ExecutorShutdown] else [])"
    using eq assms(6) S(2) J(2) w2 r by (auto split: if_splits)
  show "now w' \<le> now w + 3 * seconds 10"
    using eq assms(6) S(3) J(3) by (auto split: if_splits)
  show "grpc_channel d' = Some (c\<lparr>closed := True\<rparr>)"
    and "grpc_root_server_channel d' = Some (rc\<lparr>closed := True\<rparr>)"
    and "backing_process d' \<noteq> None"
    and "backing_process_logging_executor d' = Some ex"
    and "label d' = label d"
    using eq assms(6) d4 S(5) by (auto split: if_splits)
  show "\<exists>f'. backing_process_logging_future d' = Some f' \<and>
           (r = Returns () \<longrightarrow> finished f' \<longrightarrow>
              raised f' = None \<or> raised f' = Some FutureTimeoutError)"
    using eq assms(6) J(5) r by (auto split: if_splits)
qed

section \<open>What an action records\<close>

lemma emits_only_ret [simp]: "emits_only P (ret x)"
  by (simp add: emits_only_def)

lemma emits_only_raise [simp]: "emits_only P (raise e)"
  by (simp add: emits_only_def)

lemma emits_only_hang [simp]: "emits_only P hang"
  by (simp add: emits_only_def)

lemma emits_only_get [simp]: "emits_only P (get g)"
  by (simp add: emits_only_def get_def)

lemma emits_only_attr [simp]: "emits_only P (attr g nm)"
  by (auto simp: emits_only_def attr_def split: option.splits)

lemma emits_only_ask [simp]: "emits_only P (ask g)"
  by (simp add: emits_only_def)

lemma emits_only_set_self [simp]: "emits_only P (set_self g)"
  by (simp add: emits_only_def)

lemma emits_only_advance [simp]: "emits_only P (advance n)"
  by (simp add: emits_only_def)

lemma emits_only_emit [simp]: "emits_only P (emit e) = P e"
  by (auto simp: emits_only_def)

lemma emits_only_take_reply:
  "(\<And>w. trace (upd tl w) = trace w) \<Longrightarrow> emits_only P (take_reply sel upd dflt)"
  by (simp add: emits_only_def take_reply_def)

lemma emits_only_assert_true [simp]: "emits_only P (assert_true c msg)"
  by (simp add: assert_true_def)

lemma emits_only_bnd:
  assumes "emits_only P m" "\<And>x. emits_only P (f x)"
  shows "emits_only P (bnd m f)"
  unfolding emits_only_def
proof (intro allI impI)
  fix d w r d' w'
  assume b: "bnd m f (d, w) = (r, (d', w'))"
  obtain r1 d1 w1 where m: "m (d, w) = (r1, (d1, w1))" by (metis prod_cases3)
  from assms(1) m obtain es1 where es1: "trace w1 = trace w @ es1" "list_all P es1"
    unfolding emits_only_def by blast
  show "\<exists>es. trace w' = trace w @ es \<and> list_all P es"
  proof (cases r1)
    case (Returns x)
    then have "f x (d1, w1) = (r, (d', w'))" using b m by (simp add: bnd_def)
    with assms(2) [of x] obtain es2 where "trace w' = trace w1 @ es2" "list_all P es2"
      unfolding emits_only_def by blast
    then show ?thesis using es1 by (intro exI [of _ "es1 @ es2"]) simp
  next
    case (Raises e)
    then show ?thesis using b m es1 by (auto simp: bnd_def)
  next
    case Hangs
    then show ?thesis using b m es1 by (auto simp: bnd_def)
  qed
qed

lemma emits_only_try_except:
  assumes "emits_only P m" "\<And>e. emits_only P (h e)"
  shows "emits_only P (try_except m c h)"
  unfolding emits_only_def
proof (intro allI impI)
  fix d w r d' w'
  assume b: "try_except m c h (d, w) = (r, (d', w'))"
  obtain r1 d1 w1 where m: "m (d, w) = (r1, (d1, w1))" by (metis prod_cases3)
  from assms(1) m obtain es1 where es1: "trace w1 = trace w @ es1" "list_all P es1"
    unfolding emits_only_def by blast
  show "\<exists>es. trace w' = trace w @ es \<and> list_all P es"
  proof (cases r1)
    case (Returns x)
    then show ?thesis using b m es1 by (auto simp: try_except_def)
  next
    case (Raises e)
    show ?thesis
    proof (cases "c e")
      case True
      then have "h e (d1, w1) = (r, (d', w'))" using b m Raises by (simp add: try_except_def)
      with assms(2) [of e] obtain es2 where "trace w' = trace w1 @ es2" "list_all P es2"
        unfolding emits_only_def by blast
      then show ?thesis using es1 by (intro exI [of _ "es1 @ es2"]) simp
    next
      case False
      then show ?thesis using b m es1 Raises by (auto simp: try_except_def)
    qed
  next
    case Hangs
    then show ?thesis using b m es1 by (auto simp: try_except_def)
  qed
qed

lemma emits_only_if:
  "(c \<Longrightarrow> emits_only P a) \<Longrightarrow> (\<not> c \<Longrightarrow> emits_only P b) \<Longrightarrow>
   emits_only P (if c then a else b)"
  by simp

lemma emits_only_case_option:
  "emits_only P a \<Longrightarrow> (\<And>x. emits_only P (b x)) \<Longrightarrow>
   emits_only P (case v of None \<Rightarrow> a | Some x \<Rightarrow> b x)"
  by (cases v) simp_all

lemma emits_only_case_prod:
  "(\<And>x y. emits_only P (f x y)) \<Longrightarrow> emits_only P (case v of (x, y) \<Rightarrow> f x y)"
  by (cases v) simp

lemma emits_only_case_wait_reply:
  "(\<And>t rc. emits_only P (a t rc)) \<Longrightarrow> emits_only P b \<Longrightarrow>
   emits_only P (case v of ProcExits t rc \<Rightarrow> a t rc | ProcKeepsRunning \<Rightarrow> b)"
  by (cases v) simp_all

lemma emits_only_case_join_reply:
  "(\<And>t. emits_only P (a t)) \<Longrightarrow> (\<And>t e. emits_only P (c t e)) \<Longrightarrow> emits_only P b \<Longrightarrow>
   emits_only P (case v of LoopEnds t \<Rightarrow> a t | LoopRaises t e \<Rightarrow> c t e | LoopKeepsRunning \<Rightarrow> b)"
  by (cases v) simp_all

lemmas emits_only_intros =
  emits_only_bnd emits_only_try_except emits_only_if emits_only_case_option
  emits_only_case_prod emits_only_case_wait_reply emits_only_case_join_reply
  emits_only_take_reply

lemma emits_only_teardown_rest:
  "emits_only (\<lambda>_. True)
     (bnd stop_backing_process (\<lambda>(stop_signal, return_code).
      bnd (if return_code \<notin> set [- stop_signal, 0]
           then bnd (get label) (\<lambda>l. emit (LogError (StoppedWithCode l return_code)))
           else ret ()) (\<lambda>_.
      bnd join_logging_loop (\<lambda>_.
      executor_shutdown))))"
  unfolding stop_backing_process_def join_logging_loop_def executor_shutdown_def
    send_signal_def kill_def popen_wait_def future_result_def
  by (intro emits_only_intros; simp)

lemma filter_anomalous_escalation [simp]:
  "filter is_anomalous_exit (escalation_spec l p rs) = []"
  by (simp add: escalation_spec_def split: option.splits)

lemma filter_anomalous_join [simp]:
  "filter is_anomalous_exit (join_spec f js) = []"
  by (simp add: join_spec_def)

lemma filter_anomalous_anomalous [simp]:
  "filter is_anomalous_exit (anomalous_spec l sr) = anomalous_spec l sr"
  by (simp add: anomalous_spec_def)

lemmas teardown_defs =
  GdDeviceBase_teardown_def close_grpc_channel_def close_grpc_root_server_channel_def
  stop_backing_process_def join_logging_loop_def executor_shutdown_def send_signal_def
  kill_def popen_wait_def future_result_def WAIT_CHANNEL_READY_TIMEOUT_SECONDS_def
  seconds_def SIGINT_def SIGKILL_def

section \<open>The claims about teardown\<close>

text \<open>
  The escalation of the stop signals, in every teardown of a device that has been set
  up: the interrupt signal is sent and the exit is awaited for up to 10 s; if the
  process has not exited, the kill signal is sent and the exit is awaited for up to
  10 s again; if it still has not exited, the failure to kill is recorded. Either way
  teardown goes on to the join of the logging loop, and all its waiting takes at most
  30 s: it never blocks. Whenever the join raises nothing, teardown returns, having
  shut the executor down; an exception that the join raises leaves teardown before
  the executor is shut down.
\<close>

theorem teardown_escalation:
  assumes "is_set_up d" and "backing_process d = Some p"
    and "backing_process_logging_future d = Some f"
  shows "\<exists>r d' w' rest. GdDeviceBase_teardown (d, w) = (r, (d', w')) \<and>
     now w' \<le> now w + 3 * seconds 10 \<and>
     trace w' = trace w @ [ChannelClose GrpcChannel, ChannelClose GrpcRootServerChannel] @
        escalation_spec (label d) p (wait_replies w) @ rest \<and>
     FutureResult (seconds 10) \<in> set rest \<and>
     (case join_would_raise f (join_replies w) (seconds 10) of
        None \<Rightarrow> r = Returns () \<and> last rest = ExecutorShutdown
      | Some e \<Rightarrow>
          if e = FutureTimeoutError then r = Returns () \<and> last rest = ExecutorShutdown
          else r = Raises e \<and> ExecutorShutdown \<notin> set rest)"
proof -
  obtain c rc ex where a: "grpc_channel d = Some c" "grpc_root_server_channel d = Some rc"
    "backing_process_logging_executor d = Some ex"
    using assms(1) by (auto simp: is_set_up_def)
  obtain r d' w' where t: "GdDeviceBase_teardown (d, w) = (r, (d', w'))"
    by (metis prod_cases3)
  note T = teardown_run [OF a(1,2) assms(2,3) a(3) t]
  let ?rest = "anomalous_spec (label d) (stop_result_spec p (wait_replies w)) @
           join_spec f (join_replies w) @ (if r = Returns () then [ExecutorShutdown] else [])"
  have 1: "FutureResult (seconds 10) \<in> set ?rest"
    by (simp add: join_spec_def)
  have 2: "r = Returns () \<Longrightarrow> last ?rest = ExecutorShutdown"
    by simp
  have 3: "r \<noteq> Returns () \<Longrightarrow> ExecutorShutdown \<notin> set ?rest"
    by (auto simp: anomalous_spec_def join_spec_def)
  have 4: "case join_would_raise f (join_replies w) (seconds 10) of
        None \<Rightarrow> r = Returns () \<and> last ?rest = ExecutorShutdown
      | Some e \<Rightarrow>
          if e = FutureTimeoutError then r = Returns () \<and> last ?rest = ExecutorShutdown
          else r = Raises e \<and> ExecutorShutdown \<notin> set ?rest"
    using T(1) 2 3 by (auto simp: join_outcome_def split: option.splits)
  show ?thesis using t T(2,3) 1 4 by blast
qed

theorem teardown_escalation_witness:
  "is_set_up running_device \<and>
   (\<exists>d' w' rest.
      GdDeviceBase_teardown
        (running_device, quiet_world\<lparr>wait_replies := [ProcExits 101 0, ProcKeepsRunning]\<rparr>) =
        (Returns (), (d', w')) \<and>
      now w' \<le> 300 \<and>
      trace w' = [ChannelClose GrpcChannel, ChannelClose GrpcRootServerChannel,
         SendSignal 2, ProcWait 100, LogError (FailedToInterrupt ''dut''), ProcKill,
         ProcWait 100, LogError FailedToKill] @ rest \<and>
      FutureResult 100 \<in> set rest \<and> last rest = ExecutorShutdown)"
  using teardown_escalation [of running_device "\<lparr>args = cmd fresh_device, returncode = None\<rparr>"
      "\<lparr>finished = False, raised = None\<rparr>"
      "quiet_world\<lparr>wait_replies := [ProcExits 101 0, ProcKeepsRunning]\<rparr>"]
  apply (simp add: is_set_up_def running_device_def fresh_device_def quiet_world_def
      escalation_spec_def wait_would_return_def join_would_raise_def seconds_def SIGINT_def)
  apply (elim exE conjE)
  apply simp
  done


text \<open>
  C4. The spec has the escalation as above, and teardown always return. The source
  means an error of the logging loop to be logged: the \<open>try\<close> statement around the
  join logs a timeout and goes on, and logs a result of the loop that is not empty as
  an error of the logging thread. But the loop returns nothing, and the join raises
  again the exception that ended it, which the statement does not handle. Here the
  device has been set up, the worker exits on the interrupt signal and the logging
  loop has been ended by a \<open>UnicodeDecodeError\<close>, the worker's output being read as
  text: teardown raises that error after the join, and the executor is not shut down.
\<close>

theorem teardown_join_raises:
  "fst (GdDeviceBase_teardown
          (running_device,
           quiet_world\<lparr>wait_replies := [ProcExits 3 (- 2)],
                       join_replies := [LoopRaises 1 UnicodeDecodeError]\<rparr>)) =
     Raises UnicodeDecodeError \<and>
   trace (snd (snd (GdDeviceBase_teardown
          (running_device,
           quiet_world\<lparr>wait_replies := [ProcExits 3 (- 2)],
                       join_replies := [LoopRaises 1 UnicodeDecodeError]\<rparr>)))) =
     [ChannelClose GrpcChannel, ChannelClose GrpcRootServerChannel, SendSignal 2,
      ProcWait 100, FutureResult 100]"
  by (simp add: teardown_defs prog_defs running_device_def fresh_device_def quiet_world_def)


text \<open>
  C5. In every teardown in which the process exits, the exit status is held against
  exactly two accepted outcomes, terminated by the signal sent last (the interrupt
  signal, or the kill signal after an escalation) and exit code 0; any other status is
  logged, and teardown goes on to the join of the logging loop all the same. The exit
  status has no part in how teardown ends: that is decided by the join alone, and
  teardown returns whenever the join raises nothing. A worker that ignores the
  interrupt signal and dies of the kill signal has an accepted status: nothing is
  logged about its exit.
\<close>

theorem teardown_exit_status:
  assumes "is_set_up d" and "backing_process d = Some p"
    and "backing_process_logging_future d = Some f"
    and "wait_would_return p (wait_replies w) (seconds 10) = Some rc \<and> sig = SIGINT \<or>
         wait_would_return p (wait_replies w) (seconds 10) = None \<and>
         wait_would_return p (tl (wait_replies w)) (seconds 10) = Some rc \<and> sig = SIGKILL"
    and "GdDeviceBase_teardown (d, w) = (r, (d', w'))"
  shows "filter is_anomalous_exit (emitted w w') =
       (if rc = - sig \<or> rc = 0 then [] else [LogError (StoppedWithCode (label d) rc)]) \<and>
     (sig = SIGKILL \<and> rc = - SIGKILL \<longrightarrow> filter is_anomalous_exit (emitted w w') = []) \<and>
     (\<exists>pre post. emitted w w' =
        pre @ (if rc = - sig \<or> rc = 0 then [] else [LogError (StoppedWithCode (label d) rc)]) @
        FutureResult (seconds 10) # post) \<and>
     r = join_outcome f (join_replies w) \<and>
     (join_would_raise f (join_replies w) (seconds 10) = None \<longrightarrow> r = Returns ())"
proof -
  obtain c rc' ex where a: "grpc_channel d = Some c" "grpc_root_server_channel d = Some rc'"
    "backing_process_logging_executor d = Some ex"
    using assms(1) by (auto simp: is_set_up_def)
  note T = teardown_run [OF a(1,2) assms(2,3) a(3) assms(5)]
  have sr: "stop_result_spec p (wait_replies w) = (sig, rc)"
    using assms(4) by (auto simp: stop_result_spec_def)
  let ?an = "if rc = - sig \<or> rc = 0 then [] else [LogError (StoppedWithCode (label d) rc)]"
  have an: "anomalous_spec (label d) (sig, rc) = ?an"
    by (simp add: anomalous_spec_def)
  have 1: "filter is_anomalous_exit (emitted w w') = ?an"
    using T(2) sr an by (simp add: emitted_def)
  let ?pre = "[ChannelClose GrpcChannel, ChannelClose GrpcRootServerChannel] @
     escalation_spec (label d) p (wait_replies w)"
  let ?post = "tl (join_spec f (join_replies w)) @
     (if r = Returns () then [ExecutorShutdown] else [])"
  have "emitted w w' = ?pre @ ?an @ FutureResult (seconds 10) # ?post"
    using T(2) sr an by (simp add: emitted_def join_spec_def)
  then have 2: "\<exists>pre post. emitted w w' = pre @ ?an @ FutureResult (seconds 10) # post"
    by blast
  have 3: "join_would_raise f (join_replies w) (seconds 10) = None \<longrightarrow> r = Returns ()"
    using T(1) by (simp add: join_outcome_def)
  show ?thesis using 1 2 3 T(1) by auto
qed

theorem teardown_exit_status_witness:
  "is_set_up running_device \<and>
   fst (GdDeviceBase_teardown
     (running_device, quiet_world\<lparr>wait_replies := [ProcKeepsRunning, ProcExits 2 (- 9)]\<rparr>)) =
     Returns () \<and>
   filter is_anomalous_exit
     (emitted (quiet_world\<lparr>wait_replies := [ProcKeepsRunning, ProcExits 2 (- 9)]\<rparr>)
        (snd (snd (GdDeviceBase_teardown
           (running_device,
            quiet_world\<lparr>wait_replies := [ProcKeepsRunning, ProcExits 2 (- 9)]\<rparr>))))) = []"
proof -
  let ?w = "quiet_world\<lparr>wait_replies := [ProcKeepsRunning, ProcExits 2 (- 9)]\<rparr>"
  obtain r d' w' where t: "GdDeviceBase_teardown (running_device, ?w) = (r, (d', w'))"
    by (metis prod_cases3)
  have u: "is_set_up running_device" by (simp add: is_set_up_def running_device_def)
  from teardown_exit_status [OF u _ _ _ t,
      of "\<lparr>args = cmd fresh_device, returncode = None\<rparr>" "\<lparr>finished = False, raised = None\<rparr>"
         "- 9" SIGKILL]
  have "filter is_anomalous_exit (emitted ?w w') = [] \<and> r = Returns ()"
    by (simp add: running_device_def fresh_device_def quiet_world_def
        wait_would_return_def join_would_raise_def join_outcome_def seconds_def SIGKILL_def)
  then show ?thesis using u t by simp
qed

text \<open>
  C10. When both waits of teardown time out, the return code is the sentinel -65536,
  which is neither 0 nor the negation of a stop signal, so the exit status is logged
  as anomalous right after the failed kill, and teardown still goes on to join the
  logging loop with its timeout of 10 s; however it ends, it does so within 30 s of
  waiting.
\<close>

theorem teardown_failed_kill:
  assumes "is_set_up d" and "backing_process d = Some p"
    and "wait_would_return p (wait_replies w) (seconds 10) = None"
    and "wait_would_return p (tl (wait_replies w)) (seconds 10) = None"
    and "GdDeviceBase_teardown (d, w) = (r, (d', w'))"
  shows "fst (stop_backing_process (d, w)) = Returns (SIGKILL, - 65536) \<and>
     (- 65536 :: int) \<notin> {0, - SIGINT, - SIGKILL} \<and>
     (\<exists>pre post. emitted w w' = pre @ [LogError FailedToKill,
           LogError (StoppedWithCode (label d) (- 65536)), FutureResult (seconds 10)] @ post) \<and>
     now w' \<le> now w + 3 * seconds 10 \<and> r \<noteq> Hangs"
proof -
  obtain c rc' f ex where a: "grpc_channel d = Some c" "grpc_root_server_channel d = Some rc'"
    "backing_process_logging_future d = Some f" "backing_process_logging_executor d = Some ex"
    using assms(1) by (auto simp: is_set_up_def)
  note T = teardown_run [OF a(1,2) assms(2) a(3,4) assms(5)]
  obtain r2 d2 w2 where s: "stop_backing_process (d, w) = (r2, (d2, w2))"
    by (metis prod_cases3)
  have sr: "stop_result_spec p (wait_replies w) = (SIGKILL, - 65536)"
    using assms(3,4) by (simp add: stop_result_spec_def)
  have 1: "fst (stop_backing_process (d, w)) = Returns (SIGKILL, - 65536)"
    using stop_backing_process_run(1) [OF assms(2) s] s sr by simp
  have 2: "(- 65536 :: int) \<notin> {0, - SIGINT, - SIGKILL}"
    by (simp add: SIGINT_def SIGKILL_def)
  let ?pre = "[ChannelClose GrpcChannel, ChannelClose GrpcRootServerChannel,
     SendSignal SIGINT, ProcWait (seconds 10), LogError (FailedToInterrupt (label d)),
     ProcKill, ProcWait (seconds 10)]"
  let ?post = "tl (join_spec f (join_replies w)) @
     (if r = Returns () then [ExecutorShutdown] else [])"
  have "emitted w w' = ?pre @ [LogError FailedToKill,
           LogError (StoppedWithCode (label d) (- 65536)), FutureResult (seconds 10)] @ ?post"
    using T(2) sr assms(3,4)
    by (simp add: emitted_def escalation_spec_def anomalous_spec_def join_spec_def SIGKILL_def)
  then have 3: "\<exists>pre post. emitted w w' = pre @ [LogError FailedToKill,
           LogError (StoppedWithCode (label d) (- 65536)), FutureResult (seconds 10)] @ post"
    by blast
  have 4: "r \<noteq> Hangs"
    using T(1) join_outcome_cases [of f "join_replies w"] by auto
  show ?thesis using 1 2 3 4 T(3) by blast
qed

theorem teardown_failed_kill_witness:
  "is_set_up running_device \<and>
   fst (stop_backing_process (running_device, quiet_world)) = Returns (9, - 65536) \<and>
   (\<exists>pre post.
      emitted quiet_world (snd (snd (GdDeviceBase_teardown (running_device, quiet_world)))) =
        pre @ [LogError FailedToKill,
         LogError (StoppedWithCode ''dut'' (- 65536)), FutureResult 100] @ post) \<and>
   now (snd (snd (GdDeviceBase_teardown (running_device, quiet_world)))) \<le> 300 \<and>
   fst (GdDeviceBase_teardown (running_device, quiet_world)) \<noteq> Hangs"
proof -
  obtain r d' w' where t: "GdDeviceBase_teardown (running_device, quiet_world) = (r, (d', w'))"
    by (metis prod_cases3)
  have u: "is_set_up running_device" by (simp add: is_set_up_def running_device_def)
  from teardown_failed_kill [OF u _ _ _ t, of "\<lparr>args = cmd fresh_device, returncode = None\<rparr>"]
  show ?thesis using u t
    by (simp add: running_device_def fresh_device_def quiet_world_def
        wait_would_return_def seconds_def SIGKILL_def SIGINT_def)
qed


text \<open>
  C6. In every teardown, a stop signal is sent only after both channels have been
  closed: the two closes are the first two calls of teardown, and on a device that has
  been set up the third call sends the interrupt signal, by which time both channel
  objects are closed.
\<close>

theorem teardown_closes_channels_first:
  assumes "GdDeviceBase_teardown (d, w) = (r, (d', w'))"
  shows "\<exists>es. trace w' = trace w @ es \<and>
     (\<forall>i < length es. is_stop_signal (es ! i) \<longrightarrow>
        2 \<le> i \<and> take 2 es = [ChannelClose GrpcChannel, ChannelClose GrpcRootServerChannel]) \<and>
     (is_set_up d \<longrightarrow>
        take 3 es = [ChannelClose GrpcChannel, ChannelClose GrpcRootServerChannel,
                     SendSignal SIGINT] \<and>
        map_option closed (grpc_channel d') = Some True \<and>
        map_option closed (grpc_root_server_channel d') = Some True)"
proof (cases "grpc_channel d")
  case None
  then have "trace w' = trace w @ []" "\<not> is_set_up d"
    using assms by (auto simp: GdDeviceBase_teardown_def close_grpc_channel_def bnd_assoc is_set_up_def)
  then show ?thesis by (intro exI [of _ "[]"]) simp
next
  case c: (Some c)
  show ?thesis
  proof (cases "grpc_root_server_channel d")
    case None
    then have "trace w' = trace w @ [ChannelClose GrpcChannel]" "\<not> is_set_up d"
      using assms c
      by (auto simp: GdDeviceBase_teardown_def close_grpc_channel_def
          close_grpc_root_server_channel_def bnd_assoc is_set_up_def)
    then show ?thesis by (intro exI [of _ "[ChannelClose GrpcChannel]"]) simp
  next
    case rc: (Some rc)
    let ?d1 = "d\<lparr>grpc_channel := Some (c\<lparr>closed := True\<rparr>),
                  grpc_root_server_channel := Some (rc\<lparr>closed := True\<rparr>)\<rparr>"
    let ?w1 = "w\<lparr>trace := trace w @
                   [ChannelClose GrpcChannel, ChannelClose GrpcRootServerChannel]\<rparr>"
    let ?rest = "bnd stop_backing_process (\<lambda>(stop_signal, return_code).
      bnd (if return_code \<notin> set [- stop_signal, 0]
           then bnd (get label) (\<lambda>l. emit (LogError (StoppedWithCode l return_code)))
           else ret ()) (\<lambda>_.
      bnd join_logging_loop (\<lambda>_.
      executor_shutdown)))"
    have "?rest (?d1, ?w1) = (r, (d', w'))"
      using assms c rc
      by (simp add: GdDeviceBase_teardown_def close_grpc_channel_def
          close_grpc_root_server_channel_def bnd_assoc)
    with emits_only_teardown_rest obtain es' where es': "trace w' = trace ?w1 @ es'"
      unfolding emits_only_def by blast
    let ?es = "[ChannelClose GrpcChannel, ChannelClose GrpcRootServerChannel] @ es'"
    have tr: "trace w' = trace w @ ?es" using es' by simp
    have sig: "\<forall>i < length ?es. is_stop_signal (?es ! i) \<longrightarrow>
        2 \<le> i \<and> take 2 ?es = [ChannelClose GrpcChannel, ChannelClose GrpcRootServerChannel]"
    proof (intro allI impI)
      fix i assume "i < length ?es" "is_stop_signal (?es ! i)"
      then have "i \<noteq> 0" "i \<noteq> 1" by (auto intro: ccontr)
      then show "2 \<le> i \<and> take 2 ?es = [ChannelClose GrpcChannel, ChannelClose GrpcRootServerChannel]"
        by simp
    qed
    have up: "is_set_up d \<longrightarrow>
        take 3 ?es = [ChannelClose GrpcChannel, ChannelClose GrpcRootServerChannel,
                     SendSignal SIGINT] \<and>
        map_option closed (grpc_channel d') = Some True \<and>
        map_option closed (grpc_root_server_channel d') = Some True"
    proof
      assume "is_set_up d"
      then obtain p f ex where a: "backing_process d = Some p"
        "backing_process_logging_future d = Some f" "backing_process_logging_executor d = Some ex"
        by (auto simp: is_set_up_def)
      note T = teardown_run [OF c rc a assms]
      from T(2) tr have "?es = [ChannelClose GrpcChannel, ChannelClose GrpcRootServerChannel] @
           escalation_spec (label d) p (wait_replies w) @
           anomalous_spec (label d) (stop_result_spec p (wait_replies w)) @
           join_spec f (join_replies w) @
           (if r = Returns () then [ExecutorShutdown] else [])" by simp
      then have "take 3 ?es = [ChannelClose GrpcChannel, ChannelClose GrpcRootServerChannel,
                     SendSignal SIGINT]"
        by (simp add: escalation_spec_def)
      then show "take 3 ?es = [ChannelClose GrpcChannel, ChannelClose GrpcRootServerChannel,
                     SendSignal SIGINT] \<and>
        map_option closed (grpc_channel d') = Some True \<and>
        map_option closed (grpc_root_server_channel d') = Some True"
        using T(4,5) by simp
    qed
    show ?thesis using tr sig up by blast
  qed
qed

theorem teardown_closes_channels_first_witness:
  "\<exists>es d' w'. GdDeviceBase_teardown (running_device, quiet_world) = (Returns (), (d', w')) \<and>
     trace w' = es \<and> is_stop_signal (es ! 2) \<and>
     take 3 es = [ChannelClose GrpcChannel, ChannelClose GrpcRootServerChannel, SendSignal 2] \<and>
     map_option closed (grpc_channel d') = Some True \<and>
     map_option closed (grpc_root_server_channel d') = Some True"
proof -
  obtain r d' w' where t: "GdDeviceBase_teardown (running_device, quiet_world) = (r, (d', w'))"
    by (metis prod_cases3)
  have r: "r = Returns ()"
    using teardown_run(1) [OF _ _ _ _ _ t]
    by (simp add: running_device_def quiet_world_def join_outcome_def join_would_raise_def)
  have u: "is_set_up running_device" by (simp add: is_set_up_def running_device_def)
  from teardown_closes_channels_first [OF t] u obtain es where
    "trace w' = trace quiet_world @ es"
    "take 3 es = [ChannelClose GrpcChannel, ChannelClose GrpcRootServerChannel, SendSignal SIGINT]"
    "map_option closed (grpc_channel d') = Some True"
    "map_option closed (grpc_root_server_channel d') = Some True"
    by blast
  moreover from this(2) have "es ! 2 = SendSignal SIGINT"
    by (metis One_nat_def Suc_1 lessI nth_Cons_0 nth_Cons_Suc nth_take numeral_3_eq_3)
  ultimately show ?thesis using t r by (simp add: quiet_world_def SIGINT_def)
qed

text \<open>
  C3, as the spec has it: a second teardown on a handle that has completed teardown
  returns an error instead of running the stop sequence again. The source keeps no
  lifecycle state. Here the worker exits on the interrupt signal and the logging loop
  ends; the second teardown returns normally after closing the channels, sending the
  interrupt signal, waiting, joining and shutting down once more.
\<close>

theorem teardown_twice_counterexample:
  "fst (GdDeviceBase_teardown
          (snd (GdDeviceBase_teardown
             (running_device,
              quiet_world\<lparr>wait_replies := [ProcExits 3 (- 2)], join_replies := [LoopEnds 1]\<rparr>)))) =
     Returns () \<and>
   trace (snd (snd (GdDeviceBase_teardown
          (snd (GdDeviceBase_teardown
             (running_device,
              quiet_world\<lparr>wait_replies := [ProcExits 3 (- 2)], join_replies := [LoopEnds 1]\<rparr>)))))) =
     [ChannelClose GrpcChannel, ChannelClose GrpcRootServerChannel, SendSignal 2,
      ProcWait 100, FutureResult 100, ExecutorShutdown,
      ChannelClose GrpcChannel, ChannelClose GrpcRootServerChannel, SendSignal 2,
      ProcWait 100, FutureResult 100, ExecutorShutdown]"
  by (simp add: teardown_defs prog_defs running_device_def fresh_device_def quiet_world_def)

text \<open>
  C3, amended: teardown keeps no lifecycle state and rejects nothing. A second
  teardown on a device whose first teardown has returned runs the same steps again:
  both channels are closed, the interrupt signal is sent, the exit is awaited and the
  logging loop is joined. Whenever that join raises nothing, and so whenever the loop
  had ended by the first join, the second teardown returns as the first did, having
  shut the executor down.
\<close>

theorem teardown_twice:
  assumes "is_set_up d"
    and "GdDeviceBase_teardown (d, w) = (Returns (), (d1, w1))"
    and "GdDeviceBase_teardown (d1, w1) = (r2, (d2, w2))"
  shows "\<exists>f1 mid. backing_process_logging_future d1 = Some f1 \<and>
     emitted w1 w2 =
       [ChannelClose GrpcChannel, ChannelClose GrpcRootServerChannel, SendSignal SIGINT,
        ProcWait (seconds 10)] @ mid \<and>
     FutureResult (seconds 10) \<in> set mid \<and>
     (join_would_raise f1 (join_replies w1) (seconds 10) = None \<or> finished f1 \<longrightarrow>
        r2 = Returns () \<and> last mid = ExecutorShutdown)"
proof -
  obtain c rc p f ex where a: "grpc_channel d = Some c" "grpc_root_server_channel d = Some rc"
    "backing_process d = Some p"
    "backing_process_logging_future d = Some f" "backing_process_logging_executor d = Some ex"
    using assms(1) by (auto simp: is_set_up_def)
  note T1 = teardown_run [OF a assms(2)]
  obtain p1 f1 where a1: "backing_process d1 = Some p1"
    "backing_process_logging_future d1 = Some f1"
    and fin: "finished f1 \<longrightarrow> raised f1 = None \<or> raised f1 = Some FutureTimeoutError"
    using T1(6,7) by auto
  note T2 = teardown_run [OF T1(4,5) a1 T1(8) assms(3)]
  let ?mid = "tl (tl (escalation_spec (label d1) p1 (wait_replies w1))) @
           anomalous_spec (label d1) (stop_result_spec p1 (wait_replies w1)) @
           join_spec f1 (join_replies w1) @
           (if r2 = Returns () then [ExecutorShutdown] else [])"
  have 1: "emitted w1 w2 =
        [ChannelClose GrpcChannel, ChannelClose GrpcRootServerChannel, SendSignal SIGINT,
         ProcWait (seconds 10)] @ ?mid"
    using T2(2) by (simp add: escalation_spec_def emitted_def)
  have 2: "FutureResult (seconds 10) \<in> set ?mid" by (simp add: join_spec_def)
  have 3: "r2 = Returns () \<longrightarrow> last ?mid = ExecutorShutdown" by simp
  have 4: "join_would_raise f1 (join_replies w1) (seconds 10) = None \<or> finished f1 \<longrightarrow>
      r2 = Returns ()"
    using T2(1) fin by (auto simp: join_outcome_def join_would_raise_def)
  show ?thesis using a1(2) 1 2 3 4 by blast
qed

theorem teardown_twice_witness:
  "is_set_up running_device \<and>
   fst (GdDeviceBase_teardown
     (running_device,
      quiet_world\<lparr>wait_replies := [ProcExits 3 (- 2)], join_replies := [LoopEnds 1]\<rparr>)) =
     Returns () \<and>
   fst (GdDeviceBase_teardown (snd (GdDeviceBase_teardown
     (running_device,
      quiet_world\<lparr>wait_replies := [ProcExits 3 (- 2)], join_replies := [LoopEnds 1]\<rparr>)))) =
     Returns () \<and>
   (\<exists>mid. drop 6 (trace (snd (snd (GdDeviceBase_teardown (snd (GdDeviceBase_teardown
     (running_device,
      quiet_world\<lparr>wait_replies := [ProcExits 3 (- 2)],
                  join_replies := [LoopEnds 1]\<rparr>))))))) =
     [ChannelClose GrpcChannel, ChannelClose GrpcRootServerChannel, SendSignal 2,
      ProcWait 100] @ mid \<and> FutureResult 100 \<in> set mid \<and> last mid = ExecutorShutdown)"
proof -
  let ?w = "quiet_world\<lparr>wait_replies := [ProcExits 3 (- 2)], join_replies := [LoopEnds 1]\<rparr>"
  obtain r1 d1 w1 where t1: "GdDeviceBase_teardown (running_device, ?w) = (r1, (d1, w1))"
    by (metis prod_cases3)
  obtain r2 d2 w2 where t2: "GdDeviceBase_teardown (d1, w1) = (r2, (d2, w2))"
    by (metis prod_cases3)
  have u: "is_set_up running_device" by (simp add: is_set_up_def running_device_def)
  note T1 = teardown_run [OF _ _ _ _ _ t1]
  have r1: "r1 = Returns ()"
    using T1(1) by (simp add: running_device_def quiet_world_def join_outcome_def
        join_would_raise_def)
  have l1: "length (trace w1) = 6"
    using T1(2) r1
    by (simp add: running_device_def fresh_device_def quiet_world_def escalation_spec_def
        wait_would_return_def anomalous_spec_def stop_result_spec_def join_spec_def
        join_would_end_def join_would_raise_def seconds_def SIGINT_def)
  have f1: "\<exists>f1. backing_process_logging_future d1 = Some f1 \<and> finished f1"
    using t1
    by (auto simp: teardown_defs prog_defs running_device_def fresh_device_def
        quiet_world_def)
  from teardown_twice [OF u t1 [unfolded r1] t2] f1 l1
  obtain mid where "drop 6 (trace w2) =
       [ChannelClose GrpcChannel, ChannelClose GrpcRootServerChannel, SendSignal SIGINT,
        ProcWait (seconds 10)] @ mid" "FutureResult (seconds 10) \<in> set mid"
     "r2 = Returns ()" "last mid = ExecutorShutdown"
    by (auto simp: emitted_def)
  then show ?thesis using u t1 t2 r1 by (auto simp: SIGINT_def seconds_def)
qed


section \<open>Setup, step by step\<close>

lemma accept_wait_None_aux: "accept_wait a t = Some y \<Longrightarrow> a \<noteq> None"
  by (rule accept_wait.raw_induct [where P = "\<lambda>a t y. a \<noteq> None"])
     (auto split: if_splits option.splits)

lemma accept_wait_None [simp]: "accept_wait None t = None"
  using accept_wait_None_aux [of None t] by (cases "accept_wait None t") auto

lemma accept_wait_Some [simp]: "accept_wait (Some a) t = Some (max a t)"
proof (induction "a - t" arbitrary: t)
  case 0
  then show ?case by (subst accept_wait.simps) (simp add: max_def)
next
  case (Suc n)
  then have "n = a - Suc t" "t < a" by auto
  then show ?case using Suc(1) [of "Suc t"]
    by (subst accept_wait.simps) (simp add: max_def)
qed

lemmas setup_defs =
  GdDeviceBase_setup_def start_backing_process_def make_ports_available_def
  is_subprocess_alive_def socket_bind_def socket_listen_def socket_accept_def
  with_socket_def popen_backing_process_def submit_logging_loop_def
  open_grpc_root_server_channel_def open_grpc_channel_def assert_true_def

lemma start_backing_process_run:
  "with_socket start_backing_process (d, w) =
     (if \<not> next_alive w then
        (Raises (TestFailure (StoppedImmediately (cmd d))),
         (d\<lparr>backing_process := Some \<lparr>args = cmd d, returncode = None\<rparr>\<rparr>,
          w\<lparr>trace := trace w @ [SocketBind (signal_port d),
                SocketListen 1, Popen (cmd d), SocketClose],
            alive_replies := tl (alive_replies w)\<rparr>))
      else case next_arrival w of
        None \<Rightarrow>
          (Hangs,
           (d\<lparr>backing_process := Some \<lparr>args = cmd d, returncode = None\<rparr>\<rparr>,
            w\<lparr>trace := trace w @ [SocketBind (signal_port d), SocketListen 1, Popen (cmd d),
                  SocketAccept],
              alive_replies := tl (alive_replies w),
              handshake_replies := tl (handshake_replies w)\<rparr>))
      | Some t \<Rightarrow>
          (Returns (),
           (d\<lparr>backing_process := Some \<lparr>args = cmd d, returncode = None\<rparr>\<rparr>,
            w\<lparr>trace := trace w @ [SocketBind (signal_port d), SocketListen 1, Popen (cmd d),
                  SocketAccept, SocketClose],
              alive_replies := tl (alive_replies w),
              handshake_replies := tl (handshake_replies w),
              now := now w + t\<rparr>)))"
  by (simp add: with_socket_def start_backing_process_def is_subprocess_alive_def
      socket_bind_def socket_listen_def socket_accept_def popen_backing_process_def
      assert_true_def bnd_assoc next_alive_def next_arrival_def
      split: list.splits option.splits)


lemma base_setup_run:
  "GdDeviceBase_setup (d, w) =
     (if signal_port d \<in> set (busy_ports w) then
        (Raises (TestFailure (SignalPortUnavailable (label d))),
         (d, w\<lparr>trace := trace w @ [MakePortsAvailable [signal_port d]]\<rparr>))
      else if \<not> next_alive w then
        (Raises (TestFailure (StoppedImmediately (cmd d))),
         (d\<lparr>backing_process := Some \<lparr>args = cmd d, returncode = None\<rparr>\<rparr>,
          w\<lparr>trace := trace w @ [MakePortsAvailable [signal_port d], SocketBind (signal_port d),
                SocketListen 1, Popen (cmd d), SocketClose],
            alive_replies := tl (alive_replies w)\<rparr>))
      else case next_arrival w of
        None \<Rightarrow>
          (Hangs,
           (d\<lparr>backing_process := Some \<lparr>args = cmd d, returncode = None\<rparr>\<rparr>,
            w\<lparr>trace := trace w @ [MakePortsAvailable [signal_port d],
                  SocketBind (signal_port d), SocketListen 1, Popen (cmd d), SocketAccept],
              alive_replies := tl (alive_replies w),
              handshake_replies := tl (handshake_replies w)\<rparr>))
      | Some t \<Rightarrow>
          (Returns (),
           (d\<lparr>backing_process := Some \<lparr>args = cmd d, returncode = None\<rparr>,
              backing_process_logging_executor := Some (),
              backing_process_logging_future := Some \<lparr>finished = False, raised = None\<rparr>,
              grpc_root_server_channel :=
                Some \<lparr>target_port = grpc_root_server_port d, closed = False\<rparr>,
              grpc_channel := Some \<lparr>target_port = grpc_port d, closed = False\<rparr>\<rparr>,
            w\<lparr>trace := trace w @ [MakePortsAvailable [signal_port d],
                  SocketBind (signal_port d), SocketListen 1, Popen (cmd d), SocketAccept,
                  SocketClose, SubmitLoggingLoop,
                  InsecureChannel GrpcRootServerChannel (grpc_root_server_port d),
                  InsecureChannel GrpcChannel (grpc_port d)],
              alive_replies := tl (alive_replies w),
              handshake_replies := tl (handshake_replies w),
              now := now w + t\<rparr>)))"
  by (simp add: GdDeviceBase_setup_def make_ports_available_def assert_true_def bnd_assoc
      bnd_def [of "with_socket start_backing_process"] start_backing_process_run
      submit_logging_loop_def open_grpc_root_server_channel_def open_grpc_channel_def
      next_alive_def next_arrival_def
      split: list.splits option.splits)


section \<open>The claims about setup\<close>

text \<open>
  C1, as the spec has it: when no connection arrives on the handshake socket within
  10 s, the worker is killed and the start fails with a startup timeout instead of
  blocking. The accept of the source has no timeout. With a worker that never connects,
  setup never returns, and its last call is the accept: nothing kills the worker. With
  a worker that connects after 15 s, setup returns normally.
\<close>

theorem setup_handshake_timeout_counterexample:
  "fst (GdDeviceBase_setup (fresh_device, quiet_world\<lparr>handshake_replies := [None]\<rparr>)) = Hangs \<and>
   trace (snd (snd (GdDeviceBase_setup
       (fresh_device, quiet_world\<lparr>handshake_replies := [None]\<rparr>)))) =
     [MakePortsAvailable [8894], SocketBind 8894, SocketListen 1, Popen (cmd fresh_device),
      SocketAccept] \<and>
   fst (GdDeviceBase_setup (fresh_device, quiet_world\<lparr>handshake_replies := [Some 150]\<rparr>)) =
     Returns () \<and>
   trace (snd (snd (GdDeviceBase_setup
       (fresh_device, quiet_world\<lparr>handshake_replies := [Some 150]\<rparr>)))) =
     [MakePortsAvailable [8894], SocketBind 8894, SocketListen 1, Popen (cmd fresh_device),
      SocketAccept, SocketClose, SubmitLoggingLoop, InsecureChannel GrpcRootServerChannel 8898,
      InsecureChannel GrpcChannel 8899]"
  by (simp add: base_setup_run next_arrival_def next_alive_def quiet_world_def fresh_device_def)

text \<open>
  C1, amended: the wait for the handshake connection has no timeout. With the signal
  port available and the worker alive after the spawn, setup returns exactly when the
  connection arrives, however late, and then the device is set up; when no connection
  ever arrives setup blocks for ever. In neither case does setup send a stop signal
  to the worker.
\<close>

theorem setup_waits_without_timeout:
  assumes "signal_port d \<notin> set (busy_ports w)" and "next_alive w"
    and "GdDeviceBase_setup (d, w) = (r, (d', w'))"
  shows "(case next_arrival w of
            None \<Rightarrow> r = Hangs
          | Some t \<Rightarrow> r = Returns () \<and> now w' = now w + t \<and> is_set_up d') \<and>
         list_all (\<lambda>e. \<not> is_stop_signal e) (emitted w w')"
  using assms
  by (auto simp: base_setup_run emitted_def is_set_up_def split: option.splits)

theorem setup_waits_without_timeout_witness:
  "signal_port fresh_device \<notin> set (busy_ports (quiet_world\<lparr>handshake_replies := [Some 150]\<rparr>)) \<and>
   next_alive (quiet_world\<lparr>handshake_replies := [Some 150]\<rparr>) \<and>
   fst (GdDeviceBase_setup (fresh_device, quiet_world\<lparr>handshake_replies := [Some 150]\<rparr>)) =
     Returns () \<and>
   now (snd (snd (GdDeviceBase_setup
     (fresh_device, quiet_world\<lparr>handshake_replies := [Some 150]\<rparr>)))) = 150 \<and>
   fst (snd (GdDeviceBase_setup (fresh_device, quiet_world\<lparr>handshake_replies := [Some 150]\<rparr>))) =
     running_device"
proof -
  let ?w = "quiet_world\<lparr>handshake_replies := [Some 150]\<rparr>"
  obtain r d' w' where s: "GdDeviceBase_setup (fresh_device, ?w) = (r, (d', w'))"
    by (metis prod_cases3)
  have a: "signal_port fresh_device \<notin> set (busy_ports ?w)" "next_alive ?w"
    by (simp_all add: quiet_world_def fresh_device_def next_alive_def)
  have n: "next_arrival ?w = Some 150" by (simp add: next_arrival_def)
  from setup_waits_without_timeout [OF a s] n
  have "r = Returns ()" "now w' = now ?w + 150" by simp_all
  moreover have "d' = running_device"
    using s by (auto simp: base_setup_run next_arrival_def next_alive_def quiet_world_def
        running_device_def fresh_device_def)
  ultimately show ?thesis using a s by (simp add: quiet_world_def)
qed

section \<open>The claim about create\<close>

text \<open>
  C9. \<open>create\<close> rejects invalid input before it constructs a device: it raises when
  the configuration is empty and raises when the configuration is not a list, and in
  both cases the world is as it was, so no constructor and no setup has run.
\<close>

theorem create_rejects_invalid_configs:
  "(\<not> truthy configs \<longrightarrow>
      create configs w = (Raises (PyException ''Configuration is empty''), w)) \<and>
   (truthy configs \<and> \<not> is_list configs \<longrightarrow>
      create configs w = (Raises (PyException ''Configuration should be a list''), w)) \<and>
   (\<not> truthy configs \<or> \<not> is_list configs \<longrightarrow>
      (\<exists>msg. create configs w = (Raises (PyException msg), w)))"
  by (simp add: create_def)

theorem create_rejects_invalid_configs_witness:
  "\<not> truthy (PyList []) \<and>
   create (PyList []) quiet_world =
     (Raises (PyException ''Configuration is empty''), quiet_world) \<and>
   truthy (PyDict [(''cmd'', PyList [])]) \<and> \<not> is_list (PyDict [(''cmd'', PyList [])]) \<and>
   create (PyDict [(''cmd'', PyList [])]) quiet_world =
     (Raises (PyException ''Configuration should be a list''), quiet_world)"
  using create_rejects_invalid_configs [of "PyList []" quiet_world]
    create_rejects_invalid_configs [of "PyDict [(''cmd'', PyList [])]" quiet_world]
  by simp

section \<open>The claim about the logging loop\<close>

lemma logging_lines_append:
  "logging_lines self (xs @ ys) st = logging_lines self ys (logging_lines self xs st)"
  by (induction xs arbitrary: st) simp_all

lemma file_write_content:
  "on_disk (file_write s f) @ pending (file_write s f) = on_disk f @ pending f @ s"
  by (simp add: file_write_def Let_def)

lemma logging_lines_content:
  "on_disk (fst (logging_lines self ls st)) @ pending (fst (logging_lines self ls st)) =
   on_disk (fst st) @ pending (fst st) @ concat ls"
proof (induction ls arbitrary: st)
  case Nil
  then show ?case by simp
next
  case (Cons l ls)
  obtain f out where st: "st = (f, out)" by (cases st)
  show ?case
    using Cons [of "logging_step self l st"] file_write_content [of l f]
    by (simp add: st logging_step_def)
qed

text \<open>
  C2, as the spec has it: every line read is appended to the log file and the file is
  flushed per line, so that every line already read is in the file at any point. The
  loop only writes; after the first of two lines has been read, the file is still
  empty and the line sits in the buffer of the file object.
\<close>

theorem logging_loop_flush_counterexample:
  "on_disk (fst (logging_lines fresh_device (take 1 [''a\<newline>'', ''b\<newline>'']) (open_w, []))) = [] \<and>
   pending (fst (logging_lines fresh_device (take 1 [''a\<newline>'', ''b\<newline>'']) (open_w, []))) =
     ''a\<newline>''"
  by (simp add: logging_step_def file_write_def open_w_def DEFAULT_BUFFER_SIZE_def)

text \<open>
  C2, amended: every line read is written to the log file object, in the order
  received, but the file is not flushed per line: at any point, what is in the file
  followed by what is in the buffer is the lines read so far, in order; once the stream
  has ended and the file is closed, the file holds all the lines, in order.
\<close>

theorem logging_loop_writes_in_order:
  "(\<forall>k \<le> length lines.
      on_disk (fst (logging_lines self (take k lines) (open_w, []))) @
      pending (fst (logging_lines self (take k lines) (open_w, []))) = concat (take k lines)) \<and>
   on_disk (fst (backing_process_logging_loop self lines)) = concat lines \<and>
   pending (fst (backing_process_logging_loop self lines)) = []"
proof -
  have "on_disk (fst (backing_process_logging_loop self lines)) =
      on_disk (fst (logging_lines self lines (open_w, []))) @
      pending (fst (logging_lines self lines (open_w, [])))"
    by (simp add: backing_process_logging_loop_def file_close_def split: prod.splits)
  moreover have "pending (fst (backing_process_logging_loop self lines)) = []"
    by (simp add: backing_process_logging_loop_def file_close_def split: prod.splits)
  ultimately show ?thesis
    by (simp add: logging_lines_content open_w_def)
qed

theorem logging_loop_writes_in_order_witness:
  "(1::nat) \<le> length [''a\<newline>'', ''b\<newline>''] \<and>
   on_disk (fst (logging_lines fresh_device (take 1 [''a\<newline>'', ''b\<newline>'']) (open_w, []))) @
   pending (fst (logging_lines fresh_device (take 1 [''a\<newline>'', ''b\<newline>'']) (open_w, []))) =
     ''a\<newline>'' \<and>
   on_disk (fst (backing_process_logging_loop fresh_device [''a\<newline>'', ''b\<newline>''])) =
     ''a\<newline>b\<newline>''"
proof -
  note T = logging_loop_writes_in_order [of "[''a\<newline>'', ''b\<newline>'']" fresh_device]
  from T have
    "on_disk (fst (logging_lines fresh_device (take 1 [''a\<newline>'', ''b\<newline>'']) (open_w, []))) @
     pending (fst (logging_lines fresh_device (take 1 [''a\<newline>'', ''b\<newline>'']) (open_w, []))) =
     concat (take 1 [''a\<newline>'', ''b\<newline>''])"
    by (elim conjE allE [of _ 1]) simp
  then show ?thesis using T by simp
qed


section \<open>Actions that leave the device and a view of the world alone\<close>

lemma keepsI:
  "(\<And>d w r d' w'. m (d, w) = (r, (d', w')) \<Longrightarrow> r \<noteq> Hangs \<and> d' = d \<and> g w' = g w) \<Longrightarrow>
   keeps g m"
  unfolding keeps_def by blast

lemma keepsD:
  "keeps g m \<Longrightarrow> m (d, w) = (r, (d', w')) \<Longrightarrow> r \<noteq> Hangs \<and> d' = d \<and> g w' = g w"
  unfolding keeps_def by blast

lemma keeps_ret [simp]: "keeps g (ret x)"
  by (simp add: keeps_def)

lemma keeps_raise [simp]: "keeps g (raise e)"
  by (simp add: keeps_def)

lemma keeps_get [simp]: "keeps g (get f)"
  by (simp add: keeps_def get_def)

lemma keeps_ask [simp]: "keeps g (ask f)"
  by (simp add: keeps_def)

lemma keeps_attr [simp]: "keeps g (attr f nm)"
  by (auto simp: keeps_def attr_def split: option.splits)

lemma keeps_assert_true [simp]: "keeps g (assert_true c msg)"
  by (simp add: assert_true_def)

lemma keeps_emit: "(\<And>w t. g (w\<lparr>trace := t\<rparr>) = g w) \<Longrightarrow> keeps g (emit e)"
  by (simp add: keeps_def)

lemma keeps_advance: "(\<And>w t. g (w\<lparr>now := t\<rparr>) = g w) \<Longrightarrow> keeps g (advance n)"
  by (simp add: keeps_def)

lemma keeps_take_reply: "(\<And>w. g (upd tl w) = g w) \<Longrightarrow> keeps g (take_reply sel upd dflt)"
  by (simp add: keeps_def take_reply_def)

lemma keeps_bnd:
  assumes "keeps g m" "\<And>x. keeps g (f x)"
  shows "keeps g (bnd m f)"
proof (rule keepsI)
  fix d w r d' w'
  assume b: "bnd m f (d, w) = (r, (d', w'))"
  obtain r1 d1 w1 where m: "m (d, w) = (r1, (d1, w1))" by (metis prod_cases3)
  note k1 = keepsD [OF assms(1) m]
  show "r \<noteq> Hangs \<and> d' = d \<and> g w' = g w"
  proof (cases r1)
    case (Returns x)
    then have "f x (d1, w1) = (r, (d', w'))" using b m by (simp add: bnd_def)
    from keepsD [OF assms(2) this] k1 show ?thesis by simp
  next
    case (Raises e)
    then show ?thesis using b m k1 by (auto simp: bnd_def)
  next
    case Hangs
    then show ?thesis using k1 by simp
  qed
qed

lemma keeps_try_except:
  assumes "keeps g m" "\<And>e. keeps g (h e)"
  shows "keeps g (try_except m c h)"
proof (rule keepsI)
  fix d w r d' w'
  assume b: "try_except m c h (d, w) = (r, (d', w'))"
  obtain r1 d1 w1 where m: "m (d, w) = (r1, (d1, w1))" by (metis prod_cases3)
  note k1 = keepsD [OF assms(1) m]
  show "r \<noteq> Hangs \<and> d' = d \<and> g w' = g w"
  proof (cases r1)
    case (Returns x)
    then show ?thesis using b m k1 by (auto simp: try_except_def)
  next
    case (Raises e)
    show ?thesis
    proof (cases "c e")
      case True
      then have "h e (d1, w1) = (r, (d', w'))" using b m Raises by (simp add: try_except_def)
      from keepsD [OF assms(2) this] k1 show ?thesis by simp
    next
      case False
      then show ?thesis using b m k1 Raises by (auto simp: try_except_def)
    qed
  next
    case Hangs
    then show ?thesis using k1 by simp
  qed
qed

lemma keeps_if:
  "(c \<Longrightarrow> keeps g a) \<Longrightarrow> (\<not> c \<Longrightarrow> keeps g b) \<Longrightarrow> keeps g (if c then a else b)"
  by simp

lemma keeps_case_option:
  "keeps g a \<Longrightarrow> (\<And>x. keeps g (b x)) \<Longrightarrow> keeps g (case v of None \<Rightarrow> a | Some x \<Rightarrow> b x)"
  by (cases v) simp_all

lemma keeps_case_nat:
  "keeps g a \<Longrightarrow> (\<And>x. keeps g (b x)) \<Longrightarrow> keeps g (case v of 0 \<Rightarrow> a | Suc x \<Rightarrow> b x)"
  by (cases v) simp_all

lemma keeps_case_port:
  "(\<And>x. keeps g (a x)) \<Longrightarrow> (\<And>x. keeps g (b x)) \<Longrightarrow>
   keeps g (case v of PInt x \<Rightarrow> a x | PStr x \<Rightarrow> b x)"
  by (cases v) simp_all

lemma keeps_port_view: "keeps mapping_view m \<Longrightarrow> keeps port_view m"
  by (simp add: keeps_def mapping_view_def)

lemma mapping_view_simps [simp]:
  "mapping_view (w\<lparr>trace := t\<rparr>) = mapping_view w"
  "mapping_view (w\<lparr>now := n\<rparr>) = mapping_view w"
  "mapping_view (ensure_root_replies_update f w) = mapping_view w"
  "mapping_view (getprop_replies_update f1 w) = mapping_view w"
  "mapping_view (get_state_replies_update f2 w) = mapping_view w"
  "mapping_view (shell_replies_update f3 w) = mapping_view w"
  "mapping_view (push_replies_update f4 w) = mapping_view w"
  by (simp_all add: mapping_view_def port_view_def)

lemma port_view_simps [simp]:
  "port_view (w\<lparr>trace := t\<rparr>) = port_view w"
  "port_view (w\<lparr>now := n\<rparr>) = port_view w"
  "port_view (forward_replies_update f w) = port_view w"
  "port_view (reverse_replies_update f1 w) = port_view w"
  by (simp_all add: port_view_def)

lemmas keeps_intros =
  keeps_bnd keeps_try_except keeps_if keeps_case_option keeps_case_nat keeps_case_port
  keeps_emit keeps_advance keeps_take_reply

lemma keeps_adb_ensure_root [simp]: "keeps mapping_view adb_ensure_root"
  unfolding adb_ensure_root_def by (intro keeps_intros; simp)

lemma keeps_adb_getprop [simp]: "keeps mapping_view (adb_getprop p)"
  unfolding adb_getprop_def by (intro keeps_intros; simp)

lemma keeps_adb_get_state [simp]: "keeps mapping_view adb_get_state"
  unfolding adb_get_state_def by (intro keeps_intros; simp)

lemma keeps_adb_shell [simp]: "keeps mapping_view (adb_shell c)"
  unfolding adb_shell_def by (intro keeps_intros; simp)

lemma keeps_adb_push [simp]: "keeps mapping_view (adb_push a b t)"
  unfolding adb_push_def by (intro keeps_intros; simp)

lemma keeps_sleep [simp]: "keeps mapping_view (sleep n)"
  unfolding sleep_def by (intro keeps_intros; simp)

lemma keeps_time_time [simp]: "keeps g time_time"
  by (simp add: time_time_def)

lemma keeps_boot_completed [simp]: "keeps mapping_view boot_completed"
  unfolding boot_completed_def by (intro keeps_intros; simp)


lemma sleep_run: "sleep n (d, w) = (Returns (), (d, w\<lparr>trace := trace w @ [Sleep n], now := now w + n\<rparr>))"
  by (simp add: sleep_def)

lemma boot_completion_loop_rel:
  assumes refl: "\<And>s. R s s" and trans: "\<And>a b c. R a b \<Longrightarrow> R b c \<Longrightarrow> R a c"
    and probe: "\<And>s r s'. boot_completed s = (r, s') \<Longrightarrow> (\<exists>b. r = Returns b) \<and> R s s'"
    and nap: "\<And>d w. R (d, w)
               (d, w\<lparr>trace := trace w @ [Sleep (seconds 5)], now := now w + seconds 5\<rparr>)"
    and run: "boot_completion_loop deadline s = (r, s')"
  shows "(\<exists>b. r = Returns b) \<and> R s s'"
  using run
proof (induction deadline s arbitrary: r s' rule: boot_completion_loop.induct)
  case (1 deadline d w)
  show ?case
  proof (cases "int (now w) < deadline")
    case False
    then show ?thesis using "1.prems" refl by auto
  next
    case True
    obtain r1 d1 w1 where b: "boot_completed (d, w) = (r1, (d1, w1))" by (metis prod_cases3)
    note k = probe [OF b]
    show ?thesis
    proof (cases r1)
      case (Returns fin)
      show ?thesis
      proof (cases fin)
        case True
        then show ?thesis using "1.prems" \<open>int (now w) < deadline\<close> b Returns k by auto
      next
        case False
        let ?w2 = "w1\<lparr>trace := trace w1 @ [Sleep (seconds 5)], now := now w1 + seconds 5\<rparr>"
        have "boot_completion_loop deadline (d1, ?w2) = (r, s')"
          using "1.prems" \<open>int (now w) < deadline\<close> b Returns False by (simp add: sleep_run)
        with "1.IH" [OF \<open>int (now w) < deadline\<close>, of "Returns fin" "(d1, w1)" fin
            "Returns ()" "(d1, ?w2)" "()" d1 ?w2 r s'] b Returns False
        have "(\<exists>b. r = Returns b) \<and> R (d1, ?w2) s'" by (simp add: sleep_run)
        then show ?thesis using k nap [of d1 w1] trans by blast
      qed
    next
      case (Raises e)
      then show ?thesis using "1.prems" True b k by auto
    next
      case Hangs
      then show ?thesis using k by simp
    qed
  qed
qed

lemma reboot_wait_loop_rel:
  assumes refl: "\<And>s. R s s" and trans: "\<And>a b c. R a b \<Longrightarrow> R b c \<Longrightarrow> R a c"
    and probe: "\<And>s r s'. adb_get_state s = (r, s') \<Longrightarrow>
               (r = Returns () \<or> r = Raises AdbError) \<and> R s s'"
    and nap: "\<And>d w. R (d, w) (d, w\<lparr>trace := trace w @ [Sleep 1], now := now w + 1\<rparr>)"
    and run: "reboot_wait_loop deadline s = (r, s')"
  shows "r = Returns () \<and> R s s'"
  using run
proof (induction deadline s arbitrary: r s' rule: reboot_wait_loop.induct)
  case (1 deadline d w)
  show ?case
  proof (cases "int (now w) < deadline")
    case False
    then show ?thesis using "1.prems" refl by auto
  next
    case True
    obtain r1 d1 w1 where b: "adb_get_state (d, w) = (r1, (d1, w1))" by (metis prod_cases3)
    note k = probe [OF b]
    show ?thesis
    proof (cases r1)
      case (Returns u)
      let ?w2 = "w1\<lparr>trace := trace w1 @ [Sleep 1], now := now w1 + 1\<rparr>"
      have "reboot_wait_loop deadline (d1, ?w2) = (r, s')"
        using "1.prems" \<open>int (now w) < deadline\<close> b Returns by (simp add: sleep_run)
      with "1.IH" [OF \<open>int (now w) < deadline\<close>, of "Returns u" "(d1, w1)" u
          "Returns ()" "(d1, ?w2)" "()" d1 ?w2 r s'] b Returns
      have "r = Returns () \<and> R (d1, ?w2) s'" by (simp add: sleep_run)
      then show ?thesis using k nap [of d1 w1] trans by blast
    next
      case (Raises e)
      then show ?thesis using "1.prems" True b k by (auto split: if_splits)
    next
      case Hangs
      then show ?thesis using k by simp
    qed
  qed
qed

lemma boot_completed_returns: "boot_completed s = (r, s') \<Longrightarrow> \<exists>b. r = Returns b"
  by (cases s)
     (auto simp: boot_completed_def adb_getprop_def try_except_def bnd_assoc
       split: option.splits list.splits)

lemma adb_get_state_outcome:
  "adb_get_state s = (r, s') \<Longrightarrow> r = Returns () \<or> r = Raises AdbError"
  by (cases s) (auto simp: adb_get_state_def split: if_splits)

lemma boot_completed_keeps:
  "boot_completed s = (r, s') \<Longrightarrow>
   (\<exists>b. r = Returns b) \<and> fst s' = fst s \<and> mapping_view (snd s') = mapping_view (snd s)"
  using keepsD [OF keeps_boot_completed, of "fst s" "snd s" r "fst s'" "snd s'"]
    boot_completed_returns [of s r s']
  by simp

lemma adb_get_state_keeps:
  "adb_get_state s = (r, s') \<Longrightarrow>
   (r = Returns () \<or> r = Raises AdbError) \<and> fst s' = fst s \<and>
   mapping_view (snd s') = mapping_view (snd s)"
  using keepsD [OF keeps_adb_get_state, of "fst s" "snd s" r "fst s'" "snd s'"]
    adb_get_state_outcome [of s r s']
  by simp

lemma keeps_boot_completion_loop [simp]: "keeps mapping_view (boot_completion_loop deadline)"
proof (rule keepsI)
  fix d w r d' w'
  assume run: "boot_completion_loop deadline (d, w) = (r, (d', w'))"
  have "(\<exists>b. r = Returns b) \<and>
      fst (d', w') = fst (d, w) \<and> mapping_view (snd (d', w')) = mapping_view (snd (d, w))"
    by (rule boot_completion_loop_rel
        [where R = "\<lambda>s s'. fst s' = fst s \<and> mapping_view (snd s') = mapping_view (snd s)", OF _ _ _ _ run])
       (use boot_completed_keeps in auto)
  then show "r \<noteq> Hangs \<and> d' = d \<and> mapping_view w' = mapping_view w" by auto
qed

lemma keeps_reboot_wait_loop [simp]: "keeps mapping_view (reboot_wait_loop deadline)"
proof (rule keepsI)
  fix d w r d' w'
  assume run: "reboot_wait_loop deadline (d, w) = (r, (d', w'))"
  have "r = Returns () \<and>
      fst (d', w') = fst (d, w) \<and> mapping_view (snd (d', w')) = mapping_view (snd (d, w))"
    by (rule reboot_wait_loop_rel
        [where R = "\<lambda>s s'. fst s' = fst s \<and> mapping_view (snd s') = mapping_view (snd s)", OF _ _ _ _ run])
       (use adb_get_state_keeps in auto)
  then show "r \<noteq> Hangs \<and> d' = d \<and> mapping_view w' = mapping_view w" by auto
qed

lemma keeps_wait_for_boot_completion [simp]: "keeps mapping_view (wait_for_boot_completion t)"
  unfolding wait_for_boot_completion_def by (intro keeps_intros; simp)

lemma keeps_reboot [simp]: "keeps mapping_view (reboot t)"
  unfolding reboot_def by (intro keeps_intros; simp)

lemma keeps_ensure_verity_disabled [simp]: "keeps mapping_view ensure_verity_disabled"
  unfolding ensure_verity_disabled_def by (intro keeps_intros; simp)

lemma keeps_push_or_die [simp]: "keeps mapping_view (push_or_die a b t)"
  unfolding push_or_die_def by (intro keeps_intros; simp)

lemma keeps_ensure_no_output [simp]: "keeps g (ensure_no_output out)"
  by (simp add: ensure_no_output_def)

lemma keeps_gd_root_path [simp]: "keeps g (gd_root_path f)"
  by (simp add: gd_root_path_def)

lemma keeps_adb_tcp_forward [simp]: "keeps port_view (adb_tcp_forward h p)"
  unfolding adb_tcp_forward_def by (intro keeps_intros; simp)

lemma keeps_adb_reverse [simp]: "keeps port_view (adb_reverse h p)"
  unfolding adb_reverse_def by (intro keeps_intros; simp)

declare tcp_forward_or_die.simps [simp del] tcp_reverse_or_die.simps [simp del]

lemmas keeps_port_view_simps [simp] =
  keeps_port_view [OF keeps_reboot] keeps_port_view [OF keeps_ensure_verity_disabled]
  keeps_port_view [OF keeps_push_or_die] keeps_port_view [OF keeps_adb_ensure_root]
  keeps_port_view [OF keeps_adb_shell]

lemma keeps_tcp_forward_or_die [simp]: "keeps port_view (tcp_forward_or_die h p n)"
proof (induction n)
  case 0
  show ?case
    by (subst tcp_forward_or_die.simps, simp only: nat.case) (intro keeps_intros; simp)
next
  case (Suc n)
  show ?case
    by (subst tcp_forward_or_die.simps, simp only: nat.case) (intro keeps_intros; simp add: Suc)
qed

lemma keeps_tcp_reverse_or_die [simp]: "keeps port_view (tcp_reverse_or_die h p n)"
proof (induction n)
  case 0
  show ?case
    by (subst tcp_reverse_or_die.simps, simp only: nat.case) (intro keeps_intros; simp)
next
  case (Suc n)
  show ?case
    by (subst tcp_reverse_or_die.simps, simp only: nat.case) (intro keeps_intros; simp add: Suc)
qed

lemma keeps_android_bringup: "keeps port_view android_bringup"
  unfolding android_bringup_def by (intro keeps_intros; simp)


section \<open>What the bringup records\<close>

lemma emits_onlyD:
  "emits_only P m \<Longrightarrow> m (d, w) = (r, (d', w')) \<Longrightarrow>
   \<exists>es. trace w' = trace w @ es \<and> list_all P es"
  unfolding emits_only_def by blast

lemma emits_only_mono: "emits_only P m \<Longrightarrow> (\<And>e. P e \<Longrightarrow> Q e) \<Longrightarrow> emits_only Q m"
  unfolding emits_only_def by (meson list.pred_mono_strong)

lemma emits_only_case_nat:
  "emits_only P a \<Longrightarrow> (\<And>x. emits_only P (b x)) \<Longrightarrow>
   emits_only P (case v of 0 \<Rightarrow> a | Suc x \<Rightarrow> b x)"
  by (cases v) simp_all

lemma emits_only_case_port:
  "(\<And>x. emits_only P (a x)) \<Longrightarrow> (\<And>x. emits_only P (b x)) \<Longrightarrow>
   emits_only P (case v of PInt x \<Rightarrow> a x | PStr x \<Rightarrow> b x)"
  by (cases v) simp_all

lemmas emits_intros = emits_only_intros emits_only_case_nat emits_only_case_port

lemma probe_is_bringup: "is_probe_event e \<Longrightarrow> is_bringup_event e"
  by (cases e) simp_all

lemma emits_probe_adb_getprop [simp]: "emits_only is_probe_event (adb_getprop p)"
  unfolding adb_getprop_def by (intro emits_intros; simp)

lemma emits_probe_adb_get_state [simp]: "emits_only is_probe_event adb_get_state"
  unfolding adb_get_state_def by (intro emits_intros; simp)

lemma emits_probe_sleep [simp]: "emits_only is_probe_event (sleep n)"
  unfolding sleep_def by (intro emits_intros; simp)

lemma emits_only_time_time [simp]: "emits_only P time_time"
  by (simp add: time_time_def)

lemma emits_probe_boot_completed [simp]: "emits_only is_probe_event boot_completed"
  unfolding boot_completed_def by (intro emits_intros; simp)

lemma emits_probe_boot_completion_loop [simp]:
  "emits_only is_probe_event (boot_completion_loop deadline)"
  unfolding emits_only_def
proof (intro allI impI)
  fix d w r d' w'
  assume run: "boot_completion_loop deadline (d, w) = (r, (d', w'))"
  have "(\<exists>b. r = Returns b) \<and>
      (\<exists>es. trace (snd (d', w')) = trace (snd (d, w)) @ es \<and> list_all is_probe_event es)"
  proof (rule boot_completion_loop_rel
      [where R = "\<lambda>s s'. \<exists>es. trace (snd s') = trace (snd s) @ es \<and> list_all is_probe_event es",
        OF _ _ _ _ run], goal_cases)
    case (1 s)
    show ?case by simp
  next
    case (2 a b c)
    then obtain e1 e2 where "trace (snd b) = trace (snd a) @ e1" "list_all is_probe_event e1"
      "trace (snd c) = trace (snd b) @ e2" "list_all is_probe_event e2" by blast
    then show ?case by (intro exI [of _ "e1 @ e2"]) simp
  next
    case (3 s r s')
    then show ?case
      using emits_onlyD [OF emits_probe_boot_completed, of "fst s" "snd s" r "fst s'" "snd s'"]
        boot_completed_returns [of s r s'] by simp
  next
    case (4 d w)
    show ?case by simp
  qed
  then show "\<exists>es. trace w' = trace w @ es \<and> list_all is_probe_event es" by simp
qed

lemma emits_probe_reboot_wait_loop [simp]:
  "emits_only is_probe_event (reboot_wait_loop deadline)"
  unfolding emits_only_def
proof (intro allI impI)
  fix d w r d' w'
  assume run: "reboot_wait_loop deadline (d, w) = (r, (d', w'))"
  have "r = Returns () \<and>
      (\<exists>es. trace (snd (d', w')) = trace (snd (d, w)) @ es \<and> list_all is_probe_event es)"
  proof (rule reboot_wait_loop_rel
      [where R = "\<lambda>s s'. \<exists>es. trace (snd s') = trace (snd s) @ es \<and> list_all is_probe_event es",
        OF _ _ _ _ run], goal_cases)
    case (1 s)
    show ?case by simp
  next
    case (2 a b c)
    then obtain e1 e2 where "trace (snd b) = trace (snd a) @ e1" "list_all is_probe_event e1"
      "trace (snd c) = trace (snd b) @ e2" "list_all is_probe_event e2" by blast
    then show ?case by (intro exI [of _ "e1 @ e2"]) simp
  next
    case (3 s r s')
    then show ?case
      using emits_onlyD [OF emits_probe_adb_get_state, of "fst s" "snd s" r "fst s'" "snd s'"]
        adb_get_state_outcome [of s r s'] by simp
  next
    case (4 d w)
    show ?case by simp
  qed
  then show "\<exists>es. trace w' = trace w @ es \<and> list_all is_probe_event es" by simp
qed

lemma emits_probe_wait_for_boot_completion [simp]:
  "emits_only is_probe_event (wait_for_boot_completion t)"
  unfolding wait_for_boot_completion_def by (intro emits_intros; simp)

lemma boot_completion_loop_returns:
  "boot_completion_loop deadline s = (r, s') \<Longrightarrow> \<exists>b. r = Returns b"
  using boot_completion_loop_rel [where R = "\<lambda>s s'. True" and s = s and r = r and s' = s'
      and deadline = deadline] boot_completed_returns
  by blast

lemma reboot_wait_loop_returns:
  "reboot_wait_loop deadline s = (r, s') \<Longrightarrow> r = Returns ()"
  using reboot_wait_loop_rel [where R = "\<lambda>s s'. True" and s = s and r = r and s' = s'
      and deadline = deadline] adb_get_state_outcome
  by blast

text \<open>How the reboot sub-protocol can end.\<close>

lemma wait_for_boot_completion_outcome:
  assumes "wait_for_boot_completion t s = (r, s')"
  shows "r = Returns () \<or> (\<exists>sn. r = Raises (TestFailure (BootTimedOut sn))) \<or>
     r = Raises (AttributeError ''serial_number'')"
proof -
  obtain d w where s: "s = (d, w)" by (cases s)
  let ?s1 = "(d, w\<lparr>trace := trace w @ [Adb (AdbWaitForDevice WAIT_FOR_DEVICE_TIMEOUT_SECONDS)]\<rparr>)"
  obtain r1 d1 w1 where l: "boot_completion_loop (int (now w) + t) ?s1 = (r1, (d1, w1))"
    by (metis prod_cases3)
  from boot_completion_loop_returns [OF l] obtain b where "r1 = Returns b" by blast
  then show ?thesis
    using assms l
    by (auto simp: s wait_for_boot_completion_def time_time_def
        bnd_Returns [of "boot_completion_loop _"] split: option.splits if_splits)
qed

lemma reboot_run:
  assumes "reboot t (d, w) = (r, (d', w'))"
  shows "d' = d" and "mapping_view w' = mapping_view w"
    and "\<exists>es. trace w' = trace w @ Adb AdbReboot # es \<and> list_all is_probe_event es"
    and "r = Returns () \<or> (\<exists>sn. r = Raises (TestFailure (BootTimedOut sn))) \<or>
         r = Raises (AttributeError ''serial_number'')"
proof -
  from keepsD [OF keeps_reboot assms] show "d' = d" "mapping_view w' = mapping_view w"
    by simp_all
  let ?w0 = "w\<lparr>trace := trace w @ [Adb AdbReboot]\<rparr>"
  let ?rest = "bnd (reboot_wait_loop (int (now ?w0) + t)) (\<lambda>_.
     bnd time_time (\<lambda>tm. wait_for_boot_completion (t - (int tm - int (now ?w0)))))"
  have run: "?rest (d, ?w0) = (r, (d', w'))"
    using assms by (simp add: reboot_def time_time_def)
  have "emits_only is_probe_event ?rest"
    by (intro emits_only_bnd; simp)
  from emits_onlyD [OF this run]
  show "\<exists>es. trace w' = trace w @ Adb AdbReboot # es \<and> list_all is_probe_event es"
    by simp
  obtain r1 s1 where l: "reboot_wait_loop (int (now ?w0) + t) (d, ?w0) = (r1, s1)"
    by (metis prod.collapse)
  from reboot_wait_loop_returns [OF l] have r1: "r1 = Returns ()" .
  obtain d1 w1 where s1: "s1 = (d1, w1)" by (cases s1)
  have "wait_for_boot_completion (t - (int (now w1) - int (now ?w0))) (d1, w1) = (r, (d', w'))"
    using run l r1 s1 by (simp add: bnd_Returns [of "reboot_wait_loop _"] time_time_def)
  from wait_for_boot_completion_outcome [OF this]
  show "r = Returns () \<or> (\<exists>sn. r = Raises (TestFailure (BootTimedOut sn))) \<or>
         r = Raises (AttributeError ''serial_number'')" .
qed


lemma probe_filters:
  "list_all is_probe_event ps \<Longrightarrow>
   filter is_forward_attempt ps = [] \<and> filter is_reverse_attempt ps = [] \<and>
   filter is_reboot ps = []"
proof (induction ps)
  case Nil
  then show ?case by simp
next
  case (Cons e ps)
  then have "is_probe_event e" by simp
  then have "\<not> is_forward_attempt e \<and> \<not> is_reverse_attempt e \<and> \<not> is_reboot e"
    by (cases e rule: is_probe_event.cases) simp_all
  then show ?case using Cons by simp
qed

lemma retry_law_returns_first:
  "(replies \<noteq> [] \<Longrightarrow> \<not> is_err (hd replies)) \<Longrightarrow>
   retry_law is_err exhausted n replies (Returns port) 1 0"
  by (cases replies) (simp_all add: retry_law_def)

lemma retry_law_exhausted_first:
  "is_err a \<Longrightarrow> retry_law is_err exhausted 0 (a # rest) (Raises exhausted) 1 0"
  by (simp add: retry_law_def)

lemma retry_law_reboot_failed:
  "is_err a \<Longrightarrow>
   (\<exists>sn. r = Raises (TestFailure (BootTimedOut sn))) \<or>
     r = Raises (AttributeError ''serial_number'') \<Longrightarrow>
   retry_law is_err exhausted (Suc k) (a # rest) r 1 1"
  by (auto simp: retry_law_def)

lemma retry_law_step:
  "is_err a \<Longrightarrow> retry_law is_err exhausted k rest r attempts reboots \<Longrightarrow>
   retry_law is_err exhausted (Suc k) (a # rest) r (Suc attempts) (Suc reboots)"
  unfolding retry_law_def by (elim disjE conjE) simp_all


lemma forward_attempt_none:
  "forward_replies w = [] \<Longrightarrow>
   tcp_forward_or_die h p n (d, w) =
     (Returns h, (d, w\<lparr>trace := trace w @ [Adb (AdbTcpForward h p)], forward_replies := []\<rparr>))"
  by (subst tcp_forward_or_die.simps) (simp add: adb_tcp_forward_def bnd_assoc)

lemma forward_attempt_ok:
  "forward_replies w = a # rest \<Longrightarrow> \<not> is_forward_error a \<Longrightarrow>
   tcp_forward_or_die h p n (d, w) =
     (Returns (case a of PInt port \<Rightarrow> if port = 0 then h else port | PStr e \<Rightarrow> h),
      (d, w\<lparr>trace := trace w @ [Adb (AdbTcpForward h p)], forward_replies := rest\<rparr>))"
  by (subst tcp_forward_or_die.simps) (cases a; simp add: adb_tcp_forward_def bnd_assoc)

lemma forward_attempt_exhausted:
  "forward_replies w = a # rest \<Longrightarrow> is_forward_error a \<Longrightarrow>
   tcp_forward_or_die h p 0 (d, w) =
     (Raises (TestFailure (UnableToForward h p)),
      (d, w\<lparr>trace := trace w @ [Adb (AdbTcpForward h p)], forward_replies := rest\<rparr>))"
  by (subst tcp_forward_or_die.simps) (cases a; simp add: adb_tcp_forward_def bnd_assoc)

lemma forward_attempt_retry:
  "forward_replies w = a # rest \<Longrightarrow> is_forward_error a \<Longrightarrow>
   tcp_forward_or_die h p (Suc k) (d, w) =
     bnd (reboot (minutes 15)) (\<lambda>_. tcp_forward_or_die h p k)
       (d, (forward_replies_update tl w)
             \<lparr>trace := trace w @ [Adb (AdbTcpForward h p),
                  LogWarning (ForwardRetry (label d) h p k)]\<rparr>)"
  by (subst tcp_forward_or_die.simps) (cases a; simp add: adb_tcp_forward_def bnd_assoc)

lemma retry_step_trace:
  assumes "list_all is_probe_event ps"
  shows "length (filter is_forward_attempt
           ([Adb (AdbTcpForward h p), LogWarning m, Adb AdbReboot] @ ps @ es')) =
         Suc (length (filter is_forward_attempt es'))"
    and "length (filter is_reboot
           ([Adb (AdbTcpForward h p), LogWarning m, Adb AdbReboot] @ ps @ es')) =
         Suc (length (filter is_reboot es'))"
  using probe_filters [OF assms] by simp_all

lemma tcp_forward_or_die_run:
  assumes "tcp_forward_or_die h p n (d, w) = (r, (d', w'))"
  shows "\<exists>es. trace w' = trace w @ es \<and>
     retry_law is_forward_error (TestFailure (UnableToForward h p)) n (forward_replies w) r
       (length (filter is_forward_attempt es)) (length (filter is_reboot es))"
  using assms
proof (induction n arbitrary: d w r d' w')
  case 0
  show ?case
  proof (cases "forward_replies w")
    case Nil
    from "0.prems" [unfolded forward_attempt_none [OF Nil]] Nil
      retry_law_returns_first [of "[]" is_forward_error _ 0 h]
    show ?thesis by (intro exI [of _ "[Adb (AdbTcpForward h p)]"]) auto
  next
    case (Cons a rest)
    show ?thesis
    proof (cases "is_forward_error a")
      case False
      from "0.prems" [unfolded forward_attempt_ok [OF Cons False]] Cons False
        retry_law_returns_first [of "a # rest" is_forward_error _ 0]
      show ?thesis by (intro exI [of _ "[Adb (AdbTcpForward h p)]"]) auto
    next
      case True
      from "0.prems" [unfolded forward_attempt_exhausted [OF Cons True]] Cons
        retry_law_exhausted_first [of is_forward_error a, OF True]
      show ?thesis by (intro exI [of _ "[Adb (AdbTcpForward h p)]"]) auto
    qed
  qed
next
  case (Suc k)
  show ?case
  proof (cases "forward_replies w")
    case Nil
    from Suc.prems [unfolded forward_attempt_none [OF Nil]] Nil
      retry_law_returns_first [of "[]" is_forward_error _ "Suc k" h]
    show ?thesis by (intro exI [of _ "[Adb (AdbTcpForward h p)]"]) auto
  next
    case (Cons a rest)
    show ?thesis
    proof (cases "is_forward_error a")
      case False
      from Suc.prems [unfolded forward_attempt_ok [OF Cons False]] Cons False
        retry_law_returns_first [of "a # rest" is_forward_error _ "Suc k"]
      show ?thesis by (intro exI [of _ "[Adb (AdbTcpForward h p)]"]) auto
    next
      case err: True
      let ?m = "ForwardRetry (label d) h p k"
      let ?w2 = "(forward_replies_update tl w)
                   \<lparr>trace := trace w @ [Adb (AdbTcpForward h p), LogWarning ?m]\<rparr>"
      obtain r1 d3 w3 where rb: "reboot (minutes 15) (d, ?w2) = (r1, (d3, w3))"
        by (metis prod_cases3)
      note R = reboot_run [OF rb]
      from R(3) obtain ps where ps: "trace w3 = trace ?w2 @ Adb AdbReboot # ps"
        "list_all is_probe_event ps" by blast
      have fr: "forward_replies w3 = rest"
        using R(2) Cons by (simp add: mapping_view_def)
      note unfold = forward_attempt_retry [OF Cons err, of h p k d]
      show ?thesis
      proof (cases "r1 = Returns ()")
        case True
        then have "tcp_forward_or_die h p k (d3, w3) = (r, (d', w'))"
          using Suc.prems unfold rb by (simp add: bnd_Returns [of "reboot _"])
        from Suc.IH [OF this] obtain es' where es': "trace w' = trace w3 @ es'"
          "retry_law is_forward_error (TestFailure (UnableToForward h p)) k rest r
             (length (filter is_forward_attempt es')) (length (filter is_reboot es'))"
          using fr by auto
        let ?es = "[Adb (AdbTcpForward h p), LogWarning ?m, Adb AdbReboot] @ ps @ es'"
        have t: "trace w' = trace w @ ?es" using es'(1) ps(1) by simp
        have "retry_law is_forward_error (TestFailure (UnableToForward h p)) (Suc k)
            (forward_replies w) r
            (length (filter is_forward_attempt ?es)) (length (filter is_reboot ?es))"
          unfolding retry_step_trace [OF ps(2)] Cons
          using retry_law_step [of is_forward_error a _ k rest r] err es'(2) by simp
        with t show ?thesis by blast
      next
        case False
        then have fail: "(\<exists>sn. r1 = Raises (TestFailure (BootTimedOut sn))) \<or>
            r1 = Raises (AttributeError ''serial_number'')"
          using R(4) by blast
        then obtain e where e: "r1 = Raises e" by blast
        then have res: "r = Raises e" "w' = w3"
          using Suc.prems unfold rb by (simp_all add: bnd_Raises [of "reboot _"])
        have fail': "(\<exists>sn. r = Raises (TestFailure (BootTimedOut sn))) \<or>
            r = Raises (AttributeError ''serial_number'')"
          using fail e res by auto
        let ?es = "[Adb (AdbTcpForward h p), LogWarning ?m, Adb AdbReboot] @ ps @ []"
        have t: "trace w' = trace w @ ?es" using res ps(1) by simp
        have "retry_law is_forward_error (TestFailure (UnableToForward h p)) (Suc k)
            (forward_replies w) r
            (length (filter is_forward_attempt ?es)) (length (filter is_reboot ?es))"
          unfolding retry_step_trace [OF ps(2)] Cons
          using retry_law_reboot_failed [of is_forward_error a r _ k rest] err fail'
          by simp
        with t show ?thesis by blast
      qed
    qed
  qed
qed

lemma reverse_attempt_none:
  "reverse_replies w = [] \<Longrightarrow>
   tcp_reverse_or_die h p n (d, w) =
     (Returns h, (d, w\<lparr>trace := trace w @ [Adb (AdbReverse h p)], reverse_replies := []\<rparr>))"
  by (subst tcp_reverse_or_die.simps) (simp add: adb_reverse_def bnd_assoc)

lemma reverse_attempt_ok:
  "reverse_replies w = a # rest \<Longrightarrow> \<not> is_reverse_error a \<Longrightarrow>
   tcp_reverse_or_die h p n (d, w) =
     (Returns (if a = [] then h else the (py_int a)),
      (d, w\<lparr>trace := trace w @ [Adb (AdbReverse h p)], reverse_replies := rest\<rparr>))"
  by (subst tcp_reverse_or_die.simps)
     (auto simp: adb_reverse_def bnd_assoc is_reverse_error_def)

lemma reverse_attempt_exhausted:
  "reverse_replies w = a # rest \<Longrightarrow> is_reverse_error a \<Longrightarrow>
   tcp_reverse_or_die h p 0 (d, w) =
     (Raises (TestFailure (UnableToReverse h p)),
      (d, w\<lparr>trace := trace w @ [Adb (AdbReverse h p)], reverse_replies := rest\<rparr>))"
  by (subst tcp_reverse_or_die.simps) (simp add: adb_reverse_def bnd_assoc is_reverse_error_def)

lemma reverse_attempt_retry:
  "reverse_replies w = a # rest \<Longrightarrow> is_reverse_error a \<Longrightarrow>
   tcp_reverse_or_die h p (Suc k) (d, w) =
     bnd (reboot (minutes 15)) (\<lambda>_. tcp_reverse_or_die h p k)
       (d, (reverse_replies_update tl w)
             \<lparr>trace := trace w @ [Adb (AdbReverse h p),
                  LogWarning (ReverseRetry (label d) h p k)]\<rparr>)"
  by (subst tcp_reverse_or_die.simps) (simp add: adb_reverse_def bnd_assoc is_reverse_error_def)

lemma retry_step_trace_reverse:
  assumes "list_all is_probe_event ps"
  shows "length (filter is_reverse_attempt
           ([Adb (AdbReverse h p), LogWarning m, Adb AdbReboot] @ ps @ es')) =
         Suc (length (filter is_reverse_attempt es'))"
    and "length (filter is_reboot
           ([Adb (AdbReverse h p), LogWarning m, Adb AdbReboot] @ ps @ es')) =
         Suc (length (filter is_reboot es'))"
  using probe_filters [OF assms] by simp_all

lemma tcp_reverse_or_die_run:
  assumes "tcp_reverse_or_die h p n (d, w) = (r, (d', w'))"
  shows "\<exists>es. trace w' = trace w @ es \<and>
     retry_law is_reverse_error (TestFailure (UnableToReverse h p)) n (reverse_replies w) r
       (length (filter is_reverse_attempt es)) (length (filter is_reboot es))"
  using assms
proof (induction n arbitrary: d w r d' w')
  case 0
  show ?case
  proof (cases "reverse_replies w")
    case Nil
    from "0.prems" [unfolded reverse_attempt_none [OF Nil]] Nil
      retry_law_returns_first [of "[]" is_reverse_error _ 0 h]
    show ?thesis by (intro exI [of _ "[Adb (AdbReverse h p)]"]) auto
  next
    case (Cons a rest)
    show ?thesis
    proof (cases "is_reverse_error a")
      case False
      from "0.prems" [unfolded reverse_attempt_ok [OF Cons False]] Cons False
        retry_law_returns_first [of "a # rest" is_reverse_error _ 0]
      show ?thesis by (intro exI [of _ "[Adb (AdbReverse h p)]"]) auto
    next
      case True
      from "0.prems" [unfolded reverse_attempt_exhausted [OF Cons True]] Cons
        retry_law_exhausted_first [of is_reverse_error a, OF True]
      show ?thesis by (intro exI [of _ "[Adb (AdbReverse h p)]"]) auto
    qed
  qed
next
  case (Suc k)
  show ?case
  proof (cases "reverse_replies w")
    case Nil
    from Suc.prems [unfolded reverse_attempt_none [OF Nil]] Nil
      retry_law_returns_first [of "[]" is_reverse_error _ "Suc k" h]
    show ?thesis by (intro exI [of _ "[Adb (AdbReverse h p)]"]) auto
  next
    case (Cons a rest)
    show ?thesis
    proof (cases "is_reverse_error a")
      case False
      from Suc.prems [unfolded reverse_attempt_ok [OF Cons False]] Cons False
        retry_law_returns_first [of "a # rest" is_reverse_error _ "Suc k"]
      show ?thesis by (intro exI [of _ "[Adb (AdbReverse h p)]"]) auto
    next
      case err: True
      let ?m = "ReverseRetry (label d) h p k"
      let ?w2 = "(reverse_replies_update tl w)
                   \<lparr>trace := trace w @ [Adb (AdbReverse h p), LogWarning ?m]\<rparr>"
      obtain r1 d3 w3 where rb: "reboot (minutes 15) (d, ?w2) = (r1, (d3, w3))"
        by (metis prod_cases3)
      note R = reboot_run [OF rb]
      from R(3) obtain ps where ps: "trace w3 = trace ?w2 @ Adb AdbReboot # ps"
        "list_all is_probe_event ps" by blast
      have fr: "reverse_replies w3 = rest"
        using R(2) Cons by (simp add: mapping_view_def)
      note unfold = reverse_attempt_retry [OF Cons err, of h p k d]
      show ?thesis
      proof (cases "r1 = Returns ()")
        case True
        then have "tcp_reverse_or_die h p k (d3, w3) = (r, (d', w'))"
          using Suc.prems unfold rb by (simp add: bnd_Returns [of "reboot _"])
        from Suc.IH [OF this] obtain es' where es': "trace w' = trace w3 @ es'"
          "retry_law is_reverse_error (TestFailure (UnableToReverse h p)) k rest r
             (length (filter is_reverse_attempt es')) (length (filter is_reboot es'))"
          using fr by auto
        let ?es = "[Adb (AdbReverse h p), LogWarning ?m, Adb AdbReboot] @ ps @ es'"
        have t: "trace w' = trace w @ ?es" using es'(1) ps(1) by simp
        have "retry_law is_reverse_error (TestFailure (UnableToReverse h p)) (Suc k)
            (reverse_replies w) r
            (length (filter is_reverse_attempt ?es)) (length (filter is_reboot ?es))"
          unfolding retry_step_trace_reverse [OF ps(2)] Cons
          using retry_law_step [of is_reverse_error a _ k rest r] err es'(2) by simp
        with t show ?thesis by blast
      next
        case False
        then have fail: "(\<exists>sn. r1 = Raises (TestFailure (BootTimedOut sn))) \<or>
            r1 = Raises (AttributeError ''serial_number'')"
          using R(4) by blast
        then obtain e where e: "r1 = Raises e" by blast
        then have res: "r = Raises e" "w' = w3"
          using Suc.prems unfold rb by (simp_all add: bnd_Raises [of "reboot _"])
        have fail': "(\<exists>sn. r = Raises (TestFailure (BootTimedOut sn))) \<or>
            r = Raises (AttributeError ''serial_number'')"
          using fail e res by auto
        let ?es = "[Adb (AdbReverse h p), LogWarning ?m, Adb AdbReboot] @ ps @ []"
        have t: "trace w' = trace w @ ?es" using res ps(1) by simp
        have "retry_law is_reverse_error (TestFailure (UnableToReverse h p)) (Suc k)
            (reverse_replies w) r
            (length (filter is_reverse_attempt ?es)) (length (filter is_reboot ?es))"
          unfolding retry_step_trace_reverse [OF ps(2)] Cons
          using retry_law_reboot_failed [of is_reverse_error a r _ k rest] err fail'
          by simp
        with t show ?thesis by blast
      qed
    qed
  qed
qed


section \<open>The bringup of the device-hosted variant\<close>

lemma emits_bringup_probe: "emits_only is_probe_event m \<Longrightarrow> emits_only is_bringup_event m"
  using emits_only_mono [of is_probe_event m is_bringup_event] probe_is_bringup by blast

lemma emits_bringup_adb_ensure_root [simp]: "emits_only is_bringup_event adb_ensure_root"
  unfolding adb_ensure_root_def by (intro emits_intros; simp)

lemma emits_bringup_adb_shell [simp]: "emits_only is_bringup_event (adb_shell c)"
  unfolding adb_shell_def by (intro emits_intros; simp)

lemma emits_bringup_adb_push [simp]: "emits_only is_bringup_event (adb_push a b t)"
  unfolding adb_push_def by (intro emits_intros; simp)

lemma emits_bringup_adb_tcp_forward [simp]: "emits_only is_bringup_event (adb_tcp_forward h p)"
  unfolding adb_tcp_forward_def by (intro emits_intros; simp)

lemma emits_bringup_adb_reverse [simp]: "emits_only is_bringup_event (adb_reverse h p)"
  unfolding adb_reverse_def by (intro emits_intros; simp)

lemma emits_bringup_adb_getprop [simp]: "emits_only is_bringup_event (adb_getprop p)"
  by (simp add: emits_bringup_probe)

lemma emits_bringup_reboot [simp]: "emits_only is_bringup_event (reboot t)"
  unfolding reboot_def
  by (intro emits_only_bnd; simp add: emits_bringup_probe)

lemma emits_bringup_ensure_verity_disabled [simp]:
  "emits_only is_bringup_event ensure_verity_disabled"
  unfolding ensure_verity_disabled_def by (intro emits_only_bnd emits_only_if; simp)

lemma emits_bringup_push_or_die [simp]: "emits_only is_bringup_event (push_or_die a b t)"
  unfolding push_or_die_def
  by (intro emits_only_bnd emits_only_if emits_only_try_except; simp)

lemma emits_only_ensure_no_output [simp]: "emits_only P (ensure_no_output out)"
  by (simp add: ensure_no_output_def)

lemma emits_only_gd_root_path [simp]: "emits_only P (gd_root_path f)"
  by (simp add: gd_root_path_def)

lemma emits_bringup_tcp_forward_or_die [simp]:
  "emits_only is_bringup_event (tcp_forward_or_die h p n)"
proof (induction n)
  case 0
  show ?case
    by (subst tcp_forward_or_die.simps, simp only: nat.case)
       (intro emits_only_bnd emits_only_if emits_only_case_port; simp)
next
  case (Suc n)
  show ?case
    by (subst tcp_forward_or_die.simps, simp only: nat.case)
       (intro emits_only_bnd emits_only_if emits_only_case_port; simp add: Suc)
qed

lemma emits_bringup_tcp_reverse_or_die [simp]:
  "emits_only is_bringup_event (tcp_reverse_or_die h p n)"
proof (induction n)
  case 0
  show ?case
    by (subst tcp_reverse_or_die.simps, simp only: nat.case)
       (intro emits_only_bnd emits_only_if emits_only_case_option; simp)
next
  case (Suc n)
  show ?case
    by (subst tcp_reverse_or_die.simps, simp only: nat.case)
       (intro emits_only_bnd emits_only_if emits_only_case_option; simp add: Suc)
qed

lemma emits_bringup_android_bringup: "emits_only is_bringup_event android_bringup"
  unfolding android_bringup_def by (intro emits_only_bnd; simp)


lemma bringup_events_no_gate:
  assumes "list_all is_bringup_event es"
  shows "filter is_gate es = []" and "filter is_popen es = []"
    and "takeWhile (\<lambda>e. \<not> is_popen e) (es @ xs) = es @ takeWhile (\<lambda>e. \<not> is_popen e) xs"
proof -
  have *: "\<not> is_gate e \<and> \<not> is_popen e" if "is_bringup_event e" for e
    using that by (cases e) simp_all
  show "filter is_gate es = []" "filter is_popen es = []"
    using assms * by (induction es) auto
  show "takeWhile (\<lambda>e. \<not> is_popen e) (es @ xs) = es @ takeWhile (\<lambda>e. \<not> is_popen e) xs"
    using assms * by (induction es) auto
qed

lemma host_setup_run:
  "GdHostOnlyDevice_setup (d, w) =
     (if grpc_port d \<in> set (busy_ports w) \<or> grpc_root_server_port d \<in> set (busy_ports w)
      then (Raises (TestFailure (BackingPortsUnavailable (label d))),
            (d, w\<lparr>trace := trace w @
               [MakePortsAvailable [grpc_port d, grpc_root_server_port d]]\<rparr>))
      else GdDeviceBase_setup
             (d, w\<lparr>trace := trace w @
               [MakePortsAvailable [grpc_port d, grpc_root_server_port d]]\<rparr>))"
  by (simp add: GdHostOnlyDevice_setup_def make_ports_available_def assert_true_def bnd_assoc)

lemma base_setup_gates:
  assumes "GdDeviceBase_setup (d, w) = (r, (d', w'))"
  shows "\<exists>es. trace w' = trace w @ es \<and>
     filter is_gate es = [MakePortsAvailable [signal_port d]] \<and>
     (filter is_popen es \<noteq> [] \<longrightarrow>
        gated_before_spawn es = [MakePortsAvailable [signal_port d]] \<and>
        signal_port d \<notin> set (busy_ports w))"
  using assms
  by (auto simp: base_setup_run gated_before_spawn_def split: if_splits option.splits)

lemmas bringup_defs =
  android_bringup_def ensure_verity_disabled_def push_or_die_def ensure_no_output_def
  adb_ensure_root_def adb_getprop_def adb_get_state_def adb_shell_def adb_reverse_def
  adb_tcp_forward_def adb_push_def time_time_def sleep_def gd_root_path_def reboot_def
  wait_for_boot_completion_def boot_completed_def assert_true_def try_except_def
  WAIT_FOR_DEVICE_TIMEOUT_SECONDS_def minutes_def seconds_def

lemma android_setup_example:
  "fst (GdAndroidDevice_setup
     (android_device, quiet_world\<lparr>busy_ports := [8899, 8898], handshake_replies := [Some 3]\<rparr>)) =
     Returns () \<and>
   filter (\<lambda>e. is_gate e \<or> is_popen e) (trace (snd (snd (GdAndroidDevice_setup
     (android_device, quiet_world\<lparr>busy_ports := [8899, 8898], handshake_replies := [Some 3]\<rparr>))))) =
     [MakePortsAvailable [8894], Popen (cmd android_device)]"
  by (simp add: GdAndroidDevice_setup_def bringup_defs bnd_assoc android_device_def
      fresh_device_def quiet_world_def forward_attempt_none reverse_attempt_none
      bnd_def [of "tcp_forward_or_die _ _ _"] bnd_def [of "tcp_reverse_or_die _ _ _"]
      bnd_def [of "try_except _ _ _"] base_setup_run next_alive_def next_arrival_def)


lemma keeps_reverse_view: "keeps mapping_view m \<Longrightarrow> keeps reverse_view m"
  by (simp add: keeps_def mapping_view_def reverse_view_def)

lemma reverse_view_simps [simp]:
  "reverse_view (w\<lparr>trace := t\<rparr>) = reverse_view w"
  "reverse_view (w\<lparr>now := n\<rparr>) = reverse_view w"
  "reverse_view (forward_replies_update f w) = reverse_view w"
  by (simp_all add: reverse_view_def)

lemma keeps_reverse_view_tcp_forward_or_die: "keeps reverse_view (tcp_forward_or_die h p n)"
proof (induction n)
  case 0
  show ?case
    by (subst tcp_forward_or_die.simps, simp only: nat.case adb_tcp_forward_def)
       (intro keeps_intros; simp)
next
  case (Suc n)
  show ?case
    by (subst tcp_forward_or_die.simps, simp only: nat.case adb_tcp_forward_def)
       (intro keeps_intros; simp add: Suc keeps_reverse_view)
qed

lemma keeps_mapping_view_emit: "keeps mapping_view (emit e)"
  by (rule keeps_emit) simp

lemmas keeps_mapping_view_steps =
  keeps_ensure_verity_disabled keeps_attr keeps_adb_ensure_root keeps_assert_true
  keeps_adb_shell keeps_get keeps_mapping_view_emit

lemma bringup_raises_no_start:
  assumes "android_bringup (d, w) = (Raises e, s')"
  shows "GdAndroidDevice_setup (d, w) = (Raises e, s')"
    and "list_all is_bringup_event (emitted w (snd s'))"
proof -
  show "GdAndroidDevice_setup (d, w) = (Raises e, s')"
    using assms by (simp add: GdAndroidDevice_setup_def bnd_Raises [of android_bringup])
  obtain d' w' where s': "s' = (d', w')" by (cases s')
  from emits_onlyD [OF emits_bringup_android_bringup assms [unfolded s']]
  show "list_all is_bringup_event (emitted w (snd s'))"
    by (auto simp: emitted_def s')
qed


lemma forward_eval_exhausted:
  "forward_replies w \<noteq> [] \<Longrightarrow> is_forward_error (hd (forward_replies w)) \<Longrightarrow>
   tcp_forward_or_die h p 0 (d, w) =
     (Raises (TestFailure (UnableToForward h p)),
      (d, w\<lparr>trace := trace w @ [Adb (AdbTcpForward h p)],
            forward_replies := tl (forward_replies w)\<rparr>))"
  using forward_attempt_exhausted [of w "hd (forward_replies w)" "tl (forward_replies w)" h p d]
  by simp

lemma forward_eval_retry:
  "forward_replies w \<noteq> [] \<Longrightarrow> is_forward_error (hd (forward_replies w)) \<Longrightarrow>
   tcp_forward_or_die h p (Suc k) (d, w) =
     bnd (reboot (minutes 15)) (\<lambda>_. tcp_forward_or_die h p k)
       (d, (forward_replies_update tl w)
             \<lparr>trace := trace w @ [Adb (AdbTcpForward h p),
                  LogWarning (ForwardRetry (label d) h p k)]\<rparr>)"
  using forward_attempt_retry [of w "hd (forward_replies w)" "tl (forward_replies w)" h p k d]
  by simp

lemma forward_example:
  "fst (tcp_forward_or_die 8899 8899 1
     (android_device,
      quiet_world\<lparr>forward_replies := [PStr ''error: closed'', PStr ''error: closed''],
        getprop_replies := [Some ''1'']\<rparr>)) =
     Raises (TestFailure (UnableToForward 8899 8899)) \<and>
   trace (snd (snd (tcp_forward_or_die 8899 8899 1
     (android_device,
      quiet_world\<lparr>forward_replies := [PStr ''error: closed'', PStr ''error: closed''],
        getprop_replies := [Some ''1'']\<rparr>)))) =
     [Adb (AdbTcpForward 8899 8899), LogWarning (ForwardRetry ''cert'' 8899 8899 0),
      Adb AdbReboot, Adb AdbGetState, Adb (AdbWaitForDevice 180),
      Adb (AdbGetprop ''sys.boot_completed''), Adb (AdbTcpForward 8899 8899)]"
  by (simp add: forward_eval_retry forward_eval_exhausted bringup_defs bnd_assoc
      android_device_def fresh_device_def quiet_world_def
      bnd_def [of "reboot_wait_loop _"] bnd_def [of "boot_completion_loop _"]
      bnd_def [of "try_except _ _ _"])

lemma host_setup_example:
  "filter is_popen (trace (snd (snd (GdHostOnlyDevice_setup
     (fresh_device, quiet_world\<lparr>handshake_replies := [Some 3]\<rparr>))))) \<noteq> []"
  by (simp add: host_setup_run base_setup_run next_alive_def next_arrival_def
      fresh_device_def quiet_world_def)

lemma reverse_eval_exhausted:
  "reverse_replies w \<noteq> [] \<Longrightarrow> is_reverse_error (hd (reverse_replies w)) \<Longrightarrow>
   tcp_reverse_or_die h p 0 (d, w) =
     (Raises (TestFailure (UnableToReverse h p)),
      (d, w\<lparr>trace := trace w @ [Adb (AdbReverse h p)],
            reverse_replies := tl (reverse_replies w)\<rparr>))"
  using reverse_attempt_exhausted [of w "hd (reverse_replies w)" "tl (reverse_replies w)" h p d]
  by simp

lemma reverse_eval_retry:
  "reverse_replies w \<noteq> [] \<Longrightarrow> is_reverse_error (hd (reverse_replies w)) \<Longrightarrow>
   tcp_reverse_or_die h p (Suc k) (d, w) =
     bnd (reboot (minutes 15)) (\<lambda>_. tcp_reverse_or_die h p k)
       (d, (reverse_replies_update tl w)
             \<lparr>trace := trace w @ [Adb (AdbReverse h p),
                  LogWarning (ReverseRetry (label d) h p k)]\<rparr>)"
  using reverse_attempt_retry [of w "hd (reverse_replies w)" "tl (reverse_replies w)" h p k d]
  by simp

lemma py_int_error_closed: "py_int ''error: closed'' = None"
  by (simp add: py_int_def strip_def is_space_def is_digit_def)

lemma reverse_example:
  "fst (tcp_reverse_or_die 8894 8894 1
     (android_device,
      quiet_world\<lparr>reverse_replies := [''error: closed'', ''error: closed''],
        getprop_replies := [Some ''1'']\<rparr>)) =
     Raises (TestFailure (UnableToReverse 8894 8894)) \<and>
   trace (snd (snd (tcp_reverse_or_die 8894 8894 1
     (android_device,
      quiet_world\<lparr>reverse_replies := [''error: closed'', ''error: closed''],
        getprop_replies := [Some ''1'']\<rparr>)))) =
     [Adb (AdbReverse 8894 8894), LogWarning (ReverseRetry ''cert'' 8894 8894 0),
      Adb AdbReboot, Adb AdbGetState, Adb (AdbWaitForDevice 180),
      Adb (AdbGetprop ''sys.boot_completed''), Adb (AdbReverse 8894 8894)]"
  by (simp add: reverse_eval_retry reverse_eval_exhausted bringup_defs bnd_assoc
      android_device_def fresh_device_def quiet_world_def is_reverse_error_def
      py_int_error_closed
      bnd_def [of "reboot_wait_loop _"] bnd_def [of "boot_completion_loop _"]
      bnd_def [of "try_except _ _ _"])

section \<open>The mapping operations of the bringup\<close>

lemma reboot_failed_simps [simp]:
  "\<not> reboot_failed (Returns x)" "\<not> reboot_failed Hangs"
  "reboot_failed (Raises e) = boot_failure e"
  by (simp_all add: reboot_failed_def)

lemma reboot_failed_iff:
  "reboot_failed r \<longleftrightarrow>
     (\<exists>sn. r = Raises (TestFailure (BootTimedOut sn))) \<or>
     r = Raises (AttributeError ''serial_number'')"
proof (cases r)
  case (Raises e)
  then show ?thesis by (cases e rule: boot_failure.cases) auto
qed simp_all

lemma probe_not_mapping:
  "list_all is_probe_event ps \<Longrightarrow> filter is_mapping_event ps = []"
proof (induction ps)
  case Nil
  then show ?case by simp
next
  case (Cons e ps)
  then have "is_probe_event e" by simp
  then have "\<not> is_mapping_event e"
    by (cases e rule: is_probe_event.cases) simp_all
  then show ?case using Cons by simp
qed

lemma forward_mapping_run:
  assumes "tcp_forward_or_die h p n (d, w) = (r, (d', w'))"
    and "mapping_spec is_forward_error (Adb (AdbTcpForward h p))
           (\<lambda>k. LogWarning (ForwardRetry (label d) h p k)) n (forward_replies w) = (es, left)"
  shows "reboot_failed r \<or>
     filter is_mapping_event (emitted w w') = es \<and>
     (case left of
        None \<Rightarrow> r = Raises (TestFailure (UnableToForward h p))
      | Some fs \<Rightarrow> (\<exists>x. r = Returns x) \<and> forward_replies w' = fs)"
  using assms
proof (induction n arbitrary: d w r d' w' es left)
  case 0
  show ?case
  proof (cases "forward_replies w")
    case Nil
    from "0.prems" [unfolded forward_attempt_none [OF Nil]] Nil
    show ?thesis by (auto simp: emitted_def)
  next
    case (Cons a rest)
    show ?thesis
    proof (cases "is_forward_error a")
      case False
      from "0.prems" [unfolded forward_attempt_ok [OF Cons False]] Cons False
      show ?thesis by (auto simp: emitted_def)
    next
      case True
      from "0.prems" [unfolded forward_attempt_exhausted [OF Cons True]] Cons True
      show ?thesis by (auto simp: emitted_def)
    qed
  qed
next
  case (Suc k)
  show ?case
  proof (cases "forward_replies w")
    case Nil
    from Suc.prems [unfolded forward_attempt_none [OF Nil]] Nil
    show ?thesis by (auto simp: emitted_def)
  next
    case (Cons a rest)
    show ?thesis
    proof (cases "is_forward_error a")
      case False
      from Suc.prems [unfolded forward_attempt_ok [OF Cons False]] Cons False
      show ?thesis by (auto simp: emitted_def)
    next
      case err: True
      let ?m = "ForwardRetry (label d) h p k"
      let ?w2 = "(forward_replies_update tl w)
                   \<lparr>trace := trace w @ [Adb (AdbTcpForward h p), LogWarning ?m]\<rparr>"
      obtain r1 d3 w3 where rb: "reboot (minutes 15) (d, ?w2) = (r1, (d3, w3))"
        by (metis prod_cases3)
      note R = reboot_run [OF rb]
      from R(3) obtain ps where ps: "trace w3 = trace ?w2 @ Adb AdbReboot # ps"
        "list_all is_probe_event ps" by blast
      have fr: "forward_replies w3 = rest"
        using R(2) Cons by (simp add: mapping_view_def)
      note unfold = forward_attempt_retry [OF Cons err, of h p k d]
      obtain es' left' where sp: "mapping_spec is_forward_error (Adb (AdbTcpForward h p))
           (\<lambda>k. LogWarning (ForwardRetry (label d) h p k)) k rest = (es', left')"
        by (metis prod.collapse)
      have es: "es = Adb (AdbTcpForward h p) # LogWarning ?m # Adb AdbReboot # es'"
        "left = left'"
        using Suc.prems(2) Cons err sp by simp_all
      show ?thesis
      proof (cases "r1 = Returns ()")
        case True
        then have run: "tcp_forward_or_die h p k (d3, w3) = (r, (d', w'))"
          using Suc.prems unfold rb by (simp add: bnd_Returns [of "reboot _"])
        from tcp_forward_or_die_run [OF run] obtain x where x: "trace w' = trace w3 @ x"
          by blast
        have sp3: "mapping_spec is_forward_error (Adb (AdbTcpForward h p))
           (\<lambda>k. LogWarning (ForwardRetry (label d3) h p k)) k (forward_replies w3) = (es', left')"
          using sp fr R(1) by simp
        note IH = Suc.IH [OF run sp3]
        have e3: "emitted w3 w' = x" using x by (simp add: emitted_def)
        have e: "emitted w w' =
            [Adb (AdbTcpForward h p), LogWarning ?m, Adb AdbReboot] @ ps @ x"
          using x ps(1) by (simp add: emitted_def)
        show ?thesis using IH e e3 es probe_not_mapping [OF ps(2)] by auto
      next
        case False
        then have fail: "(\<exists>sn. r1 = Raises (TestFailure (BootTimedOut sn))) \<or>
            r1 = Raises (AttributeError ''serial_number'')"
          using R(4) by blast
        then obtain e where e: "r1 = Raises e" by blast
        then have res: "r = Raises e"
          using Suc.prems unfold rb by (simp_all add: bnd_Raises [of "reboot _"])
        then show ?thesis using fail e by (auto simp: reboot_failed_iff)
      qed
    qed
  qed
qed

lemma reverse_mapping_run:
  assumes "tcp_reverse_or_die h p n (d, w) = (r, (d', w'))"
    and "mapping_spec is_reverse_error (Adb (AdbReverse h p))
           (\<lambda>k. LogWarning (ReverseRetry (label d) h p k)) n (reverse_replies w) = (es, left)"
  shows "reboot_failed r \<or>
     filter is_mapping_event (emitted w w') = es \<and>
     (case left of
        None \<Rightarrow> r = Raises (TestFailure (UnableToReverse h p))
      | Some fs \<Rightarrow> (\<exists>x. r = Returns x) \<and> reverse_replies w' = fs)"
  using assms
proof (induction n arbitrary: d w r d' w' es left)
  case 0
  show ?case
  proof (cases "reverse_replies w")
    case Nil
    from "0.prems" [unfolded reverse_attempt_none [OF Nil]] Nil
    show ?thesis by (auto simp: emitted_def)
  next
    case (Cons a rest)
    show ?thesis
    proof (cases "is_reverse_error a")
      case False
      from "0.prems" [unfolded reverse_attempt_ok [OF Cons False]] Cons False
      show ?thesis by (auto simp: emitted_def)
    next
      case True
      from "0.prems" [unfolded reverse_attempt_exhausted [OF Cons True]] Cons True
      show ?thesis by (auto simp: emitted_def)
    qed
  qed
next
  case (Suc k)
  show ?case
  proof (cases "reverse_replies w")
    case Nil
    from Suc.prems [unfolded reverse_attempt_none [OF Nil]] Nil
    show ?thesis by (auto simp: emitted_def)
  next
    case (Cons a rest)
    show ?thesis
    proof (cases "is_reverse_error a")
      case False
      from Suc.prems [unfolded reverse_attempt_ok [OF Cons False]] Cons False
      show ?thesis by (auto simp: emitted_def)
    next
      case err: True
      let ?m = "ReverseRetry (label d) h p k"
      let ?w2 = "(reverse_replies_update tl w)
                   \<lparr>trace := trace w @ [Adb (AdbReverse h p), LogWarning ?m]\<rparr>"
      obtain r1 d3 w3 where rb: "reboot (minutes 15) (d, ?w2) = (r1, (d3, w3))"
        by (metis prod_cases3)
      note R = reboot_run [OF rb]
      from R(3) obtain ps where ps: "trace w3 = trace ?w2 @ Adb AdbReboot # ps"
        "list_all is_probe_event ps" by blast
      have fr: "reverse_replies w3 = rest"
        using R(2) Cons by (simp add: mapping_view_def)
      note unfold = reverse_attempt_retry [OF Cons err, of h p k d]
      obtain es' left' where sp: "mapping_spec is_reverse_error (Adb (AdbReverse h p))
           (\<lambda>k. LogWarning (ReverseRetry (label d) h p k)) k rest = (es', left')"
        by (metis prod.collapse)
      have es: "es = Adb (AdbReverse h p) # LogWarning ?m # Adb AdbReboot # es'"
        "left = left'"
        using Suc.prems(2) Cons err sp by simp_all
      show ?thesis
      proof (cases "r1 = Returns ()")
        case True
        then have run: "tcp_reverse_or_die h p k (d3, w3) = (r, (d', w'))"
          using Suc.prems unfold rb by (simp add: bnd_Returns [of "reboot _"])
        from tcp_reverse_or_die_run [OF run] obtain x where x: "trace w' = trace w3 @ x"
          by blast
        have sp3: "mapping_spec is_reverse_error (Adb (AdbReverse h p))
           (\<lambda>k. LogWarning (ReverseRetry (label d3) h p k)) k (reverse_replies w3) = (es', left')"
          using sp fr R(1) by simp
        note IH = Suc.IH [OF run sp3]
        have e3: "emitted w3 w' = x" using x by (simp add: emitted_def)
        have e: "emitted w w' =
            [Adb (AdbReverse h p), LogWarning ?m, Adb AdbReboot] @ ps @ x"
          using x ps(1) by (simp add: emitted_def)
        show ?thesis using IH e e3 es probe_not_mapping [OF ps(2)] by auto
      next
        case False
        then have fail: "(\<exists>sn. r1 = Raises (TestFailure (BootTimedOut sn))) \<or>
            r1 = Raises (AttributeError ''serial_number'')"
          using R(4) by blast
        then obtain e where e: "r1 = Raises e" by blast
        then have res: "r = Raises e"
          using Suc.prems unfold rb by (simp_all add: bnd_Raises [of "reboot _"])
        then show ?thesis using fail e by (auto simp: reboot_failed_iff)
      qed
    qed
  qed
qed


lemma keeps_android_prepare: "keeps mapping_view android_prepare"
  unfolding android_prepare_def by (intro keeps_bnd keeps_mapping_view_steps)

lemma bringup_prepare_raises:
  assumes "android_prepare (d, w) = (Raises e, s)"
  shows "android_bringup (d, w) = (Raises e, s)"
proof -
  obtain r0 d0 w0 where v: "ensure_verity_disabled (d, w) = (r0, (d0, w0))"
    by (metis prod_cases3)
  show ?thesis
  proof (cases r0)
    case (Returns x)
    then show ?thesis
      using assms v
      by (auto simp: android_prepare_def android_bringup_def
          bnd_Returns [of ensure_verity_disabled] adb_ensure_root_def adb_shell_def
          assert_true_def bnd_assoc bnd_if
          split: option.splits if_splits list.splits)
  next
    case (Raises e')
    then show ?thesis
      using assms v
      by (simp add: android_prepare_def android_bringup_def
          bnd_Raises [of ensure_verity_disabled])
  next
    case Hangs
    then show ?thesis
      using assms v
      by (simp add: android_prepare_def bnd_Hangs [of ensure_verity_disabled])
  qed
qed

lemma bringup_prepare_returns:
  assumes "android_prepare (d, w) = (Returns (), (d1, w1))"
  shows "\<exists>rest. android_bringup (d, w) =
     bnd (tcp_forward_or_die (grpc_port d) (grpc_port d) 1) (\<lambda>_.
     bnd (tcp_forward_or_die (grpc_root_server_port d) (grpc_root_server_port d) 1) (\<lambda>_.
     bnd (tcp_reverse_or_die (signal_port d) (signal_port d) 1) rest)) (d, w1)"
proof -
  obtain r0 d0 w0 where v: "ensure_verity_disabled (d, w) = (r0, (d0, w0))"
    by (metis prod_cases3)
  have d0: "d0 = d" using keepsD [OF keeps_ensure_verity_disabled v] by simp
  show ?thesis
  proof (cases r0)
    case (Returns x)
    then show ?thesis
      using assms v d0
      by (auto simp: android_prepare_def android_bringup_def
          bnd_Returns [of ensure_verity_disabled] adb_ensure_root_def adb_shell_def
          assert_true_def bnd_assoc bnd_if
          split: option.splits if_splits list.splits)
  next
    case (Raises e')
    then show ?thesis
      using assms v
      by (simp add: android_prepare_def bnd_Raises [of ensure_verity_disabled])
  next
    case Hangs
    then show ?thesis
      using assms v
      by (simp add: android_prepare_def bnd_Hangs [of ensure_verity_disabled])
  qed
qed


lemma emitted_append:
  "trace w1 = trace w @ a \<Longrightarrow> trace w2 = trace w1 @ b \<Longrightarrow>
   emitted w w2 = emitted w w1 @ emitted w1 w2"
  by (simp add: emitted_def)

lemma mappings_run:
  assumes run: "bnd (tcp_forward_or_die (grpc_port d) (grpc_port d) 1) (\<lambda>_.
       bnd (tcp_forward_or_die (grpc_root_server_port d) (grpc_root_server_port d) 1) (\<lambda>_.
       bnd (tcp_reverse_or_die (signal_port d) (signal_port d) 1) rest)) (d, w) =
       (r, (d', w'))"
    and spec: "bringup_mappings_spec d (forward_replies w) (reverse_replies w) = (es, Some f)"
  shows "reboot_failed r \<or>
     r = Raises (TestFailure f) \<and> filter is_mapping_event (emitted w w') = es"
    and "\<exists>e. r = Raises e"
proof -
  let ?gp = "grpc_port d" and ?rp = "grpc_root_server_port d" and ?sp = "signal_port d"
  obtain r1 d1 w1 where o1: "tcp_forward_or_die ?gp ?gp 1 (d, w) = (r1, (d1, w1))"
    by (metis prod_cases3)
  obtain es1 l1 where s1: "mapping_spec is_forward_error (Adb (AdbTcpForward ?gp ?gp))
      (\<lambda>k. LogWarning (ForwardRetry (label d) ?gp ?gp k)) 1 (forward_replies w) = (es1, l1)"
    by (metis prod.collapse)
  note A1 = forward_mapping_run [OF o1 s1]
  note K1 = keepsD [OF keeps_reverse_view_tcp_forward_or_die o1]
  from emits_onlyD [OF emits_bringup_tcp_forward_or_die o1]
  obtain x1 where x1: "trace w1 = trace w @ x1" by blast
  have main: "(reboot_failed r \<or>
     r = Raises (TestFailure f) \<and> filter is_mapping_event (emitted w w') = es) \<and>
     (\<exists>e. r = Raises e)"
  proof (cases r1)
    case Hangs
    then show ?thesis using K1 by simp
  next
    case (Raises e)
    then have res: "r = Raises e" "w' = w1"
      using run o1 by (simp_all add: bnd_Raises [of "tcp_forward_or_die _ _ _"])
    show ?thesis
    proof (cases "reboot_failed r1")
      case True
      then show ?thesis using res Raises by simp
    next
      case False
      then have "filter is_mapping_event (emitted w w1) = es1" "l1 = None"
        "r1 = Raises (TestFailure (UnableToForward ?gp ?gp))"
        using A1 Raises by (auto split: option.splits)
      then show ?thesis
        using spec s1 res Raises by (simp add: bringup_mappings_spec_def Let_def)
    qed
  next
    case (Returns y1)
    then obtain fs1 where l1: "l1 = Some fs1" "forward_replies w1 = fs1"
      "filter is_mapping_event (emitted w w1) = es1"
      using A1 by (auto split: option.splits)
    have run2: "bnd (tcp_forward_or_die ?rp ?rp 1) (\<lambda>_.
       bnd (tcp_reverse_or_die ?sp ?sp 1) rest) (d, w1) = (r, (d', w'))"
      using run o1 Returns K1 by (simp add: bnd_Returns [of "tcp_forward_or_die _ _ _"])
    obtain r2 d2 w2 where o2: "tcp_forward_or_die ?rp ?rp 1 (d, w1) = (r2, (d2, w2))"
      by (metis prod_cases3)
    obtain es2 l2 where s2: "mapping_spec is_forward_error (Adb (AdbTcpForward ?rp ?rp))
        (\<lambda>k. LogWarning (ForwardRetry (label d) ?rp ?rp k)) 1 (forward_replies w1) = (es2, l2)"
      by (metis prod.collapse)
    note A2 = forward_mapping_run [OF o2 s2]
    note K2 = keepsD [OF keeps_reverse_view_tcp_forward_or_die o2]
    from emits_onlyD [OF emits_bringup_tcp_forward_or_die o2]
    obtain x2 where x2: "trace w2 = trace w1 @ x2" by blast
    have e2: "emitted w w2 = emitted w w1 @ emitted w1 w2"
      using emitted_append [OF x1 x2] .
    have rr: "reverse_replies w2 = reverse_replies w"
      using K1 K2 by (simp add: reverse_view_def)
    show ?thesis
    proof (cases r2)
      case Hangs
      then show ?thesis using K2 by simp
    next
      case (Raises e)
      then have res: "r = Raises e" "w' = w2"
        using run2 o2 by (simp_all add: bnd_Raises [of "tcp_forward_or_die _ _ _"])
      show ?thesis
      proof (cases "reboot_failed r2")
        case True
        then show ?thesis using res Raises by simp
      next
        case False
        then have "filter is_mapping_event (emitted w1 w2) = es2" "l2 = None"
          "r2 = Raises (TestFailure (UnableToForward ?rp ?rp))"
          using A2 Raises by (auto split: option.splits)
        then show ?thesis
          using spec s1 s2 l1 res Raises e2
          by (simp add: bringup_mappings_spec_def Let_def)
      qed
    next
      case (Returns y2)
      then obtain fs2 where l2: "l2 = Some fs2"
        "filter is_mapping_event (emitted w1 w2) = es2"
        using A2 by (auto split: option.splits)
      have run3: "bnd (tcp_reverse_or_die ?sp ?sp 1) rest (d, w2) = (r, (d', w'))"
        using run2 o2 Returns K2 by (simp add: bnd_Returns [of "tcp_forward_or_die _ _ _"])
      obtain r3 d3 w3 where o3: "tcp_reverse_or_die ?sp ?sp 1 (d, w2) = (r3, (d3, w3))"
        by (metis prod_cases3)
      obtain es3 l3 where s3: "mapping_spec is_reverse_error (Adb (AdbReverse ?sp ?sp))
          (\<lambda>k. LogWarning (ReverseRetry (label d) ?sp ?sp k)) 1 (reverse_replies w2) = (es3, l3)"
        by (metis prod.collapse)
      note A3 = reverse_mapping_run [OF o3 s3]
      note K3 = keepsD [OF keeps_tcp_reverse_or_die o3]
      from emits_onlyD [OF emits_bringup_tcp_reverse_or_die o3]
      obtain x3 where x3: "trace w3 = trace w2 @ x3" by blast
      have x12: "trace w2 = trace w @ (x1 @ x2)" using x1 x2 by simp
      have e3: "emitted w w3 = emitted w w1 @ emitted w1 w2 @ emitted w2 w3"
        using emitted_append [OF x12 x3] e2 by simp
      show ?thesis
      proof (cases r3)
        case Hangs
        then show ?thesis using K3 by simp
      next
        case (Raises e)
        then have res: "r = Raises e" "w' = w3"
          using run3 o3 by (simp_all add: bnd_Raises [of "tcp_reverse_or_die _ _ _"])
        show ?thesis
        proof (cases "reboot_failed r3")
          case True
          then show ?thesis using res Raises by simp
        next
          case False
          then have "filter is_mapping_event (emitted w2 w3) = es3" "l3 = None"
            "r3 = Raises (TestFailure (UnableToReverse ?sp ?sp))"
            using A3 Raises by (auto split: option.splits)
          then show ?thesis
            using spec s1 s2 s3 l1 l2 rr res Raises e3
            by (simp add: bringup_mappings_spec_def Let_def)
        qed
      next
        case (Returns y3)
        then obtain rs3 where "l3 = Some rs3"
          using A3 by (auto split: option.splits)
        then have False
          using spec s1 s2 s3 l1 l2 rr by (simp add: bringup_mappings_spec_def Let_def)
        then show ?thesis ..
      qed
    qed
  qed
  show "reboot_failed r \<or>
     r = Raises (TestFailure f) \<and> filter is_mapping_event (emitted w w') = es"
    and "\<exists>e. r = Raises e"
    using main by simp_all
qed


lemma forward_eval_ok:
  "forward_replies w \<noteq> [] \<Longrightarrow> \<not> is_forward_error (hd (forward_replies w)) \<Longrightarrow>
   tcp_forward_or_die h p n (d, w) =
     (Returns (case hd (forward_replies w) of
                 PInt port \<Rightarrow> if port = 0 then h else port | PStr e \<Rightarrow> h),
      (d, w\<lparr>trace := trace w @ [Adb (AdbTcpForward h p)],
            forward_replies := tl (forward_replies w)\<rparr>))"
  using forward_attempt_ok [of w "hd (forward_replies w)" "tl (forward_replies w)" h p n d]
  by simp

lemma prepare_example:
  "fst (android_prepare (android_device, forward_world)) = Returns () \<and>
   trace (snd (snd (android_prepare (android_device, forward_world)))) =
     [Adb AdbEnsureRoot, Adb (AdbGetprop ''partition.system.verified''),
      Adb (AdbGetprop ''partition.vendor.verified''), Adb AdbRemount,
      Adb (AdbWaitForDevice 180), Adb AdbEnsureRoot, Adb (AdbShell ''date''),
      Adb (AdbRemoveTcpForward 8899), Adb (AdbRemoveTcpForward 8898),
      Adb (AdbReverseRemove 8894)] \<and>
   fst (android_prepare (android_device, reverse_world)) = Returns () \<and>
   trace (snd (snd (android_prepare (android_device, reverse_world)))) =
     [Adb AdbEnsureRoot, Adb (AdbGetprop ''partition.system.verified''),
      Adb (AdbGetprop ''partition.vendor.verified''), Adb AdbRemount,
      Adb (AdbWaitForDevice 180), Adb AdbEnsureRoot, Adb (AdbShell ''date''),
      Adb (AdbRemoveTcpForward 8899), Adb (AdbRemoveTcpForward 8898),
      Adb (AdbReverseRemove 8894)]"
  by (simp add: android_prepare_def bringup_defs bnd_assoc android_device_def
      fresh_device_def quiet_world_def forward_world_def reverse_world_def)

lemma setup_forward_example:
  "fst (GdAndroidDevice_setup (android_device, forward_world)) =
     Raises (TestFailure (UnableToForward 8898 8898)) \<and>
   trace (snd (snd (GdAndroidDevice_setup (android_device, forward_world)))) =
     [Adb AdbEnsureRoot, Adb (AdbGetprop ''partition.system.verified''),
      Adb (AdbGetprop ''partition.vendor.verified''), Adb AdbRemount,
      Adb (AdbWaitForDevice 180), Adb AdbEnsureRoot, Adb (AdbShell ''date''),
      Adb (AdbRemoveTcpForward 8899), Adb (AdbRemoveTcpForward 8898),
      Adb (AdbReverseRemove 8894), Adb (AdbTcpForward 8899 8899),
      Adb (AdbTcpForward 8898 8898), LogWarning (ForwardRetry ''cert'' 8898 8898 0),
      Adb AdbReboot, Adb AdbGetState, Adb (AdbWaitForDevice 180),
      Adb (AdbGetprop ''sys.boot_completed''), Adb (AdbTcpForward 8898 8898)]"
  by (simp add: GdAndroidDevice_setup_def bringup_defs bnd_assoc android_device_def
      fresh_device_def quiet_world_def forward_world_def
      forward_eval_ok forward_eval_retry forward_eval_exhausted
      bnd_def [of "tcp_forward_or_die _ _ _"] bnd_def [of "tcp_reverse_or_die _ _ _"]
      bnd_def [of "reboot_wait_loop _"] bnd_def [of "boot_completion_loop _"]
      bnd_def [of "try_except _ _ _"])


lemma reverse_eval_ok:
  "reverse_replies w \<noteq> [] \<Longrightarrow> \<not> is_reverse_error (hd (reverse_replies w)) \<Longrightarrow>
   tcp_reverse_or_die h p n (d, w) =
     (Returns (if hd (reverse_replies w) = [] then h else the (py_int (hd (reverse_replies w)))),
      (d, w\<lparr>trace := trace w @ [Adb (AdbReverse h p)],
            reverse_replies := tl (reverse_replies w)\<rparr>))"
  using reverse_attempt_ok [of w "hd (reverse_replies w)" "tl (reverse_replies w)" h p n d]
  by simp

lemma setup_reverse_example:
  "fst (GdAndroidDevice_setup (android_device, reverse_world)) =
     Raises (TestFailure (UnableToReverse 8894 8894)) \<and>
   trace (snd (snd (GdAndroidDevice_setup (android_device, reverse_world)))) =
     [Adb AdbEnsureRoot, Adb (AdbGetprop ''partition.system.verified''),
      Adb (AdbGetprop ''partition.vendor.verified''), Adb AdbRemount,
      Adb (AdbWaitForDevice 180), Adb AdbEnsureRoot, Adb (AdbShell ''date''),
      Adb (AdbRemoveTcpForward 8899), Adb (AdbRemoveTcpForward 8898),
      Adb (AdbReverseRemove 8894), Adb (AdbTcpForward 8899 8899),
      Adb (AdbTcpForward 8898 8898), Adb (AdbReverse 8894 8894),
      LogWarning (ReverseRetry ''cert'' 8894 8894 0),
      Adb AdbReboot, Adb AdbGetState, Adb (AdbWaitForDevice 180),
      Adb (AdbGetprop ''sys.boot_completed''), Adb (AdbReverse 8894 8894)]"
  by (simp add: GdAndroidDevice_setup_def bringup_defs bnd_assoc android_device_def
      fresh_device_def quiet_world_def reverse_world_def
      forward_attempt_none reverse_eval_retry reverse_eval_exhausted
      is_reverse_error_def py_int_error_closed
      bnd_def [of "tcp_forward_or_die _ _ _"] bnd_def [of "tcp_reverse_or_die _ _ _"]
      bnd_def [of "reboot_wait_loop _"] bnd_def [of "boot_completion_loop _"]
      bnd_def [of "try_except _ _ _"])

lemma mappings_spec_example:
  "bringup_mappings_spec android_device (forward_replies forward_world)
     (reverse_replies forward_world) =
     ([Adb (AdbTcpForward 8899 8899), Adb (AdbTcpForward 8898 8898),
       LogWarning (ForwardRetry ''cert'' 8898 8898 0), Adb AdbReboot,
       Adb (AdbTcpForward 8898 8898)],
      Some (UnableToForward 8898 8898)) \<and>
   bringup_mappings_spec android_device (forward_replies reverse_world)
     (reverse_replies reverse_world) =
     ([Adb (AdbTcpForward 8899 8899), Adb (AdbTcpForward 8898 8898),
       Adb (AdbReverse 8894 8894), LogWarning (ReverseRetry ''cert'' 8894 8894 0),
       Adb AdbReboot, Adb (AdbReverse 8894 8894)],
      Some (UnableToReverse 8894 8894))"
  by (simp add: bringup_mappings_spec_def android_device_def fresh_device_def
      forward_world_def reverse_world_def quiet_world_def is_reverse_error_def
      py_int_error_closed)

section \<open>The claims about the variants and the port mappings\<close>

text \<open>
  C7. Before the worker is spawned, the setup of the host-only variant gates the two
  RPC ports and then the signal port, and spawns only when all three are available; the
  setup of the device-hosted variant gates the signal port alone: the only gate it
  ever records is the one on the signal port, and no gate on the RPC ports stands
  before its spawn.
\<close>

theorem port_gates_by_variant:
  "(GdHostOnlyDevice_setup (d, w) = (r, (d', w')) \<longrightarrow>
      take 1 (filter is_gate (emitted w w')) =
        [MakePortsAvailable [grpc_port d, grpc_root_server_port d]] \<and>
      (filter is_popen (emitted w w') \<noteq> [] \<longrightarrow>
         gated_before_spawn (emitted w w') =
           [MakePortsAvailable [grpc_port d, grpc_root_server_port d],
            MakePortsAvailable [signal_port d]] \<and>
         grpc_port d \<notin> set (busy_ports w) \<and>
         grpc_root_server_port d \<notin> set (busy_ports w) \<and>
         signal_port d \<notin> set (busy_ports w))) \<and>
   (GdAndroidDevice_setup (d, w) = (r2, (d2, w2)) \<longrightarrow>
      (filter is_gate (emitted w w2) = [] \<or>
       filter is_gate (emitted w w2) = [MakePortsAvailable [signal_port d]]) \<and>
      (filter is_popen (emitted w w2) \<noteq> [] \<longrightarrow>
         gated_before_spawn (emitted w w2) = [MakePortsAvailable [signal_port d]] \<and>
         signal_port d \<notin> set (busy_ports w)))"
proof (intro conjI impI)
  assume h: "GdHostOnlyDevice_setup (d, w) = (r, (d', w'))"
  let ?g = "MakePortsAvailable [grpc_port d, grpc_root_server_port d]"
  let ?w1 = "w\<lparr>trace := trace w @ [?g]\<rparr>"
  show "take 1 (filter is_gate (emitted w w')) = [?g]"
  proof (cases "grpc_port d \<in> set (busy_ports w) \<or> grpc_root_server_port d \<in> set (busy_ports w)")
    case True
    then show ?thesis using h by (auto simp: host_setup_run emitted_def)
  next
    case False
    then have "GdDeviceBase_setup (d, ?w1) = (r, (d', w'))" using h by (simp add: host_setup_run)
    from base_setup_gates [OF this] show ?thesis by (auto simp: emitted_def)
  qed
  assume p: "filter is_popen (emitted w w') \<noteq> []"
  have nb: "\<not> (grpc_port d \<in> set (busy_ports w) \<or> grpc_root_server_port d \<in> set (busy_ports w))"
    using h p by (auto simp: host_setup_run emitted_def split: if_splits)
  then have b: "GdDeviceBase_setup (d, ?w1) = (r, (d', w'))" using h by (simp add: host_setup_run)
  from base_setup_gates [OF b] obtain es where es: "trace w' = trace ?w1 @ es"
    "filter is_popen es \<noteq> [] \<longrightarrow>
        gated_before_spawn es = [MakePortsAvailable [signal_port d]] \<and>
        signal_port d \<notin> set (busy_ports ?w1)" by blast
  have em: "emitted w w' = ?g # es" using es(1) by (simp add: emitted_def)
  then have "filter is_popen es \<noteq> []" using p by simp
  with es(2) em
  show "gated_before_spawn (emitted w w') = [?g, MakePortsAvailable [signal_port d]]"
    "signal_port d \<notin> set (busy_ports w)"
    by (simp_all add: gated_before_spawn_def)
  show "grpc_port d \<notin> set (busy_ports w)" "grpc_root_server_port d \<notin> set (busy_ports w)"
    using nb by simp_all
next
  assume a: "GdAndroidDevice_setup (d, w) = (r2, (d2, w2))"
  obtain r1 d1 w1 where b: "android_bringup (d, w) = (r1, (d1, w1))" by (metis prod_cases3)
  from keepsD [OF keeps_android_bringup b] have k: "r1 \<noteq> Hangs" "d1 = d"
    "busy_ports w1 = busy_ports w" by (simp_all add: port_view_def)
  from emits_onlyD [OF emits_bringup_android_bringup b] obtain es1 where
    es1: "trace w1 = trace w @ es1" "list_all is_bringup_event es1" by blast
  note ng = bringup_events_no_gate [OF es1(2)]
  have "(filter is_gate (emitted w w2) = [] \<or>
       filter is_gate (emitted w w2) = [MakePortsAvailable [signal_port d]]) \<and>
      (filter is_popen (emitted w w2) \<noteq> [] \<longrightarrow>
         gated_before_spawn (emitted w w2) = [MakePortsAvailable [signal_port d]] \<and>
         signal_port d \<notin> set (busy_ports w))"
  proof (cases r1)
    case (Returns x)
    then have "GdDeviceBase_setup (d, w1) = (r2, (d2, w2))"
      using a b k by (simp add: GdAndroidDevice_setup_def bnd_Returns [of android_bringup])
    from base_setup_gates [OF this] obtain es where es: "trace w2 = trace w1 @ es"
      "filter is_gate es = [MakePortsAvailable [signal_port d]]"
      "filter is_popen es \<noteq> [] \<longrightarrow>
        gated_before_spawn es = [MakePortsAvailable [signal_port d]] \<and>
        signal_port d \<notin> set (busy_ports w1)" by blast
    have em: "emitted w w2 = es1 @ es" using es(1) es1(1) by (simp add: emitted_def)
    show ?thesis using es(2,3) ng k(3) by (simp add: em gated_before_spawn_def)
  next
    case (Raises e)
    then have "w2 = w1" using a b by (simp add: GdAndroidDevice_setup_def bnd_Raises [of android_bringup])
    then have "emitted w w2 = es1" using es1(1) by (simp add: emitted_def)
    then show ?thesis using ng by simp
  next
    case Hangs
    then show ?thesis using k by simp
  qed
  then show "filter is_gate (emitted w w2) = [] \<or>
       filter is_gate (emitted w w2) = [MakePortsAvailable [signal_port d]]"
    and "filter is_popen (emitted w w2) \<noteq> [] \<Longrightarrow>
         gated_before_spawn (emitted w w2) = [MakePortsAvailable [signal_port d]]"
    and "filter is_popen (emitted w w2) \<noteq> [] \<Longrightarrow> signal_port d \<notin> set (busy_ports w)"
    by simp_all
qed


theorem port_gates_by_variant_witness:
  "filter is_popen (trace (snd (snd (GdHostOnlyDevice_setup
     (fresh_device, quiet_world\<lparr>handshake_replies := [Some 3]\<rparr>))))) \<noteq> [] \<and>
   gated_before_spawn (trace (snd (snd (GdHostOnlyDevice_setup
     (fresh_device, quiet_world\<lparr>handshake_replies := [Some 3]\<rparr>))))) =
     [MakePortsAvailable [8899, 8898], MakePortsAvailable [8894]] \<and>
   busy_ports (quiet_world\<lparr>busy_ports := [8899, 8898], handshake_replies := [Some 3]\<rparr>) =
     [grpc_port android_device, grpc_root_server_port android_device] \<and>
   filter is_popen (trace (snd (snd (GdAndroidDevice_setup
     (android_device, quiet_world\<lparr>busy_ports := [8899, 8898], handshake_replies := [Some 3]\<rparr>))))) \<noteq> [] \<and>
   gated_before_spawn (trace (snd (snd (GdAndroidDevice_setup
     (android_device, quiet_world\<lparr>busy_ports := [8899, 8898], handshake_replies := [Some 3]\<rparr>))))) =
     [MakePortsAvailable [8894]]"
proof -
  let ?w1 = "quiet_world\<lparr>handshake_replies := [Some 3]\<rparr>"
  let ?w2 = "quiet_world\<lparr>busy_ports := [8899, 8898], handshake_replies := [Some 3]\<rparr>"
  obtain r d' w' where h: "GdHostOnlyDevice_setup (fresh_device, ?w1) = (r, (d', w'))"
    by (metis prod_cases3)
  obtain r2 d2 w2 where a: "GdAndroidDevice_setup (android_device, ?w2) = (r2, (d2, w2))"
    by (metis prod_cases3)
  have e1: "emitted ?w1 w' = trace w'" and e2: "emitted ?w2 w2 = trace w2"
    by (simp_all add: emitted_def quiet_world_def)
  have ph: "filter is_popen (trace w') \<noteq> []" using host_setup_example h by simp
  have "filter is_popen (filter (\<lambda>e. is_gate e \<or> is_popen e) (trace w2)) \<noteq> []"
    using android_setup_example a by simp
  then have pa: "filter is_popen (trace w2) \<noteq> []" by (auto simp: filter_empty_conv)
  from port_gates_by_variant [of fresh_device ?w1 r d' w'] h ph e1
  have g1: "gated_before_spawn (trace w') =
      [MakePortsAvailable [8899, 8898], MakePortsAvailable [8894]]"
    by (simp add: fresh_device_def)
  from port_gates_by_variant [of android_device ?w2 _ _ _ r2 d2 w2] a pa e2
  have g2: "gated_before_spawn (trace w2) = [MakePortsAvailable [8894]]"
    by (simp add: android_device_def fresh_device_def)
  show ?thesis using h a ph pa g1 g2 by (simp add: android_device_def fresh_device_def)
qed





end
